theory Spec2Isabelle
  imports Main "HOL-Library.Word"
begin

section \<open>Platform types\<close>

text \<open>
  The lifecycle controller of \<^verbatim>\<open>main/esp32-lcm.c\<close> and the application entry points of the
  plug firmware, embedded as state-passing functions. The program's globals, the RTC-retained
  block and the part of the platform it talks to (the NVS key/value store, the partition table,
  the one-shot timer) are the fields of one state record. Calls into the platform that can fail
  take their outcome from a fault schedule carried by the state, so that every theorem that
  quantifies over the state quantifies over every combination of platform failures.
\<close>

type_synonym u32 = "32 word"
type_synonym u8 = "8 word"

text \<open>The error codes the source distinguishes; every other code is \<open>ESP_ERR_OTHER n\<close>.\<close>

datatype esp_err_t =
    ESP_OK
  | ESP_FAIL
  | ESP_ERR_NO_MEM
  | ESP_ERR_INVALID_ARG
  | ESP_ERR_INVALID_STATE
  | ESP_ERR_NOT_FOUND
  | ESP_ERR_NVS_NOT_INITIALIZED
  | ESP_ERR_NVS_NOT_FOUND
  | ESP_ERR_NVS_TYPE_MISMATCH
  | ESP_ERR_NVS_NO_FREE_PAGES
  | ESP_ERR_NVS_NEW_VERSION_FOUND
  | ESP_ERR_WIFI_NOT_INIT
  | ESP_ERR_WIFI_NOT_STARTED
  | ESP_ERR_OTHER nat

datatype esp_partition_type_t = ESP_PARTITION_TYPE_APP | ESP_PARTITION_TYPE_DATA | ESP_PARTITION_TYPE_OTHER nat

record esp_partition_t =
  part_type :: esp_partition_type_t
  part_subtype :: u8
  part_address :: u32
  part_size :: u32
  part_label :: string

text \<open>
  Partition subtypes, with the values of the platform header \<^verbatim>\<open>esp_partition.h\<close> (the on-flash
  partition table format): the factory app is subtype 0, OTA slot k is \<open>0x10 + k\<close>, and the
  header defines \<open>ESP_PARTITION_SUBTYPE_APP_OTA_MAX\<close> as \<open>OTA_MIN + 16\<close>.
\<close>

definition ESP_PARTITION_SUBTYPE_APP_FACTORY :: u8 where
  "ESP_PARTITION_SUBTYPE_APP_FACTORY = 0x00"

definition ESP_PARTITION_SUBTYPE_APP_OTA_MIN :: u8 where
  "ESP_PARTITION_SUBTYPE_APP_OTA_MIN = 0x10"

definition ESP_PARTITION_SUBTYPE_APP_OTA_MAX :: u8 where
  "ESP_PARTITION_SUBTYPE_APP_OTA_MAX = ESP_PARTITION_SUBTYPE_APP_OTA_MIN + 16"

definition ESP_PARTITION_SUBTYPE_DATA_OTA :: u8 where
  "ESP_PARTITION_SUBTYPE_DATA_OTA = 0x00"

text \<open>
  The object behind an \<open>esp_partition_iterator_t\<close>: the partition the iterator is at and the
  matching partitions that follow it in the table. The handle itself is a pointer to such an
  object: \<open>None\<close> is \<open>NULL\<close>, \<open>Some a\<close> the address \<open>a\<close>.
\<close>

record esp_partition_iterator_opaque_t =
  it_info :: esp_partition_t
  it_next_items :: "esp_partition_t list"

type_synonym esp_partition_iterator_t = "nat option"

text \<open>
  The two ways in which a program can misuse an iterator object that has been freed. C gives
  no meaning to what follows either; an execution of the model stops there and returns the
  fault.
\<close>

datatype memory_fault = Use_after_free | Double_free

datatype nvs_value = NVS_U8 u8 | NVS_U32 u32 | NVS_STR string

datatype nvs_open_mode_t = NVS_READONLY | NVS_READWRITE

text \<open>
  An open NVS handle: the namespace it was opened on and its view of the entries. Writes and
  erasures through the handle change the view; \<open>nvs_commit\<close> makes the view durable.
\<close>

record nvs_handle_t =
  h_namespace :: string
  h_entries :: "string \<rightharpoonup> nvs_value"

datatype esp_event_base_t = WIFI_EVENT | IP_EVENT | OTHER_EVENT_BASE nat

datatype esp_event_id_t =
    WIFI_EVENT_STA_START
  | WIFI_EVENT_STA_DISCONNECTED
  | IP_EVENT_STA_GOT_IP
  | OTHER_EVENT_ID nat

datatype wifi_auth_mode_t = WIFI_AUTH_OPEN | WIFI_AUTH_WPA2_PSK

text \<open>
  The ready callback is a function pointer in the source. The firmware registers
  \<open>on_wifi_ready\<close>; any other function is an external callback known by a number.
\<close>

datatype ready_cb = On_wifi_ready | External_cb nat

text \<open>
  What the program does to the outside world, in order: the calls into the network stack, the
  accessory server, mDNS and the flash driver, the delays, the reboot, and the log lines that
  the lifecycle protocol is specified by. Other diagnostic log lines are not recorded.
\<close>

datatype event =
    LogStep string
  | LogRestartCount u32
  | LogCrashLoopDetected
  | LogFactoryResetIn int
  | LogPostResetFlag string
  | LogFactoryResetStart
  | LogUpdateStart
  | LogHomekitResetStart
  | TaskDelay nat
  | Esp_restart
  | Esp_partition_erase_range esp_partition_t
  | Esp_ota_set_boot_partition esp_partition_t
  | Esp_netif_init
  | Esp_event_loop_create_default
  | Esp_netif_create_default_wifi_sta
  | Esp_event_handler_register esp_event_base_t
  | Esp_event_handler_unregister esp_event_base_t
  | Esp_wifi_init
  | Esp_wifi_set_storage
  | Esp_wifi_set_mode
  | Esp_wifi_set_config string string wifi_auth_mode_t
  | Esp_wifi_start
  | Esp_wifi_connect
  | Esp_wifi_disconnect
  | Esp_wifi_stop
  | Esp_wifi_deinit
  | Esp_wifi_restore
  | Esp_netif_destroy
  | Mdns_service_remove
  | Mdns_free
  | Homekit_server_reset
  | Homekit_server_init
  | Wifi_config_shutdown
  | External_callback nat

section \<open>Program state\<close>

text \<open>
  \<open>rtc_magic\<close>, \<open>rtc_reason\<close> and \<open>rtc_restart_count\<close> are the fields of the
  \<open>RTC_DATA_ATTR\<close> struct \<open>s_post_reset_state\<close>; the \<open>s_\<close> fields are the file's static
  variables (a handle is modelled by whether it is non-NULL); \<open>homekit_started\<close> is the
  function-local static of \<open>on_wifi_ready\<close>. The remaining fields are the platform:
  the durable store (namespace to entries), whether the NVS driver is initialised, whether
  the one-shot timer is armed, the partition table, the running and the selected boot
  partition, whether the weak symbol \<open>wifi_config_shutdown\<close> is linked, the fault schedule
  with the number of fallible platform calls made so far, the events so far, and the heap of
  partition iterator objects: the live objects by address, and the number of objects allocated
  so far, which is the address of the next one.
\<close>

record lcm_state =
  rtc_magic :: u32
  rtc_reason :: u32
  rtc_restart_count :: u32
  s_wifi_on_ready_cb :: "ready_cb option"
  s_wifi_started :: bool
  s_wifi_netif :: bool
  s_restart_counter_timer :: bool
  s_nvs_initialized :: bool
  homekit_started :: bool
  nvs :: "string \<rightharpoonup> (string \<rightharpoonup> nvs_value)"
  nvs_ready :: bool
  timer_armed :: bool
  partitions :: "esp_partition_t list"
  running_partition :: "esp_partition_t option"
  boot_partition :: "esp_partition_t option"
  wifi_config_shutdown_linked :: bool
  faults :: "nat \<Rightarrow> esp_err_t"
  tick :: nat
  trace :: "event list"
  iterators :: "nat \<rightharpoonup> esp_partition_iterator_opaque_t"
  iterators_allocated :: nat

definition k_post_reset_magic :: u32 where
  "k_post_reset_magic = 0xC0DEC0DE"

definition UINT32_MAX :: u32 where
  "UINT32_MAX = 0xFFFFFFFF"

definition k_restart_counter_timeout_us :: nat where
  "k_restart_counter_timeout_us = 5000 * 1000"

definition k_restart_counter_namespace :: string where
  "k_restart_counter_namespace = ''lcm''"

definition k_restart_counter_key :: string where
  "k_restart_counter_key = ''restart_count''"

definition LIFECYCLE_POST_RESET_NONE :: u32 where
  "LIFECYCLE_POST_RESET_NONE = 0"

definition LIFECYCLE_POST_RESET_REASON_HOMEKIT :: u32 where
  "LIFECYCLE_POST_RESET_REASON_HOMEKIT = 1"

definition LIFECYCLE_POST_RESET_REASON_FACTORY :: u32 where
  "LIFECYCLE_POST_RESET_REASON_FACTORY = 2"

definition LIFECYCLE_POST_RESET_REASON_UPDATE :: u32 where
  "LIFECYCLE_POST_RESET_REASON_UPDATE = 3"

section \<open>Platform calls\<close>

text \<open>
  A fallible platform call takes the next entry of the fault schedule. \<open>ESP_OK\<close> there means
  that nothing is injected and the call behaves as the platform documents it; any other code
  is returned to the caller and the call has no effect.
\<close>

definition platform_call :: "lcm_state \<Rightarrow> esp_err_t \<times> lcm_state" where
  "platform_call s = (faults s (tick s), s\<lparr>tick := Suc (tick s)\<rparr>)"

definition emit :: "event \<Rightarrow> lcm_state \<Rightarrow> lcm_state" where
  "emit e s = s\<lparr>trace := trace s @ [e]\<rparr>"

definition vTaskDelay :: "nat \<Rightarrow> lcm_state \<Rightarrow> lcm_state" where
  "vTaskDelay ms s = emit (TaskDelay ms) s"

definition nvs_flash_init :: "lcm_state \<Rightarrow> esp_err_t \<times> lcm_state" where
  "nvs_flash_init s =
     (case platform_call s of (e, s1) \<Rightarrow>
        if e = ESP_OK then (ESP_OK, s1\<lparr>nvs_ready := True\<rparr>) else (e, s1))"

definition nvs_flash_erase :: "lcm_state \<Rightarrow> esp_err_t \<times> lcm_state" where
  "nvs_flash_erase s =
     (case platform_call s of (e, s1) \<Rightarrow>
        if e = ESP_OK then (ESP_OK, s1\<lparr>nvs := Map.empty, nvs_ready := False\<rparr>) else (e, s1))"

definition nvs_flash_deinit :: "lcm_state \<Rightarrow> esp_err_t \<times> lcm_state" where
  "nvs_flash_deinit s =
     (case platform_call s of (e, s1) \<Rightarrow>
        if e \<noteq> ESP_OK then (e, s1)
        else if \<not> nvs_ready s1 then (ESP_ERR_NVS_NOT_INITIALIZED, s1)
        else (ESP_OK, s1\<lparr>nvs_ready := False\<rparr>))"

definition nvs_open :: "string \<Rightarrow> nvs_open_mode_t \<Rightarrow> lcm_state \<Rightarrow> (esp_err_t + nvs_handle_t) \<times> lcm_state" where
  "nvs_open ns mode s =
     (case platform_call s of (e, s1) \<Rightarrow>
        if e \<noteq> ESP_OK then (Inl e, s1)
        else if \<not> nvs_ready s1 then (Inl ESP_ERR_NVS_NOT_INITIALIZED, s1)
        else (case nvs s1 ns of
                Some entries \<Rightarrow> (Inr \<lparr>h_namespace = ns, h_entries = entries\<rparr>, s1)
              | None \<Rightarrow>
                  if mode = NVS_READONLY then (Inl ESP_ERR_NVS_NOT_FOUND, s1)
                  else (Inr \<lparr>h_namespace = ns, h_entries = Map.empty\<rparr>,
                        s1\<lparr>nvs := (nvs s1)(ns \<mapsto> Map.empty)\<rparr>)))"

definition nvs_close :: "nvs_handle_t \<Rightarrow> lcm_state \<Rightarrow> lcm_state" where
  "nvs_close h s = s"

definition nvs_commit :: "nvs_handle_t \<Rightarrow> lcm_state \<Rightarrow> esp_err_t \<times> lcm_state" where
  "nvs_commit h s =
     (case platform_call s of (e, s1) \<Rightarrow>
        if e \<noteq> ESP_OK then (e, s1)
        else (ESP_OK, s1\<lparr>nvs := (nvs s1)(h_namespace h \<mapsto> h_entries h)\<rparr>))"

definition nvs_get_u32 :: "nvs_handle_t \<Rightarrow> string \<Rightarrow> lcm_state \<Rightarrow> (esp_err_t + u32) \<times> lcm_state" where
  "nvs_get_u32 h key s =
     (case platform_call s of (e, s1) \<Rightarrow>
        if e \<noteq> ESP_OK then (Inl e, s1)
        else (case h_entries h key of
                None \<Rightarrow> (Inl ESP_ERR_NVS_NOT_FOUND, s1)
              | Some (NVS_U32 v) \<Rightarrow> (Inr v, s1)
              | Some _ \<Rightarrow> (Inl ESP_ERR_NVS_TYPE_MISMATCH, s1)))"

definition nvs_set_u32 :: "nvs_handle_t \<Rightarrow> string \<Rightarrow> u32 \<Rightarrow> lcm_state \<Rightarrow> esp_err_t \<times> nvs_handle_t \<times> lcm_state" where
  "nvs_set_u32 h key v s =
     (case platform_call s of (e, s1) \<Rightarrow>
        if e \<noteq> ESP_OK then (e, h, s1)
        else (ESP_OK, h\<lparr>h_entries := (h_entries h)(key \<mapsto> NVS_U32 v)\<rparr>, s1))"

definition nvs_set_u8 :: "nvs_handle_t \<Rightarrow> string \<Rightarrow> u8 \<Rightarrow> lcm_state \<Rightarrow> esp_err_t \<times> nvs_handle_t \<times> lcm_state" where
  "nvs_set_u8 h key v s =
     (case platform_call s of (e, s1) \<Rightarrow>
        if e \<noteq> ESP_OK then (e, h, s1)
        else (ESP_OK, h\<lparr>h_entries := (h_entries h)(key \<mapsto> NVS_U8 v)\<rparr>, s1))"

text \<open>\<open>nvs_get_str\<close> with a NULL buffer: the length of the stored string, counting its NUL.\<close>

definition nvs_get_str_len :: "nvs_handle_t \<Rightarrow> string \<Rightarrow> lcm_state \<Rightarrow> (esp_err_t + nat) \<times> lcm_state" where
  "nvs_get_str_len h key s =
     (case platform_call s of (e, s1) \<Rightarrow>
        if e \<noteq> ESP_OK then (Inl e, s1)
        else (case h_entries h key of
                None \<Rightarrow> (Inl ESP_ERR_NVS_NOT_FOUND, s1)
              | Some (NVS_STR v) \<Rightarrow> (Inr (length v + 1), s1)
              | Some _ \<Rightarrow> (Inl ESP_ERR_NVS_TYPE_MISMATCH, s1)))"

definition nvs_get_str :: "nvs_handle_t \<Rightarrow> string \<Rightarrow> lcm_state \<Rightarrow> (esp_err_t + string) \<times> lcm_state" where
  "nvs_get_str h key s =
     (case platform_call s of (e, s1) \<Rightarrow>
        if e \<noteq> ESP_OK then (Inl e, s1)
        else (case h_entries h key of
                None \<Rightarrow> (Inl ESP_ERR_NVS_NOT_FOUND, s1)
              | Some (NVS_STR v) \<Rightarrow> (Inr v, s1)
              | Some _ \<Rightarrow> (Inl ESP_ERR_NVS_TYPE_MISMATCH, s1)))"

definition nvs_erase_key :: "nvs_handle_t \<Rightarrow> string \<Rightarrow> lcm_state \<Rightarrow> esp_err_t \<times> nvs_handle_t \<times> lcm_state" where
  "nvs_erase_key h key s =
     (case platform_call s of (e, s1) \<Rightarrow>
        if e \<noteq> ESP_OK then (e, h, s1)
        else if h_entries h key = None then (ESP_ERR_NVS_NOT_FOUND, h, s1)
        else (ESP_OK, h\<lparr>h_entries := (h_entries h)(key := None)\<rparr>, s1))"

definition nvs_erase_all :: "nvs_handle_t \<Rightarrow> lcm_state \<Rightarrow> esp_err_t \<times> nvs_handle_t \<times> lcm_state" where
  "nvs_erase_all h s =
     (case platform_call s of (e, s1) \<Rightarrow>
        if e \<noteq> ESP_OK then (e, h, s1)
        else (ESP_OK, h\<lparr>h_entries := Map.empty\<rparr>, s1))"

text \<open>\<open>malloc\<close>: \<open>True\<close> when the allocation succeeds.\<close>

definition malloc :: "lcm_state \<Rightarrow> bool \<times> lcm_state" where
  "malloc s = (case platform_call s of (e, s1) \<Rightarrow> (e = ESP_OK, s1))"

definition esp_partition_find_first ::
  "esp_partition_type_t \<Rightarrow> u8 \<Rightarrow> lcm_state \<Rightarrow> esp_partition_t option" where
  "esp_partition_find_first t st s =
     find (\<lambda>p. part_type p = t \<and> part_subtype p = st) (partitions s)"

text \<open>
  The partition iterator of \<^verbatim>\<open>esp_partition.h\<close>. \<open>esp_partition_find\<close>, here with
  \<open>ESP_PARTITION_SUBTYPE_ANY\<close> and no label, allocates an iterator object placed at the first
  partition of the type, and returns \<open>NULL\<close> when the table has none (the allocation itself is
  taken to succeed). \<open>esp_partition_get\<close> reads the partition the iterator is at; the
  partition record belongs to the table and outlives the iterator. \<open>esp_partition_next\<close>
  moves the same object to the next matching partition and returns the handle it was given;
  at the end of the table it frees the object and returns \<open>NULL\<close>.
  \<open>esp_partition_iterator_release\<close> frees the object and accepts \<open>NULL\<close>. A call on an
  object that has been freed is a memory fault.
\<close>

definition esp_partition_find :: "esp_partition_type_t \<Rightarrow> lcm_state \<Rightarrow> esp_partition_iterator_t \<times> lcm_state" where
  "esp_partition_find t s =
     (case filter (\<lambda>p. part_type p = t) (partitions s) of
        [] \<Rightarrow> (None, s)
      | p # ps \<Rightarrow>
          (Some (iterators_allocated s),
           s\<lparr>iterators := (iterators s)(iterators_allocated s \<mapsto> \<lparr>it_info = p, it_next_items = ps\<rparr>),
             iterators_allocated := Suc (iterators_allocated s)\<rparr>))"

definition esp_partition_get :: "nat \<Rightarrow> lcm_state \<Rightarrow> memory_fault + esp_partition_t" where
  "esp_partition_get a s =
     (case iterators s a of
        None \<Rightarrow> Inl Use_after_free
      | Some obj \<Rightarrow> Inr (it_info obj))"

definition esp_partition_next ::
  "nat \<Rightarrow> lcm_state \<Rightarrow> (memory_fault + esp_partition_iterator_t) \<times> lcm_state" where
  "esp_partition_next a s =
     (case iterators s a of
        None \<Rightarrow> (Inl Use_after_free, s)
      | Some obj \<Rightarrow>
          (case it_next_items obj of
             [] \<Rightarrow> (Inr None, s\<lparr>iterators := (iterators s)(a := None)\<rparr>)
           | p # ps \<Rightarrow>
               (Inr (Some a),
                s\<lparr>iterators := (iterators s)(a \<mapsto> \<lparr>it_info = p, it_next_items = ps\<rparr>)\<rparr>)))"

definition esp_partition_iterator_release ::
  "esp_partition_iterator_t \<Rightarrow> lcm_state \<Rightarrow> memory_fault option \<times> lcm_state" where
  "esp_partition_iterator_release it s =
     (case it of
        None \<Rightarrow> (None, s)
      | Some a \<Rightarrow>
          if iterators s a = None then (Some Double_free, s)
          else (None, s\<lparr>iterators := (iterators s)(a := None)\<rparr>))"

definition esp_partition_erase_range :: "esp_partition_t \<Rightarrow> lcm_state \<Rightarrow> esp_err_t \<times> lcm_state" where
  "esp_partition_erase_range part s = platform_call (emit (Esp_partition_erase_range part) s)"

definition esp_ota_set_boot_partition :: "esp_partition_t \<Rightarrow> lcm_state \<Rightarrow> esp_err_t \<times> lcm_state" where
  "esp_ota_set_boot_partition part s =
     (case platform_call (emit (Esp_ota_set_boot_partition part) s) of (e, s1) \<Rightarrow>
        if e \<noteq> ESP_OK then (e, s1) else (ESP_OK, s1\<lparr>boot_partition := Some part\<rparr>))"

text \<open>A fallible call into the network stack, mDNS or the timer service: the event, then the outcome.\<close>

definition stack_call :: "event \<Rightarrow> lcm_state \<Rightarrow> esp_err_t \<times> lcm_state" where
  "stack_call e s = platform_call (emit e s)"

text \<open>\<open>strncmp(a, b, n) == 0\<close> on NUL-terminated strings without embedded NUL.\<close>

definition strncmp_eq :: "string \<Rightarrow> string \<Rightarrow> nat \<Rightarrow> bool" where
  "strncmp_eq a b n = (take n a = take n b)"

section \<open>The lifecycle controller\<close>

text \<open>
  The functions below follow \<^verbatim>\<open>main/esp32-lcm.c\<close> in the order a caller reaches them. The
  \<open>log_tag\<close> arguments only choose the label of a log line and are left out.
\<close>

subsection \<open>Post-reset state in RTC memory\<close>

definition lifecycle_log_step :: "string \<Rightarrow> lcm_state \<Rightarrow> lcm_state" where
  "lifecycle_log_step step s = emit (LogStep step) s"

definition lifecycle_mark_post_reset :: "u32 \<Rightarrow> lcm_state \<Rightarrow> lcm_state" where
  "lifecycle_mark_post_reset reason s = s\<lparr>rtc_magic := k_post_reset_magic, rtc_reason := reason\<rparr>"

text \<open>
  The enumeration has no negative enumerator, so the compiler gives it an unsigned type and
  both comparisons are unsigned, as they are on \<open>u32\<close>.
\<close>

definition lifecycle_peek_post_reset_reason :: "lcm_state \<Rightarrow> u32" where
  "lifecycle_peek_post_reset_reason s =
     (if rtc_magic s \<noteq> k_post_reset_magic then LIFECYCLE_POST_RESET_NONE
      else let reason = rtc_reason s in
        if reason < LIFECYCLE_POST_RESET_NONE \<or> reason > LIFECYCLE_POST_RESET_REASON_UPDATE
        then LIFECYCLE_POST_RESET_NONE
        else reason)"

definition lifecycle_clear_post_reset_state :: "lcm_state \<Rightarrow> lcm_state" where
  "lifecycle_clear_post_reset_state s = s\<lparr>rtc_magic := 0, rtc_reason := LIFECYCLE_POST_RESET_NONE\<rparr>"

subsection \<open>The durable restart counter\<close>

text \<open>The tail of \<open>lifecycle_ensure_nvs_initialized\<close>, reached with the last result of \<open>nvs_flash_init\<close>.\<close>

definition nvs_init_finish :: "esp_err_t \<Rightarrow> lcm_state \<Rightarrow> esp_err_t \<times> lcm_state" where
  "nvs_init_finish ret s =
     (if ret \<noteq> ESP_OK then (ret, s) else (ESP_OK, s\<lparr>s_nvs_initialized := True\<rparr>))"

definition lifecycle_ensure_nvs_initialized :: "lcm_state \<Rightarrow> esp_err_t \<times> lcm_state" where
  "lifecycle_ensure_nvs_initialized s =
     (if s_nvs_initialized s then (ESP_OK, s)
      else case nvs_flash_init s of (ret, s1) \<Rightarrow>
        if ret = ESP_ERR_NVS_NO_FREE_PAGES \<or> ret = ESP_ERR_NVS_NEW_VERSION_FOUND then
          (case nvs_flash_erase s1 of (erase_err, s2) \<Rightarrow>
             if erase_err \<noteq> ESP_OK then (erase_err, s2)
             else (case nvs_flash_init s2 of (ret2, s3) \<Rightarrow> nvs_init_finish ret2 s3))
        else nvs_init_finish ret s1)"

definition load_restart_counter_from_nvs :: "lcm_state \<Rightarrow> esp_err_t \<times> u32 \<times> lcm_state" where
  "load_restart_counter_from_nvs s =
     (case lifecycle_ensure_nvs_initialized s of (init_err, s1) \<Rightarrow>
        if init_err \<noteq> ESP_OK then (init_err, 0, s1)
        else (case nvs_open k_restart_counter_namespace NVS_READWRITE s1 of
                (Inl err, s2) \<Rightarrow> (err, 0, s2)
              | (Inr handle, s2) \<Rightarrow>
                  (case nvs_get_u32 handle k_restart_counter_key s2 of
                     (Inl err, s3) \<Rightarrow>
                       if err = ESP_ERR_NVS_NOT_FOUND then (ESP_OK, 0, nvs_close handle s3)
                       else (err, 0, nvs_close handle s3)
                   | (Inr v, s3) \<Rightarrow> (ESP_OK, v, nvs_close handle s3))))"

definition save_restart_counter_to_nvs :: "u32 \<Rightarrow> lcm_state \<Rightarrow> esp_err_t \<times> lcm_state" where
  "save_restart_counter_to_nvs v s =
     (case lifecycle_ensure_nvs_initialized s of (init_err, s1) \<Rightarrow>
        if init_err \<noteq> ESP_OK then (init_err, s1)
        else (case nvs_open k_restart_counter_namespace NVS_READWRITE s1 of
                (Inl err, s2) \<Rightarrow> (err, s2)
              | (Inr handle, s2) \<Rightarrow>
                  (case nvs_set_u32 handle k_restart_counter_key v s2 of (err, handle1, s3) \<Rightarrow>
                     if err \<noteq> ESP_OK then (err, nvs_close handle1 s3)
                     else (case nvs_commit handle1 s3 of (commit_err, s4) \<Rightarrow>
                             if commit_err \<noteq> ESP_OK then (commit_err, nvs_close handle1 s4)
                             else (err, nvs_close handle1 s4)))))"

definition lifecycle_increment_restart_counter :: "lcm_state \<Rightarrow> u32 \<times> lcm_state" where
  "lifecycle_increment_restart_counter s =
     (let s1 = (if rtc_restart_count s = UINT32_MAX then s\<lparr>rtc_restart_count := 0\<rparr> else s);
          s2 = s1\<lparr>rtc_restart_count := rtc_restart_count s1 + 1\<rparr>
      in (rtc_restart_count s2, s2))"

definition lifecycle_reset_restart_counter :: "lcm_state \<Rightarrow> lcm_state" where
  "lifecycle_reset_restart_counter s =
     (case save_restart_counter_to_nvs 0 (s\<lparr>rtc_restart_count := 0\<rparr>) of (err, s1) \<Rightarrow> s1)"

text \<open>The callback of the one-shot timer. The timer has fired, so it is no longer armed.\<close>

definition lifecycle_restart_counter_timeout :: "lcm_state \<Rightarrow> lcm_state" where
  "lifecycle_restart_counter_timeout s = lifecycle_reset_restart_counter (s\<lparr>timer_armed := False\<rparr>)"

definition esp_timer_create :: "lcm_state \<Rightarrow> esp_err_t \<times> lcm_state" where
  "esp_timer_create s = platform_call s"

definition esp_timer_stop :: "lcm_state \<Rightarrow> esp_err_t \<times> lcm_state" where
  "esp_timer_stop s =
     (case platform_call s of (e, s1) \<Rightarrow>
        if e \<noteq> ESP_OK then (e, s1)
        else if \<not> timer_armed s1 then (ESP_ERR_INVALID_STATE, s1)
        else (ESP_OK, s1\<lparr>timer_armed := False\<rparr>))"

definition esp_timer_start_once :: "nat \<Rightarrow> lcm_state \<Rightarrow> esp_err_t \<times> lcm_state" where
  "esp_timer_start_once timeout_us s =
     (case platform_call s of (e, s1) \<Rightarrow>
        if e \<noteq> ESP_OK then (e, s1) else (ESP_OK, s1\<lparr>timer_armed := True\<rparr>))"

definition lifecycle_schedule_restart_counter_timeout :: "lcm_state \<Rightarrow> lcm_state" where
  "lifecycle_schedule_restart_counter_timeout s =
     (case (if \<not> s_restart_counter_timer s then
              (case esp_timer_create s of (err, s1) \<Rightarrow>
                 if err \<noteq> ESP_OK then (False, s1)
                 else (True, s1\<lparr>s_restart_counter_timer := True\<rparr>))
            else (True, s)) of
        (False, s1) \<Rightarrow> s1
      | (True, s1) \<Rightarrow>
          (case esp_timer_stop s1 of (stop_err, s2) \<Rightarrow>
             (case esp_timer_start_once k_restart_counter_timeout_us s2 of (err, s3) \<Rightarrow> s3)))"

subsection \<open>Network interface\<close>

text \<open>\<open>nvs_load_wifi\<close>: the error, or the SSID and the password.\<close>

definition nvs_load_wifi :: "lcm_state \<Rightarrow> (esp_err_t + string \<times> string) \<times> lcm_state" where
  "nvs_load_wifi s =
     (case lifecycle_ensure_nvs_initialized s of (init_err, s1) \<Rightarrow>
      if init_err \<noteq> ESP_OK then (Inl init_err, s1)
      else case nvs_open ''wifi_cfg'' NVS_READONLY s1 of
        (Inl err, s2) \<Rightarrow> (Inl err, s2)
      | (Inr handle, s2) \<Rightarrow>
      (case nvs_get_str_len handle ''wifi_ssid'' s2 of
        (Inl err, s3) \<Rightarrow> (Inl err, nvs_close handle s3)
      | (Inr len_ssid, s3) \<Rightarrow>
      (case (case nvs_get_str_len handle ''wifi_password'' s3 of
               (Inl err, s4) \<Rightarrow>
                 if err = ESP_ERR_NVS_NOT_FOUND then (ESP_OK, 1, s4) else (err, 0, s4)
             | (Inr len, s4) \<Rightarrow> (ESP_OK, len, s4)) of (err, len_pass, s4) \<Rightarrow>
       if err \<noteq> ESP_OK then (Inl err, nvs_close handle s4)
       else case malloc s4 of (ssid_ok, s5) \<Rightarrow>
            case malloc s5 of (pass_ok, s6) \<Rightarrow>
       if \<not> ssid_ok \<or> \<not> pass_ok then (Inl ESP_ERR_NO_MEM, nvs_close handle s6)
       else case nvs_get_str handle ''wifi_ssid'' s6 of
         (Inl err, s7) \<Rightarrow> (Inl err, nvs_close handle s7)
       | (Inr ssid, s7) \<Rightarrow>
           if len_pass = 1 then (Inr (ssid, []), nvs_close handle s7)
           else (case nvs_get_str handle ''wifi_password'' s7 of
                   (Inl err, s8) \<Rightarrow> (Inl err, nvs_close handle s8)
                 | (Inr pass, s8) \<Rightarrow> (Inr (ssid, pass), nvs_close handle s8)))))"

definition on_wifi_ready :: "lcm_state \<Rightarrow> lcm_state" where
  "on_wifi_ready s =
     (if homekit_started s then s
      else (emit Homekit_server_init s)\<lparr>homekit_started := True\<rparr>)"

definition call_ready_cb :: "ready_cb \<Rightarrow> lcm_state \<Rightarrow> lcm_state" where
  "call_ready_cb cb s =
     (case cb of On_wifi_ready \<Rightarrow> on_wifi_ready s | External_cb k \<Rightarrow> emit (External_callback k) s)"

definition wifi_event_handler :: "esp_event_base_t \<Rightarrow> esp_event_id_t \<Rightarrow> lcm_state \<Rightarrow> lcm_state" where
  "wifi_event_handler base ev s =
     (if base = WIFI_EVENT then
        (case ev of
           WIFI_EVENT_STA_START \<Rightarrow> snd (stack_call Esp_wifi_connect s)
         | WIFI_EVENT_STA_DISCONNECTED \<Rightarrow> snd (stack_call Esp_wifi_connect s)
         | _ \<Rightarrow> s)
      else if base = IP_EVENT \<and> ev = IP_EVENT_STA_GOT_IP then
        (case s_wifi_on_ready_cb s of None \<Rightarrow> s | Some cb \<Rightarrow> call_ready_cb cb s)
      else s)"

text \<open>
  \<open>WIFI_CHECK(call)\<close> returns from \<open>wifi_start\<close> with the error of a failed call; the
  continuation is what follows the macro.
\<close>

definition WIFI_CHECK ::
  "event \<Rightarrow> (lcm_state \<Rightarrow> esp_err_t \<times> lcm_state) \<Rightarrow> lcm_state \<Rightarrow> esp_err_t \<times> lcm_state" where
  "WIFI_CHECK call rest s =
     (case stack_call call s of (err, s1) \<Rightarrow> if err \<noteq> ESP_OK then (err, s1) else rest s1)"

definition wifi_start :: "ready_cb option \<Rightarrow> lcm_state \<Rightarrow> esp_err_t \<times> lcm_state" where
  "wifi_start on_ready s =
     (if s_wifi_started s then (ESP_OK, s\<lparr>s_wifi_on_ready_cb := on_ready\<rparr>)
      else case nvs_load_wifi s of
        (Inl err, s1) \<Rightarrow> (if err = ESP_ERR_NVS_NOT_FOUND then (err, s1) else (err, s1))
      | (Inr (ssid, pass), s1) \<Rightarrow>
        let pass_empty = (pass = []);
            authmode = (if pass_empty then WIFI_AUTH_OPEN else WIFI_AUTH_WPA2_PSK);
            wc = Esp_wifi_set_config (take 31 ssid) (take 63 pass) authmode
        in case stack_call Esp_netif_init s1 of (err, s2) \<Rightarrow>
        if err \<noteq> ESP_OK \<and> err \<noteq> ESP_ERR_INVALID_STATE then (err, s2)
        else case stack_call Esp_event_loop_create_default s2 of (err, s3) \<Rightarrow>
        if err \<noteq> ESP_OK \<and> err \<noteq> ESP_ERR_INVALID_STATE then (err, s3)
        else case (if \<not> s_wifi_netif s3 then
                     (case stack_call Esp_netif_create_default_wifi_sta s3 of (e, s4) \<Rightarrow>
                        if e \<noteq> ESP_OK then (False, s4) else (True, s4\<lparr>s_wifi_netif := True\<rparr>))
                   else (True, s3)) of
          (False, s4) \<Rightarrow> (ESP_ERR_NO_MEM, s4)
        | (True, s4) \<Rightarrow>
            WIFI_CHECK (Esp_event_handler_register WIFI_EVENT)
           (WIFI_CHECK (Esp_event_handler_register IP_EVENT)
           (WIFI_CHECK Esp_wifi_init
           (WIFI_CHECK Esp_wifi_set_storage
           (WIFI_CHECK Esp_wifi_set_mode
           (WIFI_CHECK wc
           (WIFI_CHECK Esp_wifi_start
           (\<lambda>s5. (ESP_OK, s5\<lparr>s_wifi_on_ready_cb := on_ready, s_wifi_started := True\<rparr>)))))))) s4)"

text \<open>One step of \<open>wifi_stop\<close>: the call, and the first error that is not tolerated is kept.\<close>

definition wifi_stop_step ::
  "event \<Rightarrow> esp_err_t list \<Rightarrow> esp_err_t \<times> lcm_state \<Rightarrow> esp_err_t \<times> lcm_state" where
  "wifi_stop_step call tolerated rs =
     (case rs of (result, s) \<Rightarrow>
        case stack_call call s of (err, s1) \<Rightarrow>
          if err \<noteq> ESP_OK \<and> err \<notin> set tolerated
          then (if result = ESP_OK then (err, s1) else (result, s1))
          else (result, s1))"

definition wifi_stop :: "lcm_state \<Rightarrow> esp_err_t \<times> lcm_state" where
  "wifi_stop s =
     (if \<not> s_wifi_started s then (ESP_OK, s)
      else
        case wifi_stop_step Esp_wifi_deinit [ESP_ERR_WIFI_NOT_INIT]
            (wifi_stop_step (Esp_event_handler_unregister IP_EVENT) [ESP_ERR_INVALID_STATE]
            (wifi_stop_step (Esp_event_handler_unregister WIFI_EVENT) [ESP_ERR_INVALID_STATE]
            (wifi_stop_step Esp_wifi_stop [ESP_ERR_WIFI_NOT_INIT]
            (wifi_stop_step Esp_wifi_disconnect [ESP_ERR_WIFI_NOT_STARTED, ESP_ERR_WIFI_NOT_INIT]
            (ESP_OK, s))))) of (result, s1) \<Rightarrow>
        let s2 = (if s_wifi_netif s1 then (emit Esp_netif_destroy s1)\<lparr>s_wifi_netif := False\<rparr> else s1)
        in (result, s2\<lparr>s_wifi_started := False, s_wifi_on_ready_cb := None\<rparr>))"

subsection \<open>Common shutdown\<close>

definition lifecycle_shutdown_homekit :: "bool \<Rightarrow> lcm_state \<Rightarrow> lcm_state" where
  "lifecycle_shutdown_homekit reset_store s =
     (let s1 = lifecycle_log_step ''stop_homekit'' s;
          s2 = lifecycle_log_step ''wait_hap_clients'' s1;
          s3 = vTaskDelay 100 s2;
          s4 = lifecycle_log_step ''stop_mdns'' s3;
          s5 = snd (stack_call Mdns_service_remove s4);
          s6 = emit Mdns_free s5
      in if reset_store
         then emit Homekit_server_reset (lifecycle_log_step ''reset_homekit_store'' s6)
         else s6)"

definition lifecycle_stop_provisioning_servers :: "lcm_state \<Rightarrow> lcm_state" where
  "lifecycle_stop_provisioning_servers s =
     (if wifi_config_shutdown_linked s
      then emit Wifi_config_shutdown (lifecycle_log_step ''stop_provisioning'' s)
      else s)"

definition lifecycle_perform_common_shutdown :: "bool \<Rightarrow> lcm_state \<Rightarrow> lcm_state" where
  "lifecycle_perform_common_shutdown reset_homekit_store s =
     (let s1 = lifecycle_shutdown_homekit reset_homekit_store s;
          s2 = lifecycle_stop_provisioning_servers s1;
          s3 = lifecycle_log_step ''stop_wifi'' s2
      in snd (wifi_stop s3))"

subsection \<open>Update and identity reset\<close>

text \<open>
  The block that \<open>lifecycle_request_update_and_reboot\<close> and
  \<open>lifecycle_factory_reset_and_reboot\<close> both contain: look the factory partition up, select
  it for the next boot and, only when that succeeds, mark the post-reset reason. The reason
  marked and the step logged are the two places where the blocks differ. The result is the
  local \<open>factory_boot_selected\<close>.
\<close>

definition select_factory_boot :: "u32 \<Rightarrow> string \<Rightarrow> lcm_state \<Rightarrow> bool \<times> lcm_state" where
  "select_factory_boot reason flag_step s =
     (case esp_partition_find_first ESP_PARTITION_TYPE_APP ESP_PARTITION_SUBTYPE_APP_FACTORY s of
        None \<Rightarrow> (False, s)
      | Some factory \<Rightarrow>
          (case esp_ota_set_boot_partition factory (lifecycle_log_step ''set_boot=factory'' s) of
             (err, sa) \<Rightarrow>
               if err \<noteq> ESP_OK then (False, sa)
               else (True, lifecycle_mark_post_reset reason (lifecycle_log_step flag_step sa))))"


definition lifecycle_request_update_and_reboot :: "lcm_state \<Rightarrow> lcm_state" where
  "lifecycle_request_update_and_reboot s =
     (let s0 = emit LogUpdateStart s;
          s1 = (case nvs_open ''lcm'' NVS_READWRITE s0 of
                  (Inl err, sa) \<Rightarrow> sa
                | (Inr handle, sa) \<Rightarrow>
                    (case nvs_set_u8 handle ''do_update'' 1 sa of (err, handle1, sb) \<Rightarrow>
                       if err \<noteq> ESP_OK then nvs_close handle1 sb
                       else nvs_close handle1 (snd (nvs_commit handle1 sb))));
          s2 = snd (select_factory_boot LIFECYCLE_POST_RESET_REASON_UPDATE ''set_post_reset_flag=update'' s1);
          s3 = lifecycle_perform_common_shutdown False s2;
          s4 = vTaskDelay 100 (lifecycle_log_step ''delay_before_reset'' s3);
          s5 = lifecycle_log_step ''reboot'' s4
      in emit Esp_restart s5)"


subsection \<open>Factory reset\<close>

definition erase_wifi_credentials :: "lcm_state \<Rightarrow> lcm_state" where
  "erase_wifi_credentials s =
     (case lifecycle_ensure_nvs_initialized s of (init_err, s1) \<Rightarrow>
        if init_err \<noteq> ESP_OK then s1
        else (case nvs_open ''wifi_cfg'' NVS_READWRITE s1 of
                (Inl err, s2) \<Rightarrow> s2
              | (Inr handle, s2) \<Rightarrow>
                  (case nvs_erase_key handle ''wifi_ssid'' s2 of (erase_err, handle1, s3) \<Rightarrow>
                   case nvs_erase_key handle1 ''wifi_password'' s3 of (erase_err2, handle2, s4) \<Rightarrow>
                   case nvs_commit handle2 s4 of (err, s5) \<Rightarrow> nvs_close handle2 s5)))"

definition erase_nvs_partition :: "lcm_state \<Rightarrow> lcm_state" where
  "erase_nvs_partition s =
     (let s1 = lifecycle_log_step ''erase_nvs_partition'' s;
          s2 = snd (nvs_flash_deinit s1);
          s3 = s2\<lparr>s_nvs_initialized := False\<rparr>
      in snd (nvs_flash_erase s3))"

definition clear_nvs_namespace :: "string \<Rightarrow> lcm_state \<Rightarrow> lcm_state" where
  "clear_nvs_namespace namespace s =
     (case lifecycle_ensure_nvs_initialized s of (init_err, s1) \<Rightarrow>
        if init_err \<noteq> ESP_OK then s1
        else (case nvs_open namespace NVS_READWRITE s1 of
                (Inl err, s2) \<Rightarrow> s2
              | (Inr handle, s2) \<Rightarrow>
                  (case nvs_erase_all handle s2 of (err, handle1, s3) \<Rightarrow>
                     if err \<noteq> ESP_OK then nvs_close handle1 s3
                     else nvs_close handle1 (snd (nvs_commit handle1 s3)))))"

definition clear_lcm_namespace :: "lcm_state \<Rightarrow> lcm_state" where
  "clear_lcm_namespace s = clear_nvs_namespace ''lcm'' s"

definition clear_fwcfg_namespace :: "lcm_state \<Rightarrow> lcm_state" where
  "clear_fwcfg_namespace s = clear_nvs_namespace ''fwcfg'' s"

definition erase_otadata_partition :: "lcm_state \<Rightarrow> lcm_state" where
  "erase_otadata_partition s =
     (case esp_partition_find_first ESP_PARTITION_TYPE_DATA ESP_PARTITION_SUBTYPE_DATA_OTA s of
        None \<Rightarrow> s
      | Some otadata \<Rightarrow> snd (esp_partition_erase_range otadata s))"

text \<open>
  The \<open>while\<close> loop of \<open>erase_ota_partition_by_label\<close>, one round per call:
  \<open>part = esp_partition_get(it)\<close>, \<open>next = esp_partition_next(it)\<close>, the erase of \<open>part\<close> when
  its label and subtype match, \<open>esp_partition_iterator_release(it)\<close>, then \<open>it = next\<close>;
  \<open>sizeof(part->label)\<close> is 17. The result is the local \<open>erased\<close>, or the memory fault at
  which the loop stops.
\<close>

function erase_ota_partition_loop ::
  "string \<Rightarrow> esp_partition_iterator_t \<Rightarrow> bool \<Rightarrow> lcm_state \<Rightarrow> (memory_fault + bool) \<times> lcm_state" where
  "erase_ota_partition_loop label it erased s =
     (case it of
        None \<Rightarrow> (Inr erased, s)
      | Some a \<Rightarrow>
          (case esp_partition_get a s of
             Inl fault \<Rightarrow> (Inl fault, s)
           | Inr part \<Rightarrow>
               (case esp_partition_next a s of
                  (Inl fault, s1) \<Rightarrow> (Inl fault, s1)
                | (Inr next, s1) \<Rightarrow>
                    (case (if strncmp_eq (part_label part) label 17 then
                             (if part_subtype part \<ge> ESP_PARTITION_SUBTYPE_APP_OTA_MIN \<and>
                                 part_subtype part \<le> ESP_PARTITION_SUBTYPE_APP_OTA_MAX then
                                (case esp_partition_erase_range part s1 of (err, s2) \<Rightarrow>
                                   (if err \<noteq> ESP_OK then erased else True, s2))
                              else (erased, s1))
                           else (erased, s1)) of
                       (erased1, s2) \<Rightarrow>
                         (case esp_partition_iterator_release (Some a) s2 of
                            (Some fault, s3) \<Rightarrow> (Inl fault, s3)
                          | (None, s3) \<Rightarrow> erase_ota_partition_loop label next erased1 s3)))))"
  by pat_completeness auto

text \<open>
  The loop ends: a round that reaches its recursive call has read a live object at \<open>a\<close> and
  has freed it, and \<open>next\<close> is \<open>NULL\<close> or \<open>a\<close> again.
\<close>

termination
  apply (relation "measure (\<lambda>(label, it, erased, s).
          case it of None \<Rightarrow> 0 | Some a \<Rightarrow> if iterators s a = None then 1 else 2)")
   apply simp
  apply (auto simp add: esp_partition_get_def esp_partition_next_def
      esp_partition_iterator_release_def split: option.splits list.splits if_splits)
  done

declare erase_ota_partition_loop.simps [simp del]

definition erase_ota_partition_by_label :: "string \<Rightarrow> lcm_state \<Rightarrow> (memory_fault + bool) \<times> lcm_state" where
  "erase_ota_partition_by_label label s =
     (case esp_partition_find ESP_PARTITION_TYPE_APP s of
        (it, s1) \<Rightarrow> erase_ota_partition_loop label it False s1)"

text \<open>The \<open>for\<close> loop of \<open>erase_ota_app_partitions\<close> over its array of labels.\<close>

fun erase_ota_labels_loop ::
  "string list \<Rightarrow> bool \<Rightarrow> lcm_state \<Rightarrow> (memory_fault + bool) \<times> lcm_state" where
  "erase_ota_labels_loop [] any_erased s = (Inr any_erased, s)"
| "erase_ota_labels_loop (l # ls) any_erased s =
     (case erase_ota_partition_by_label l s of
        (Inl fault, s1) \<Rightarrow> (Inl fault, s1)
      | (Inr erased, s1) \<Rightarrow> erase_ota_labels_loop ls (any_erased \<or> erased) s1)"

definition erase_ota_app_partitions :: "lcm_state \<Rightarrow> memory_fault option \<times> lcm_state" where
  "erase_ota_app_partitions s =
     (case erase_ota_labels_loop [''ota_1'', ''ota_2'', ''ota_0''] False s of
        (Inl fault, s1) \<Rightarrow> (Some fault, s1)
      | (Inr any_erased, s1) \<Rightarrow> (None, s1))"

text \<open>
  The factory reset. It returns \<open>None\<close> when it has run to its \<open>esp_restart\<close>, and the memory
  fault when the erase of the OTA slots has stopped at one.
\<close>

definition lifecycle_factory_reset_and_reboot :: "lcm_state \<Rightarrow> memory_fault option \<times> lcm_state" where
  "lifecycle_factory_reset_and_reboot s =
     (let s0 = emit LogFactoryResetStart s;
          s1 = lifecycle_reset_restart_counter s0;
          s2 = snd (select_factory_boot LIFECYCLE_POST_RESET_REASON_FACTORY ''set_post_reset_flag=factory'' s1);
          s3 = emit Homekit_server_reset (lifecycle_log_step ''reset_homekit_store'' s2);
          s4 = lifecycle_perform_common_shutdown False s3;
          s5 = erase_wifi_credentials (lifecycle_log_step ''erase_wifi_credentials'' s4);
          s6 = clear_fwcfg_namespace (lifecycle_log_step ''clear_fw_config'' s5);
          s7 = clear_lcm_namespace (lifecycle_log_step ''clear_lcm_state'' s6);
          s8 = erase_otadata_partition (lifecycle_log_step ''erase_otadata'' s7)
      in case erase_ota_app_partitions (lifecycle_log_step ''erase_ota_apps'' s8) of
           (Some fault, s9) \<Rightarrow> (Some fault, s9)
         | (None, s9) \<Rightarrow>
             (let s10 = snd (stack_call Esp_wifi_restore (lifecycle_log_step ''restore_wifi_defaults'' s9));
                  s11 = erase_nvs_partition s10;
                  s12 = vTaskDelay 100 (lifecycle_log_step ''delay_before_reset'' s11);
                  s13 = lifecycle_log_step ''reboot'' s12
              in (None, emit Esp_restart s13)))"

subsection \<open>The boot protocol\<close>

text \<open>The countdown loop \<open>for (int i = 10; i >= 0; --i)\<close> of \<open>lifecycle_log_post_reset_state\<close>.\<close>

function countdown_loop :: "int \<Rightarrow> lcm_state \<Rightarrow> lcm_state" where
  "countdown_loop i s =
     (if i \<ge> 0 then countdown_loop (i - 1) (vTaskDelay 1000 (emit (LogFactoryResetIn i) s)) else s)"
  by pat_completeness auto
termination
  by (relation "measure (\<lambda>(i, s). nat (i + 1))") auto

declare countdown_loop.simps [simp del]

definition reason_str :: "u32 \<Rightarrow> string" where
  "reason_str reason =
     (if reason = LIFECYCLE_POST_RESET_NONE then ''none''
      else if reason = LIFECYCLE_POST_RESET_REASON_HOMEKIT then ''homekit''
      else if reason = LIFECYCLE_POST_RESET_REASON_FACTORY then ''factory''
      else if reason = LIFECYCLE_POST_RESET_REASON_UPDATE then ''update''
      else ''unknown'')"

text \<open>
  \<open>lifecycle_log_post_reset_state\<close> up to the threshold check: the durable counter is read
  and reconciled with the RTC counter, the counter is incremented, persisted and logged, and
  the timeout is armed. The result is the local \<open>restart_count\<close>.
\<close>

definition lifecycle_log_post_reset_state_count :: "lcm_state \<Rightarrow> u32 \<times> lcm_state" where
  "lifecycle_log_post_reset_state_count s =
     (case load_restart_counter_from_nvs s of (load_err, persisted_count, s1) \<Rightarrow>
      let s2 = (if load_err = ESP_OK
                then (if persisted_count > rtc_restart_count s1
                      then s1\<lparr>rtc_restart_count := persisted_count\<rparr> else s1)
                else s1)
      in case lifecycle_increment_restart_counter s2 of (restart_count, s3) \<Rightarrow>
         case save_restart_counter_to_nvs restart_count s3 of (save_err, s4) \<Rightarrow>
      let s5 = emit (LogRestartCount restart_count) s4;
          s6 = lifecycle_schedule_restart_counter_timeout s5
      in (restart_count, s6))"

text \<open>The whole function: the part above, then the threshold check and what follows it.\<close>

definition lifecycle_log_post_reset_state :: "lcm_state \<Rightarrow> memory_fault option \<times> lcm_state" where
  "lifecycle_log_post_reset_state s =
     (case lifecycle_log_post_reset_state_count s of (restart_count, s6) \<Rightarrow>
        if restart_count \<ge> 10 then
          lifecycle_factory_reset_and_reboot
            (lifecycle_reset_restart_counter
              (countdown_loop 10 (emit LogCrashLoopDetected s6)))
        else
          let reason = lifecycle_peek_post_reset_reason s6
          in (None, lifecycle_clear_post_reset_state (emit (LogPostResetFlag (reason_str reason)) s6)))"

definition lifecycle_nvs_init :: "lcm_state \<Rightarrow> esp_err_t \<times> lcm_state" where
  "lifecycle_nvs_init s = lifecycle_ensure_nvs_initialized s"

subsection \<open>Reboots\<close>

text \<open>
  A CPU reset that keeps RTC memory (a warm reboot, such as the one \<open>esp_restart\<close> causes):
  the statics are initialised again, the NVS driver, the timer service and the heap start
  afresh, and the RTC block, the durable store, the partition table and the boot selection are
  kept.
\<close>

definition cpu_reset :: "lcm_state \<Rightarrow> lcm_state" where
  "cpu_reset s = s\<lparr>s_wifi_on_ready_cb := None, s_wifi_started := False, s_wifi_netif := False,
                   s_restart_counter_timer := False, s_nvs_initialized := False,
                   homekit_started := False, nvs_ready := False, timer_armed := False,
                   iterators := Map.empty, iterators_allocated := 0\<rparr>"

text \<open>
  A power cycle loses RTC memory as well: the block \<open>s_post_reset_state\<close> has no initialiser
  and starts at zero.
\<close>

definition power_cycle :: "lcm_state \<Rightarrow> lcm_state" where
  "power_cycle s = (cpu_reset s)\<lparr>rtc_magic := 0, rtc_reason := 0, rtc_restart_count := 0\<rparr>"

datatype reset_kind = Warm_reset | Power_cycle

definition reset :: "reset_kind \<Rightarrow> lcm_state \<Rightarrow> lcm_state" where
  "reset kind s = (case kind of Warm_reset \<Rightarrow> cpu_reset s | Power_cycle \<Rightarrow> power_cycle s)"

text \<open>
  The reset followed by the boot protocol alone, on whatever state the reset leaves.
\<close>

definition warm_boot :: "lcm_state \<Rightarrow> lcm_state" where
  "warm_boot s = snd (lifecycle_log_post_reset_state (cpu_reset s))"

text \<open>
  \<open>app_main\<close>, up to the return of the boot protocol. \<open>ESP_ERROR_CHECK\<close> aborts the boot
  when \<open>lifecycle_nvs_init\<close> fails, and then the protocol does not run. The outcome of the
  boot is that abort, the memory fault at which a factory reset stopped, or the return of
  \<open>lifecycle_log_post_reset_state\<close> (after a factory reset that ran to its \<open>esp_restart\<close>, or
  on the way to the rest of \<open>app_main\<close>, which does not touch the restart counter).
\<close>

datatype boot_outcome = Aborted esp_err_t | Halted memory_fault | Protocol_done

definition app_main :: "lcm_state \<Rightarrow> boot_outcome \<times> lcm_state" where
  "app_main s =
     (case lifecycle_nvs_init s of (err, s1) \<Rightarrow>
        if err \<noteq> ESP_OK then (Aborted err, s1)
        else (case lifecycle_log_post_reset_state s1 of
                (Some fault, s2) \<Rightarrow> (Halted fault, s2)
              | (None, s2) \<Rightarrow> (Protocol_done, s2)))"

text \<open>
  Boots in a row, one for each reset of the list, with nothing between the end of one boot
  and the reset that starts the next (so the timer armed by a boot never fires). The result is
  the outcome of each boot, in order, and the state after the last.
\<close>

definition boot :: "reset_kind \<Rightarrow> boot_outcome list \<times> lcm_state \<Rightarrow> boot_outcome list \<times> lcm_state" where
  "boot kind = (\<lambda>(outcomes, s).
     case app_main (reset kind s) of (outcome, s1) \<Rightarrow> (outcomes @ [outcome], s1))"

definition consecutive_boots :: "reset_kind list \<Rightarrow> lcm_state \<Rightarrow> boot_outcome list \<times> lcm_state" where
  "consecutive_boots kinds s = fold boot kinds ([], s)"

fun is_aborted :: "boot_outcome \<Rightarrow> bool" where
  "is_aborted (Aborted err) = True"
| "is_aborted _ = False"

text \<open>The ready callback invoked \<open>n\<close> times, and a sequence of events delivered to the handler.\<close>

fun on_wifi_ready_times :: "nat \<Rightarrow> lcm_state \<Rightarrow> lcm_state" where
  "on_wifi_ready_times 0 s = s"
| "on_wifi_ready_times (Suc n) s = on_wifi_ready_times n (on_wifi_ready s)"

fun deliver_events :: "(esp_event_base_t \<times> esp_event_id_t) list \<Rightarrow> lcm_state \<Rightarrow> lcm_state" where
  "deliver_events [] s = s"
| "deliver_events ((base, ev) # evs) s = deliver_events evs (wifi_event_handler base ev s)"

section \<open>Reading the trace\<close>

text \<open>The steps a sequence has logged and the reboots it has made, in order.\<close>

fun is_milestone :: "event \<Rightarrow> bool" where
  "is_milestone (LogStep step) = True"
| "is_milestone Esp_restart = True"
| "is_milestone _ = False"

definition milestones :: "event list \<Rightarrow> event list" where
  "milestones tr = filter is_milestone tr"

text \<open>The partitions on which an erase has been started, in order.\<close>

fun erased_partition :: "event \<Rightarrow> esp_partition_t list" where
  "erased_partition (Esp_partition_erase_range p) = [p]"
| "erased_partition _ = []"

definition erased_partitions :: "event list \<Rightarrow> esp_partition_t list" where
  "erased_partitions tr = concat (map erased_partition tr)"

text \<open>The numbers of the countdown lines \<open>Factory reset in i\<close>, in order.\<close>

fun countdown_line :: "event \<Rightarrow> int list" where
  "countdown_line (LogFactoryResetIn i) = [i]"
| "countdown_line _ = []"

definition countdown_lines :: "event list \<Rightarrow> int list" where
  "countdown_lines tr = concat (map countdown_line tr)"

text \<open>
  What a boot shows of the crash-loop protocol: the countdown lines, the one-second delays,
  the start of a factory reset, the report of the post-reset reason, and the reboot.
\<close>

fun is_crash_loop_event :: "event \<Rightarrow> bool" where
  "is_crash_loop_event (LogFactoryResetIn i) = True"
| "is_crash_loop_event (TaskDelay ms) = (ms = 1000)"
| "is_crash_loop_event LogFactoryResetStart = True"
| "is_crash_loop_event (LogPostResetFlag r) = True"
| "is_crash_loop_event Esp_restart = True"
| "is_crash_loop_event _ = False"

definition crash_loop_view :: "event list \<Rightarrow> event list" where
  "crash_loop_view tr = filter is_crash_loop_event tr"


text \<open>
  The partition the erase of the OTA data selects, and the subtype range of the OTA slots.
\<close>

definition otadata_partition :: "lcm_state \<Rightarrow> esp_partition_t list" where
  "otadata_partition s =
     (case esp_partition_find_first ESP_PARTITION_TYPE_DATA ESP_PARTITION_SUBTYPE_DATA_OTA s of
        None \<Rightarrow> [] | Some p \<Rightarrow> [p])"

definition in_ota_range :: "esp_partition_t \<Rightarrow> bool" where
  "in_ota_range p =
     (ESP_PARTITION_SUBTYPE_APP_OTA_MIN \<le> part_subtype p \<and>
      part_subtype p \<le> ESP_PARTITION_SUBTYPE_APP_OTA_MAX)"

text \<open>The app partitions of the table, in the order in which an iterator visits them.\<close>

definition app_partitions :: "lcm_state \<Rightarrow> esp_partition_t list" where
  "app_partitions s = filter (\<lambda>p. part_type p = ESP_PARTITION_TYPE_APP) (partitions s)"

text \<open>
  What one round of the erase loop erases when it is at the partition \<open>p\<close> and looks for the
  label \<open>label\<close>.
\<close>

definition erased_in_round :: "string \<Rightarrow> esp_partition_t \<Rightarrow> esp_partition_t list" where
  "erased_in_round label p = (if strncmp_eq (part_label p) label 17 \<and> in_ota_range p then [p] else [])"

text \<open>The durable restart counter: the stored entry, and its value, 0 when there is none.\<close>

definition durable_restart_entry :: "lcm_state \<Rightarrow> nvs_value option" where
  "durable_restart_entry s =
     (case nvs s k_restart_counter_namespace of
        None \<Rightarrow> None
      | Some entries \<Rightarrow> entries k_restart_counter_key)"

definition durable_restart_count :: "lcm_state \<Rightarrow> u32" where
  "durable_restart_count s =
     (case durable_restart_entry s of Some (NVS_U32 v) \<Rightarrow> v | _ \<Rightarrow> 0)"

text \<open>
  The program's flag \<open>s_nvs_initialized\<close> agrees with the driver: the flag is only set after
  \<open>nvs_flash_init\<close> has succeeded.
\<close>

definition nvs_flag_sound :: "lcm_state \<Rightarrow> bool" where
  "nvs_flag_sound s = (if s_nvs_initialized s then nvs_ready s else True)"

text \<open>An entry of the namespace \<open>wifi_cfg\<close> in the durable store.\<close>

definition wifi_cfg_entry :: "string \<Rightarrow> lcm_state \<Rightarrow> nvs_value option" where
  "wifi_cfg_entry key s =
     (case nvs s ''wifi_cfg'' of None \<Rightarrow> None | Some entries \<Rightarrow> entries key)"

text \<open>No failure is injected into any platform call.\<close>

definition healthy :: "lcm_state \<Rightarrow> bool" where
  "healthy s = (faults s = (\<lambda>k. ESP_OK))"

section \<open>A device to run the model on\<close>

text \<open>
  A device at its first power-on: RTC memory and the durable store are empty, the partition
  table is the usual one with a factory image and two OTA slots, and the platform is healthy.
\<close>

definition example_partitions :: "esp_partition_t list" where
  "example_partitions =
     [\<lparr>part_type = ESP_PARTITION_TYPE_DATA, part_subtype = 0x02, part_address = 0x9000,
        part_size = 0x4000, part_label = ''nvs''\<rparr>,
      \<lparr>part_type = ESP_PARTITION_TYPE_DATA, part_subtype = 0x00, part_address = 0xD000,
        part_size = 0x2000, part_label = ''otadata''\<rparr>,
      \<lparr>part_type = ESP_PARTITION_TYPE_APP, part_subtype = 0x00, part_address = 0x20000,
        part_size = 0x100000, part_label = ''factory''\<rparr>,
      \<lparr>part_type = ESP_PARTITION_TYPE_APP, part_subtype = 0x10, part_address = 0x120000,
        part_size = 0x100000, part_label = ''ota_0''\<rparr>,
      \<lparr>part_type = ESP_PARTITION_TYPE_APP, part_subtype = 0x11, part_address = 0x220000,
        part_size = 0x100000, part_label = ''ota_1''\<rparr>]"

definition fresh_device :: lcm_state where
  "fresh_device =
     \<lparr>rtc_magic = 0, rtc_reason = 0, rtc_restart_count = 0,
      s_wifi_on_ready_cb = None, s_wifi_started = False, s_wifi_netif = False,
      s_restart_counter_timer = False, s_nvs_initialized = False, homekit_started = False,
      nvs = Map.empty, nvs_ready = False, timer_armed = False,
      partitions = example_partitions,
      running_partition = Some (example_partitions ! 3), boot_partition = None,
      wifi_config_shutdown_linked = True,
      faults = (\<lambda>k. ESP_OK), tick = 0, trace = [],
      iterators = Map.empty, iterators_allocated = 0\<rparr>"

text \<open>The same device on a platform where every fallible call fails.\<close>

definition failing_device :: lcm_state where
  "failing_device = fresh_device\<lparr>faults := (\<lambda>k. ESP_FAIL)\<rparr>"

text \<open>
  The same device after it has been provisioned and has restarted three times: the store holds
  the Wi-Fi credentials, the installed firmware version and the restart counter.
\<close>

definition provisioned_device :: lcm_state where
  "provisioned_device =
     fresh_device\<lparr>nvs :=
       [''wifi_cfg'' \<mapsto> [''wifi_ssid'' \<mapsto> NVS_STR ''home'', ''wifi_password'' \<mapsto> NVS_STR ''secret''],
        ''fwcfg'' \<mapsto> [''installed_ver'' \<mapsto> NVS_STR ''1.0.0''],
        ''lcm'' \<mapsto> [''restart_count'' \<mapsto> NVS_U32 3]]\<rparr>"

text \<open>Ten resets of both kinds.\<close>

definition example_resets :: "reset_kind list" where
  "example_resets = [Warm_reset, Warm_reset, Power_cycle, Warm_reset, Power_cycle, Power_cycle,
                     Warm_reset, Warm_reset, Power_cycle, Warm_reset]"


section \<open>What each operation leaves unchanged\<close>

text \<open>
  For each platform call and each helper: the fields it does not write, and what it appends
  to the trace.
\<close>

lemma platform_call_frame [simp]:
  "partitions (snd (platform_call s)) = partitions s"
  "wifi_config_shutdown_linked (snd (platform_call s)) = wifi_config_shutdown_linked s"
  "faults (snd (platform_call s)) = faults s"
  "running_partition (snd (platform_call s)) = running_partition s"
  "rtc_magic (snd (platform_call s)) = rtc_magic s"
  "rtc_reason (snd (platform_call s)) = rtc_reason s"
  "rtc_restart_count (snd (platform_call s)) = rtc_restart_count s"
  "s_wifi_on_ready_cb (snd (platform_call s)) = s_wifi_on_ready_cb s"
  "s_wifi_started (snd (platform_call s)) = s_wifi_started s"
  "s_wifi_netif (snd (platform_call s)) = s_wifi_netif s"
  "homekit_started (snd (platform_call s)) = homekit_started s"
  "nvs (snd (platform_call s)) = nvs s"
  "nvs_ready (snd (platform_call s)) = nvs_ready s"
  "s_nvs_initialized (snd (platform_call s)) = s_nvs_initialized s"
  "trace (snd (platform_call s)) = trace s"
  by (simp_all add: platform_call_def)

lemma emit_frame [simp]:
  "partitions (emit e s) = partitions s"
  "wifi_config_shutdown_linked (emit e s) = wifi_config_shutdown_linked s"
  "faults (emit e s) = faults s"
  "running_partition (emit e s) = running_partition s"
  "rtc_magic (emit e s) = rtc_magic s"
  "rtc_reason (emit e s) = rtc_reason s"
  "rtc_restart_count (emit e s) = rtc_restart_count s"
  "s_wifi_on_ready_cb (emit e s) = s_wifi_on_ready_cb s"
  "s_wifi_started (emit e s) = s_wifi_started s"
  "s_wifi_netif (emit e s) = s_wifi_netif s"
  "homekit_started (emit e s) = homekit_started s"
  "nvs (emit e s) = nvs s"
  "nvs_ready (emit e s) = nvs_ready s"
  "s_nvs_initialized (emit e s) = s_nvs_initialized s"
  "tick (emit e s) = tick s"
  "trace (emit e s) = trace s @ [e]"
  by (simp_all add: emit_def)

lemma vTaskDelay_frame [simp]:
  "partitions (vTaskDelay ms s) = partitions s"
  "wifi_config_shutdown_linked (vTaskDelay ms s) = wifi_config_shutdown_linked s"
  "faults (vTaskDelay ms s) = faults s"
  "running_partition (vTaskDelay ms s) = running_partition s"
  "rtc_magic (vTaskDelay ms s) = rtc_magic s"
  "rtc_reason (vTaskDelay ms s) = rtc_reason s"
  "rtc_restart_count (vTaskDelay ms s) = rtc_restart_count s"
  "s_wifi_on_ready_cb (vTaskDelay ms s) = s_wifi_on_ready_cb s"
  "s_wifi_started (vTaskDelay ms s) = s_wifi_started s"
  "s_wifi_netif (vTaskDelay ms s) = s_wifi_netif s"
  "homekit_started (vTaskDelay ms s) = homekit_started s"
  "nvs (vTaskDelay ms s) = nvs s"
  "nvs_ready (vTaskDelay ms s) = nvs_ready s"
  "s_nvs_initialized (vTaskDelay ms s) = s_nvs_initialized s"
  "tick (vTaskDelay ms s) = tick s"
  "trace (vTaskDelay ms s) = trace s @ [TaskDelay ms]"
  by (simp_all add: vTaskDelay_def)

lemma lifecycle_log_step_frame [simp]:
  "partitions (lifecycle_log_step step s) = partitions s"
  "wifi_config_shutdown_linked (lifecycle_log_step step s) = wifi_config_shutdown_linked s"
  "faults (lifecycle_log_step step s) = faults s"
  "running_partition (lifecycle_log_step step s) = running_partition s"
  "rtc_magic (lifecycle_log_step step s) = rtc_magic s"
  "rtc_reason (lifecycle_log_step step s) = rtc_reason s"
  "rtc_restart_count (lifecycle_log_step step s) = rtc_restart_count s"
  "s_wifi_on_ready_cb (lifecycle_log_step step s) = s_wifi_on_ready_cb s"
  "s_wifi_started (lifecycle_log_step step s) = s_wifi_started s"
  "s_wifi_netif (lifecycle_log_step step s) = s_wifi_netif s"
  "homekit_started (lifecycle_log_step step s) = homekit_started s"
  "nvs (lifecycle_log_step step s) = nvs s"
  "nvs_ready (lifecycle_log_step step s) = nvs_ready s"
  "s_nvs_initialized (lifecycle_log_step step s) = s_nvs_initialized s"
  "tick (lifecycle_log_step step s) = tick s"
  "trace (lifecycle_log_step step s) = trace s @ [LogStep step]"
  by (simp_all add: lifecycle_log_step_def)

lemma stack_call_frame [simp]:
  "partitions (snd (stack_call e s)) = partitions s"
  "wifi_config_shutdown_linked (snd (stack_call e s)) = wifi_config_shutdown_linked s"
  "faults (snd (stack_call e s)) = faults s"
  "running_partition (snd (stack_call e s)) = running_partition s"
  "rtc_magic (snd (stack_call e s)) = rtc_magic s"
  "rtc_reason (snd (stack_call e s)) = rtc_reason s"
  "rtc_restart_count (snd (stack_call e s)) = rtc_restart_count s"
  "s_wifi_on_ready_cb (snd (stack_call e s)) = s_wifi_on_ready_cb s"
  "s_wifi_started (snd (stack_call e s)) = s_wifi_started s"
  "s_wifi_netif (snd (stack_call e s)) = s_wifi_netif s"
  "homekit_started (snd (stack_call e s)) = homekit_started s"
  "nvs (snd (stack_call e s)) = nvs s"
  "nvs_ready (snd (stack_call e s)) = nvs_ready s"
  "s_nvs_initialized (snd (stack_call e s)) = s_nvs_initialized s"
  "trace (snd (stack_call e s)) = trace s @ [e]"
  by (simp_all add: stack_call_def)

lemma esp_partition_erase_range_frame [simp]:
  "partitions (snd (esp_partition_erase_range p s)) = partitions s"
  "wifi_config_shutdown_linked (snd (esp_partition_erase_range p s)) = wifi_config_shutdown_linked s"
  "faults (snd (esp_partition_erase_range p s)) = faults s"
  "running_partition (snd (esp_partition_erase_range p s)) = running_partition s"
  "rtc_magic (snd (esp_partition_erase_range p s)) = rtc_magic s"
  "rtc_reason (snd (esp_partition_erase_range p s)) = rtc_reason s"
  "rtc_restart_count (snd (esp_partition_erase_range p s)) = rtc_restart_count s"
  "s_wifi_on_ready_cb (snd (esp_partition_erase_range p s)) = s_wifi_on_ready_cb s"
  "s_wifi_started (snd (esp_partition_erase_range p s)) = s_wifi_started s"
  "s_wifi_netif (snd (esp_partition_erase_range p s)) = s_wifi_netif s"
  "homekit_started (snd (esp_partition_erase_range p s)) = homekit_started s"
  "nvs (snd (esp_partition_erase_range p s)) = nvs s"
  "nvs_ready (snd (esp_partition_erase_range p s)) = nvs_ready s"
  "s_nvs_initialized (snd (esp_partition_erase_range p s)) = s_nvs_initialized s"
  "trace (snd (esp_partition_erase_range p s)) = trace s @ [Esp_partition_erase_range p]"
  by (simp_all add: esp_partition_erase_range_def)

lemma esp_ota_set_boot_partition_frame [simp]:
  "partitions (snd (esp_ota_set_boot_partition p s)) = partitions s"
  "wifi_config_shutdown_linked (snd (esp_ota_set_boot_partition p s)) = wifi_config_shutdown_linked s"
  "faults (snd (esp_ota_set_boot_partition p s)) = faults s"
  "running_partition (snd (esp_ota_set_boot_partition p s)) = running_partition s"
  "rtc_magic (snd (esp_ota_set_boot_partition p s)) = rtc_magic s"
  "rtc_reason (snd (esp_ota_set_boot_partition p s)) = rtc_reason s"
  "rtc_restart_count (snd (esp_ota_set_boot_partition p s)) = rtc_restart_count s"
  "s_wifi_on_ready_cb (snd (esp_ota_set_boot_partition p s)) = s_wifi_on_ready_cb s"
  "s_wifi_started (snd (esp_ota_set_boot_partition p s)) = s_wifi_started s"
  "s_wifi_netif (snd (esp_ota_set_boot_partition p s)) = s_wifi_netif s"
  "homekit_started (snd (esp_ota_set_boot_partition p s)) = homekit_started s"
  "nvs (snd (esp_ota_set_boot_partition p s)) = nvs s"
  "nvs_ready (snd (esp_ota_set_boot_partition p s)) = nvs_ready s"
  "s_nvs_initialized (snd (esp_ota_set_boot_partition p s)) = s_nvs_initialized s"
  "trace (snd (esp_ota_set_boot_partition p s)) = trace s @ [Esp_ota_set_boot_partition p]"
  by (simp_all add: esp_ota_set_boot_partition_def case_prod_beta)

lemma nvs_flash_init_frame [simp]:
  "partitions (snd (nvs_flash_init s)) = partitions s"
  "wifi_config_shutdown_linked (snd (nvs_flash_init s)) = wifi_config_shutdown_linked s"
  "faults (snd (nvs_flash_init s)) = faults s"
  "running_partition (snd (nvs_flash_init s)) = running_partition s"
  "rtc_magic (snd (nvs_flash_init s)) = rtc_magic s"
  "rtc_reason (snd (nvs_flash_init s)) = rtc_reason s"
  "rtc_restart_count (snd (nvs_flash_init s)) = rtc_restart_count s"
  "s_wifi_on_ready_cb (snd (nvs_flash_init s)) = s_wifi_on_ready_cb s"
  "s_wifi_started (snd (nvs_flash_init s)) = s_wifi_started s"
  "s_wifi_netif (snd (nvs_flash_init s)) = s_wifi_netif s"
  "homekit_started (snd (nvs_flash_init s)) = homekit_started s"
  "trace (snd (nvs_flash_init s)) = trace s"
  by (simp_all add: nvs_flash_init_def case_prod_beta split: option.splits nvs_value.splits)

lemma nvs_flash_erase_frame [simp]:
  "partitions (snd (nvs_flash_erase s)) = partitions s"
  "wifi_config_shutdown_linked (snd (nvs_flash_erase s)) = wifi_config_shutdown_linked s"
  "faults (snd (nvs_flash_erase s)) = faults s"
  "running_partition (snd (nvs_flash_erase s)) = running_partition s"
  "rtc_magic (snd (nvs_flash_erase s)) = rtc_magic s"
  "rtc_reason (snd (nvs_flash_erase s)) = rtc_reason s"
  "rtc_restart_count (snd (nvs_flash_erase s)) = rtc_restart_count s"
  "s_wifi_on_ready_cb (snd (nvs_flash_erase s)) = s_wifi_on_ready_cb s"
  "s_wifi_started (snd (nvs_flash_erase s)) = s_wifi_started s"
  "s_wifi_netif (snd (nvs_flash_erase s)) = s_wifi_netif s"
  "homekit_started (snd (nvs_flash_erase s)) = homekit_started s"
  "trace (snd (nvs_flash_erase s)) = trace s"
  by (simp_all add: nvs_flash_erase_def case_prod_beta split: option.splits nvs_value.splits)

lemma nvs_flash_deinit_frame [simp]:
  "partitions (snd (nvs_flash_deinit s)) = partitions s"
  "wifi_config_shutdown_linked (snd (nvs_flash_deinit s)) = wifi_config_shutdown_linked s"
  "faults (snd (nvs_flash_deinit s)) = faults s"
  "running_partition (snd (nvs_flash_deinit s)) = running_partition s"
  "rtc_magic (snd (nvs_flash_deinit s)) = rtc_magic s"
  "rtc_reason (snd (nvs_flash_deinit s)) = rtc_reason s"
  "rtc_restart_count (snd (nvs_flash_deinit s)) = rtc_restart_count s"
  "s_wifi_on_ready_cb (snd (nvs_flash_deinit s)) = s_wifi_on_ready_cb s"
  "s_wifi_started (snd (nvs_flash_deinit s)) = s_wifi_started s"
  "s_wifi_netif (snd (nvs_flash_deinit s)) = s_wifi_netif s"
  "homekit_started (snd (nvs_flash_deinit s)) = homekit_started s"
  "trace (snd (nvs_flash_deinit s)) = trace s"
  by (simp_all add: nvs_flash_deinit_def case_prod_beta split: option.splits nvs_value.splits)

lemma nvs_open_frame [simp]:
  "partitions (snd (nvs_open ns mode s)) = partitions s"
  "wifi_config_shutdown_linked (snd (nvs_open ns mode s)) = wifi_config_shutdown_linked s"
  "faults (snd (nvs_open ns mode s)) = faults s"
  "running_partition (snd (nvs_open ns mode s)) = running_partition s"
  "rtc_magic (snd (nvs_open ns mode s)) = rtc_magic s"
  "rtc_reason (snd (nvs_open ns mode s)) = rtc_reason s"
  "rtc_restart_count (snd (nvs_open ns mode s)) = rtc_restart_count s"
  "s_wifi_on_ready_cb (snd (nvs_open ns mode s)) = s_wifi_on_ready_cb s"
  "s_wifi_started (snd (nvs_open ns mode s)) = s_wifi_started s"
  "s_wifi_netif (snd (nvs_open ns mode s)) = s_wifi_netif s"
  "homekit_started (snd (nvs_open ns mode s)) = homekit_started s"
  "trace (snd (nvs_open ns mode s)) = trace s"
  by (simp_all add: nvs_open_def case_prod_beta split: option.splits nvs_value.splits)

lemma nvs_commit_frame [simp]:
  "partitions (snd (nvs_commit h s)) = partitions s"
  "wifi_config_shutdown_linked (snd (nvs_commit h s)) = wifi_config_shutdown_linked s"
  "faults (snd (nvs_commit h s)) = faults s"
  "running_partition (snd (nvs_commit h s)) = running_partition s"
  "rtc_magic (snd (nvs_commit h s)) = rtc_magic s"
  "rtc_reason (snd (nvs_commit h s)) = rtc_reason s"
  "rtc_restart_count (snd (nvs_commit h s)) = rtc_restart_count s"
  "s_wifi_on_ready_cb (snd (nvs_commit h s)) = s_wifi_on_ready_cb s"
  "s_wifi_started (snd (nvs_commit h s)) = s_wifi_started s"
  "s_wifi_netif (snd (nvs_commit h s)) = s_wifi_netif s"
  "homekit_started (snd (nvs_commit h s)) = homekit_started s"
  "trace (snd (nvs_commit h s)) = trace s"
  by (simp_all add: nvs_commit_def case_prod_beta split: option.splits nvs_value.splits)

lemma nvs_get_u32_frame [simp]:
  "partitions (snd (nvs_get_u32 h key s)) = partitions s"
  "wifi_config_shutdown_linked (snd (nvs_get_u32 h key s)) = wifi_config_shutdown_linked s"
  "faults (snd (nvs_get_u32 h key s)) = faults s"
  "running_partition (snd (nvs_get_u32 h key s)) = running_partition s"
  "rtc_magic (snd (nvs_get_u32 h key s)) = rtc_magic s"
  "rtc_reason (snd (nvs_get_u32 h key s)) = rtc_reason s"
  "rtc_restart_count (snd (nvs_get_u32 h key s)) = rtc_restart_count s"
  "s_wifi_on_ready_cb (snd (nvs_get_u32 h key s)) = s_wifi_on_ready_cb s"
  "s_wifi_started (snd (nvs_get_u32 h key s)) = s_wifi_started s"
  "s_wifi_netif (snd (nvs_get_u32 h key s)) = s_wifi_netif s"
  "homekit_started (snd (nvs_get_u32 h key s)) = homekit_started s"
  "trace (snd (nvs_get_u32 h key s)) = trace s"
  by (simp_all add: nvs_get_u32_def case_prod_beta split: option.splits nvs_value.splits)

lemma nvs_get_str_len_frame [simp]:
  "partitions (snd (nvs_get_str_len h key s)) = partitions s"
  "wifi_config_shutdown_linked (snd (nvs_get_str_len h key s)) = wifi_config_shutdown_linked s"
  "faults (snd (nvs_get_str_len h key s)) = faults s"
  "running_partition (snd (nvs_get_str_len h key s)) = running_partition s"
  "rtc_magic (snd (nvs_get_str_len h key s)) = rtc_magic s"
  "rtc_reason (snd (nvs_get_str_len h key s)) = rtc_reason s"
  "rtc_restart_count (snd (nvs_get_str_len h key s)) = rtc_restart_count s"
  "s_wifi_on_ready_cb (snd (nvs_get_str_len h key s)) = s_wifi_on_ready_cb s"
  "s_wifi_started (snd (nvs_get_str_len h key s)) = s_wifi_started s"
  "s_wifi_netif (snd (nvs_get_str_len h key s)) = s_wifi_netif s"
  "homekit_started (snd (nvs_get_str_len h key s)) = homekit_started s"
  "trace (snd (nvs_get_str_len h key s)) = trace s"
  by (simp_all add: nvs_get_str_len_def case_prod_beta split: option.splits nvs_value.splits)

lemma nvs_get_str_frame [simp]:
  "partitions (snd (nvs_get_str h key s)) = partitions s"
  "wifi_config_shutdown_linked (snd (nvs_get_str h key s)) = wifi_config_shutdown_linked s"
  "faults (snd (nvs_get_str h key s)) = faults s"
  "running_partition (snd (nvs_get_str h key s)) = running_partition s"
  "rtc_magic (snd (nvs_get_str h key s)) = rtc_magic s"
  "rtc_reason (snd (nvs_get_str h key s)) = rtc_reason s"
  "rtc_restart_count (snd (nvs_get_str h key s)) = rtc_restart_count s"
  "s_wifi_on_ready_cb (snd (nvs_get_str h key s)) = s_wifi_on_ready_cb s"
  "s_wifi_started (snd (nvs_get_str h key s)) = s_wifi_started s"
  "s_wifi_netif (snd (nvs_get_str h key s)) = s_wifi_netif s"
  "homekit_started (snd (nvs_get_str h key s)) = homekit_started s"
  "trace (snd (nvs_get_str h key s)) = trace s"
  by (simp_all add: nvs_get_str_def case_prod_beta split: option.splits nvs_value.splits)

lemma malloc_frame [simp]:
  "partitions (snd (malloc s)) = partitions s"
  "wifi_config_shutdown_linked (snd (malloc s)) = wifi_config_shutdown_linked s"
  "faults (snd (malloc s)) = faults s"
  "running_partition (snd (malloc s)) = running_partition s"
  "rtc_magic (snd (malloc s)) = rtc_magic s"
  "rtc_reason (snd (malloc s)) = rtc_reason s"
  "rtc_restart_count (snd (malloc s)) = rtc_restart_count s"
  "s_wifi_on_ready_cb (snd (malloc s)) = s_wifi_on_ready_cb s"
  "s_wifi_started (snd (malloc s)) = s_wifi_started s"
  "s_wifi_netif (snd (malloc s)) = s_wifi_netif s"
  "homekit_started (snd (malloc s)) = homekit_started s"
  "trace (snd (malloc s)) = trace s"
  by (simp_all add: malloc_def case_prod_beta split: option.splits nvs_value.splits)

lemma esp_timer_create_frame [simp]:
  "partitions (snd (esp_timer_create s)) = partitions s"
  "wifi_config_shutdown_linked (snd (esp_timer_create s)) = wifi_config_shutdown_linked s"
  "faults (snd (esp_timer_create s)) = faults s"
  "running_partition (snd (esp_timer_create s)) = running_partition s"
  "rtc_magic (snd (esp_timer_create s)) = rtc_magic s"
  "rtc_reason (snd (esp_timer_create s)) = rtc_reason s"
  "rtc_restart_count (snd (esp_timer_create s)) = rtc_restart_count s"
  "s_wifi_on_ready_cb (snd (esp_timer_create s)) = s_wifi_on_ready_cb s"
  "s_wifi_started (snd (esp_timer_create s)) = s_wifi_started s"
  "s_wifi_netif (snd (esp_timer_create s)) = s_wifi_netif s"
  "homekit_started (snd (esp_timer_create s)) = homekit_started s"
  "nvs (snd (esp_timer_create s)) = nvs s"
  "nvs_ready (snd (esp_timer_create s)) = nvs_ready s"
  "s_nvs_initialized (snd (esp_timer_create s)) = s_nvs_initialized s"
  "trace (snd (esp_timer_create s)) = trace s"
  by (simp_all add: esp_timer_create_def platform_call_def case_prod_beta)

lemma esp_timer_stop_frame [simp]:
  "partitions (snd (esp_timer_stop s)) = partitions s"
  "wifi_config_shutdown_linked (snd (esp_timer_stop s)) = wifi_config_shutdown_linked s"
  "faults (snd (esp_timer_stop s)) = faults s"
  "running_partition (snd (esp_timer_stop s)) = running_partition s"
  "rtc_magic (snd (esp_timer_stop s)) = rtc_magic s"
  "rtc_reason (snd (esp_timer_stop s)) = rtc_reason s"
  "rtc_restart_count (snd (esp_timer_stop s)) = rtc_restart_count s"
  "s_wifi_on_ready_cb (snd (esp_timer_stop s)) = s_wifi_on_ready_cb s"
  "s_wifi_started (snd (esp_timer_stop s)) = s_wifi_started s"
  "s_wifi_netif (snd (esp_timer_stop s)) = s_wifi_netif s"
  "homekit_started (snd (esp_timer_stop s)) = homekit_started s"
  "nvs (snd (esp_timer_stop s)) = nvs s"
  "nvs_ready (snd (esp_timer_stop s)) = nvs_ready s"
  "s_nvs_initialized (snd (esp_timer_stop s)) = s_nvs_initialized s"
  "trace (snd (esp_timer_stop s)) = trace s"
  by (simp_all add: esp_timer_stop_def platform_call_def case_prod_beta)

lemma esp_timer_start_once_frame [simp]:
  "partitions (snd (esp_timer_start_once t s)) = partitions s"
  "wifi_config_shutdown_linked (snd (esp_timer_start_once t s)) = wifi_config_shutdown_linked s"
  "faults (snd (esp_timer_start_once t s)) = faults s"
  "running_partition (snd (esp_timer_start_once t s)) = running_partition s"
  "rtc_magic (snd (esp_timer_start_once t s)) = rtc_magic s"
  "rtc_reason (snd (esp_timer_start_once t s)) = rtc_reason s"
  "rtc_restart_count (snd (esp_timer_start_once t s)) = rtc_restart_count s"
  "s_wifi_on_ready_cb (snd (esp_timer_start_once t s)) = s_wifi_on_ready_cb s"
  "s_wifi_started (snd (esp_timer_start_once t s)) = s_wifi_started s"
  "s_wifi_netif (snd (esp_timer_start_once t s)) = s_wifi_netif s"
  "homekit_started (snd (esp_timer_start_once t s)) = homekit_started s"
  "nvs (snd (esp_timer_start_once t s)) = nvs s"
  "nvs_ready (snd (esp_timer_start_once t s)) = nvs_ready s"
  "s_nvs_initialized (snd (esp_timer_start_once t s)) = s_nvs_initialized s"
  "trace (snd (esp_timer_start_once t s)) = trace s"
  by (simp_all add: esp_timer_start_once_def platform_call_def case_prod_beta)

lemma nvs_set_u32_frame [simp]:
  "partitions (snd (snd (nvs_set_u32 h key v s))) = partitions s"
  "wifi_config_shutdown_linked (snd (snd (nvs_set_u32 h key v s))) = wifi_config_shutdown_linked s"
  "faults (snd (snd (nvs_set_u32 h key v s))) = faults s"
  "running_partition (snd (snd (nvs_set_u32 h key v s))) = running_partition s"
  "rtc_magic (snd (snd (nvs_set_u32 h key v s))) = rtc_magic s"
  "rtc_reason (snd (snd (nvs_set_u32 h key v s))) = rtc_reason s"
  "rtc_restart_count (snd (snd (nvs_set_u32 h key v s))) = rtc_restart_count s"
  "s_wifi_on_ready_cb (snd (snd (nvs_set_u32 h key v s))) = s_wifi_on_ready_cb s"
  "s_wifi_started (snd (snd (nvs_set_u32 h key v s))) = s_wifi_started s"
  "s_wifi_netif (snd (snd (nvs_set_u32 h key v s))) = s_wifi_netif s"
  "homekit_started (snd (snd (nvs_set_u32 h key v s))) = homekit_started s"
  "nvs (snd (snd (nvs_set_u32 h key v s))) = nvs s"
  "nvs_ready (snd (snd (nvs_set_u32 h key v s))) = nvs_ready s"
  "s_nvs_initialized (snd (snd (nvs_set_u32 h key v s))) = s_nvs_initialized s"
  "trace (snd (snd (nvs_set_u32 h key v s))) = trace s"
  by (simp_all add: nvs_set_u32_def case_prod_beta split: option.splits nvs_value.splits)

lemma nvs_set_u8_frame [simp]:
  "partitions (snd (snd (nvs_set_u8 h key v s))) = partitions s"
  "wifi_config_shutdown_linked (snd (snd (nvs_set_u8 h key v s))) = wifi_config_shutdown_linked s"
  "faults (snd (snd (nvs_set_u8 h key v s))) = faults s"
  "running_partition (snd (snd (nvs_set_u8 h key v s))) = running_partition s"
  "rtc_magic (snd (snd (nvs_set_u8 h key v s))) = rtc_magic s"
  "rtc_reason (snd (snd (nvs_set_u8 h key v s))) = rtc_reason s"
  "rtc_restart_count (snd (snd (nvs_set_u8 h key v s))) = rtc_restart_count s"
  "s_wifi_on_ready_cb (snd (snd (nvs_set_u8 h key v s))) = s_wifi_on_ready_cb s"
  "s_wifi_started (snd (snd (nvs_set_u8 h key v s))) = s_wifi_started s"
  "s_wifi_netif (snd (snd (nvs_set_u8 h key v s))) = s_wifi_netif s"
  "homekit_started (snd (snd (nvs_set_u8 h key v s))) = homekit_started s"
  "nvs (snd (snd (nvs_set_u8 h key v s))) = nvs s"
  "nvs_ready (snd (snd (nvs_set_u8 h key v s))) = nvs_ready s"
  "s_nvs_initialized (snd (snd (nvs_set_u8 h key v s))) = s_nvs_initialized s"
  "trace (snd (snd (nvs_set_u8 h key v s))) = trace s"
  by (simp_all add: nvs_set_u8_def case_prod_beta split: option.splits nvs_value.splits)

lemma nvs_erase_key_frame [simp]:
  "partitions (snd (snd (nvs_erase_key h key s))) = partitions s"
  "wifi_config_shutdown_linked (snd (snd (nvs_erase_key h key s))) = wifi_config_shutdown_linked s"
  "faults (snd (snd (nvs_erase_key h key s))) = faults s"
  "running_partition (snd (snd (nvs_erase_key h key s))) = running_partition s"
  "rtc_magic (snd (snd (nvs_erase_key h key s))) = rtc_magic s"
  "rtc_reason (snd (snd (nvs_erase_key h key s))) = rtc_reason s"
  "rtc_restart_count (snd (snd (nvs_erase_key h key s))) = rtc_restart_count s"
  "s_wifi_on_ready_cb (snd (snd (nvs_erase_key h key s))) = s_wifi_on_ready_cb s"
  "s_wifi_started (snd (snd (nvs_erase_key h key s))) = s_wifi_started s"
  "s_wifi_netif (snd (snd (nvs_erase_key h key s))) = s_wifi_netif s"
  "homekit_started (snd (snd (nvs_erase_key h key s))) = homekit_started s"
  "nvs (snd (snd (nvs_erase_key h key s))) = nvs s"
  "nvs_ready (snd (snd (nvs_erase_key h key s))) = nvs_ready s"
  "s_nvs_initialized (snd (snd (nvs_erase_key h key s))) = s_nvs_initialized s"
  "trace (snd (snd (nvs_erase_key h key s))) = trace s"
  by (simp_all add: nvs_erase_key_def case_prod_beta split: option.splits nvs_value.splits)

lemma nvs_erase_all_frame [simp]:
  "partitions (snd (snd (nvs_erase_all h s))) = partitions s"
  "wifi_config_shutdown_linked (snd (snd (nvs_erase_all h s))) = wifi_config_shutdown_linked s"
  "faults (snd (snd (nvs_erase_all h s))) = faults s"
  "running_partition (snd (snd (nvs_erase_all h s))) = running_partition s"
  "rtc_magic (snd (snd (nvs_erase_all h s))) = rtc_magic s"
  "rtc_reason (snd (snd (nvs_erase_all h s))) = rtc_reason s"
  "rtc_restart_count (snd (snd (nvs_erase_all h s))) = rtc_restart_count s"
  "s_wifi_on_ready_cb (snd (snd (nvs_erase_all h s))) = s_wifi_on_ready_cb s"
  "s_wifi_started (snd (snd (nvs_erase_all h s))) = s_wifi_started s"
  "s_wifi_netif (snd (snd (nvs_erase_all h s))) = s_wifi_netif s"
  "homekit_started (snd (snd (nvs_erase_all h s))) = homekit_started s"
  "nvs (snd (snd (nvs_erase_all h s))) = nvs s"
  "nvs_ready (snd (snd (nvs_erase_all h s))) = nvs_ready s"
  "s_nvs_initialized (snd (snd (nvs_erase_all h s))) = s_nvs_initialized s"
  "trace (snd (snd (nvs_erase_all h s))) = trace s"
  by (simp_all add: nvs_erase_all_def case_prod_beta split: option.splits nvs_value.splits)

lemma nvs_close_frame [simp]:
  "partitions (nvs_close h s) = partitions s"
  "wifi_config_shutdown_linked (nvs_close h s) = wifi_config_shutdown_linked s"
  "faults (nvs_close h s) = faults s"
  "running_partition (nvs_close h s) = running_partition s"
  "rtc_magic (nvs_close h s) = rtc_magic s"
  "rtc_reason (nvs_close h s) = rtc_reason s"
  "rtc_restart_count (nvs_close h s) = rtc_restart_count s"
  "s_wifi_on_ready_cb (nvs_close h s) = s_wifi_on_ready_cb s"
  "s_wifi_started (nvs_close h s) = s_wifi_started s"
  "s_wifi_netif (nvs_close h s) = s_wifi_netif s"
  "homekit_started (nvs_close h s) = homekit_started s"
  "nvs (nvs_close h s) = nvs s"
  "nvs_ready (nvs_close h s) = nvs_ready s"
  "s_nvs_initialized (nvs_close h s) = s_nvs_initialized s"
  "tick (nvs_close h s) = tick s"
  "trace (nvs_close h s) = trace s"
  by (simp_all add: nvs_close_def)

lemma nvs_init_finish_frame [simp]:
  "partitions (snd (nvs_init_finish ret s)) = partitions s"
  "wifi_config_shutdown_linked (snd (nvs_init_finish ret s)) = wifi_config_shutdown_linked s"
  "faults (snd (nvs_init_finish ret s)) = faults s"
  "running_partition (snd (nvs_init_finish ret s)) = running_partition s"
  "rtc_magic (snd (nvs_init_finish ret s)) = rtc_magic s"
  "rtc_reason (snd (nvs_init_finish ret s)) = rtc_reason s"
  "rtc_restart_count (snd (nvs_init_finish ret s)) = rtc_restart_count s"
  "s_wifi_on_ready_cb (snd (nvs_init_finish ret s)) = s_wifi_on_ready_cb s"
  "s_wifi_started (snd (nvs_init_finish ret s)) = s_wifi_started s"
  "s_wifi_netif (snd (nvs_init_finish ret s)) = s_wifi_netif s"
  "homekit_started (snd (nvs_init_finish ret s)) = homekit_started s"
  "trace (snd (nvs_init_finish ret s)) = trace s"
  by (simp_all add: nvs_init_finish_def)

lemma lifecycle_ensure_nvs_initialized_frame [simp]:
  "partitions (snd (lifecycle_ensure_nvs_initialized s)) = partitions s"
  "wifi_config_shutdown_linked (snd (lifecycle_ensure_nvs_initialized s)) = wifi_config_shutdown_linked s"
  "faults (snd (lifecycle_ensure_nvs_initialized s)) = faults s"
  "running_partition (snd (lifecycle_ensure_nvs_initialized s)) = running_partition s"
  "rtc_magic (snd (lifecycle_ensure_nvs_initialized s)) = rtc_magic s"
  "rtc_reason (snd (lifecycle_ensure_nvs_initialized s)) = rtc_reason s"
  "rtc_restart_count (snd (lifecycle_ensure_nvs_initialized s)) = rtc_restart_count s"
  "s_wifi_on_ready_cb (snd (lifecycle_ensure_nvs_initialized s)) = s_wifi_on_ready_cb s"
  "s_wifi_started (snd (lifecycle_ensure_nvs_initialized s)) = s_wifi_started s"
  "s_wifi_netif (snd (lifecycle_ensure_nvs_initialized s)) = s_wifi_netif s"
  "homekit_started (snd (lifecycle_ensure_nvs_initialized s)) = homekit_started s"
  "trace (snd (lifecycle_ensure_nvs_initialized s)) = trace s"
  by (simp_all add: lifecycle_ensure_nvs_initialized_def case_prod_beta Let_def split: sum.splits)

lemma load_restart_counter_from_nvs_frame [simp]:
  "partitions (snd (snd (load_restart_counter_from_nvs s))) = partitions s"
  "wifi_config_shutdown_linked (snd (snd (load_restart_counter_from_nvs s))) = wifi_config_shutdown_linked s"
  "faults (snd (snd (load_restart_counter_from_nvs s))) = faults s"
  "running_partition (snd (snd (load_restart_counter_from_nvs s))) = running_partition s"
  "rtc_magic (snd (snd (load_restart_counter_from_nvs s))) = rtc_magic s"
  "rtc_reason (snd (snd (load_restart_counter_from_nvs s))) = rtc_reason s"
  "rtc_restart_count (snd (snd (load_restart_counter_from_nvs s))) = rtc_restart_count s"
  "s_wifi_on_ready_cb (snd (snd (load_restart_counter_from_nvs s))) = s_wifi_on_ready_cb s"
  "s_wifi_started (snd (snd (load_restart_counter_from_nvs s))) = s_wifi_started s"
  "s_wifi_netif (snd (snd (load_restart_counter_from_nvs s))) = s_wifi_netif s"
  "homekit_started (snd (snd (load_restart_counter_from_nvs s))) = homekit_started s"
  "trace (snd (snd (load_restart_counter_from_nvs s))) = trace s"
  by (simp_all add: load_restart_counter_from_nvs_def case_prod_beta Let_def split: sum.splits)

lemma save_restart_counter_to_nvs_frame [simp]:
  "partitions (snd (save_restart_counter_to_nvs v s)) = partitions s"
  "wifi_config_shutdown_linked (snd (save_restart_counter_to_nvs v s)) = wifi_config_shutdown_linked s"
  "faults (snd (save_restart_counter_to_nvs v s)) = faults s"
  "running_partition (snd (save_restart_counter_to_nvs v s)) = running_partition s"
  "rtc_magic (snd (save_restart_counter_to_nvs v s)) = rtc_magic s"
  "rtc_reason (snd (save_restart_counter_to_nvs v s)) = rtc_reason s"
  "rtc_restart_count (snd (save_restart_counter_to_nvs v s)) = rtc_restart_count s"
  "s_wifi_on_ready_cb (snd (save_restart_counter_to_nvs v s)) = s_wifi_on_ready_cb s"
  "s_wifi_started (snd (save_restart_counter_to_nvs v s)) = s_wifi_started s"
  "s_wifi_netif (snd (save_restart_counter_to_nvs v s)) = s_wifi_netif s"
  "homekit_started (snd (save_restart_counter_to_nvs v s)) = homekit_started s"
  "trace (snd (save_restart_counter_to_nvs v s)) = trace s"
  by (simp_all add: save_restart_counter_to_nvs_def case_prod_beta Let_def split: sum.splits)

lemma lifecycle_schedule_restart_counter_timeout_frame [simp]:
  "partitions (lifecycle_schedule_restart_counter_timeout s) = partitions s"
  "wifi_config_shutdown_linked (lifecycle_schedule_restart_counter_timeout s) = wifi_config_shutdown_linked s"
  "faults (lifecycle_schedule_restart_counter_timeout s) = faults s"
  "running_partition (lifecycle_schedule_restart_counter_timeout s) = running_partition s"
  "rtc_magic (lifecycle_schedule_restart_counter_timeout s) = rtc_magic s"
  "rtc_reason (lifecycle_schedule_restart_counter_timeout s) = rtc_reason s"
  "rtc_restart_count (lifecycle_schedule_restart_counter_timeout s) = rtc_restart_count s"
  "s_wifi_on_ready_cb (lifecycle_schedule_restart_counter_timeout s) = s_wifi_on_ready_cb s"
  "s_wifi_started (lifecycle_schedule_restart_counter_timeout s) = s_wifi_started s"
  "s_wifi_netif (lifecycle_schedule_restart_counter_timeout s) = s_wifi_netif s"
  "homekit_started (lifecycle_schedule_restart_counter_timeout s) = homekit_started s"
  "nvs (lifecycle_schedule_restart_counter_timeout s) = nvs s"
  "nvs_ready (lifecycle_schedule_restart_counter_timeout s) = nvs_ready s"
  "s_nvs_initialized (lifecycle_schedule_restart_counter_timeout s) = s_nvs_initialized s"
  "trace (lifecycle_schedule_restart_counter_timeout s) = trace s"
  by (simp_all add: lifecycle_schedule_restart_counter_timeout_def case_prod_beta Let_def split: bool.splits)

lemma nvs_load_wifi_frame [simp]:
  "partitions (snd (nvs_load_wifi s)) = partitions s"
  "wifi_config_shutdown_linked (snd (nvs_load_wifi s)) = wifi_config_shutdown_linked s"
  "faults (snd (nvs_load_wifi s)) = faults s"
  "running_partition (snd (nvs_load_wifi s)) = running_partition s"
  "rtc_magic (snd (nvs_load_wifi s)) = rtc_magic s"
  "rtc_reason (snd (nvs_load_wifi s)) = rtc_reason s"
  "rtc_restart_count (snd (nvs_load_wifi s)) = rtc_restart_count s"
  "s_wifi_on_ready_cb (snd (nvs_load_wifi s)) = s_wifi_on_ready_cb s"
  "s_wifi_started (snd (nvs_load_wifi s)) = s_wifi_started s"
  "s_wifi_netif (snd (nvs_load_wifi s)) = s_wifi_netif s"
  "homekit_started (snd (nvs_load_wifi s)) = homekit_started s"
  "trace (snd (nvs_load_wifi s)) = trace s"
  by (simp_all add: nvs_load_wifi_def case_prod_beta Let_def split: sum.splits)

lemma erase_wifi_credentials_frame [simp]:
  "partitions (erase_wifi_credentials s) = partitions s"
  "wifi_config_shutdown_linked (erase_wifi_credentials s) = wifi_config_shutdown_linked s"
  "faults (erase_wifi_credentials s) = faults s"
  "running_partition (erase_wifi_credentials s) = running_partition s"
  "rtc_magic (erase_wifi_credentials s) = rtc_magic s"
  "rtc_reason (erase_wifi_credentials s) = rtc_reason s"
  "rtc_restart_count (erase_wifi_credentials s) = rtc_restart_count s"
  "s_wifi_on_ready_cb (erase_wifi_credentials s) = s_wifi_on_ready_cb s"
  "s_wifi_started (erase_wifi_credentials s) = s_wifi_started s"
  "s_wifi_netif (erase_wifi_credentials s) = s_wifi_netif s"
  "homekit_started (erase_wifi_credentials s) = homekit_started s"
  "trace (erase_wifi_credentials s) = trace s"
  by (simp_all add: erase_wifi_credentials_def case_prod_beta Let_def split: sum.splits)

lemma clear_nvs_namespace_frame [simp]:
  "partitions (clear_nvs_namespace ns s) = partitions s"
  "wifi_config_shutdown_linked (clear_nvs_namespace ns s) = wifi_config_shutdown_linked s"
  "faults (clear_nvs_namespace ns s) = faults s"
  "running_partition (clear_nvs_namespace ns s) = running_partition s"
  "rtc_magic (clear_nvs_namespace ns s) = rtc_magic s"
  "rtc_reason (clear_nvs_namespace ns s) = rtc_reason s"
  "rtc_restart_count (clear_nvs_namespace ns s) = rtc_restart_count s"
  "s_wifi_on_ready_cb (clear_nvs_namespace ns s) = s_wifi_on_ready_cb s"
  "s_wifi_started (clear_nvs_namespace ns s) = s_wifi_started s"
  "s_wifi_netif (clear_nvs_namespace ns s) = s_wifi_netif s"
  "homekit_started (clear_nvs_namespace ns s) = homekit_started s"
  "trace (clear_nvs_namespace ns s) = trace s"
  by (simp_all add: clear_nvs_namespace_def case_prod_beta Let_def split: sum.splits)

lemma erase_nvs_partition_frame [simp]:
  "partitions (erase_nvs_partition s) = partitions s"
  "wifi_config_shutdown_linked (erase_nvs_partition s) = wifi_config_shutdown_linked s"
  "faults (erase_nvs_partition s) = faults s"
  "running_partition (erase_nvs_partition s) = running_partition s"
  "rtc_magic (erase_nvs_partition s) = rtc_magic s"
  "rtc_reason (erase_nvs_partition s) = rtc_reason s"
  "rtc_restart_count (erase_nvs_partition s) = rtc_restart_count s"
  "s_wifi_on_ready_cb (erase_nvs_partition s) = s_wifi_on_ready_cb s"
  "s_wifi_started (erase_nvs_partition s) = s_wifi_started s"
  "s_wifi_netif (erase_nvs_partition s) = s_wifi_netif s"
  "homekit_started (erase_nvs_partition s) = homekit_started s"
  "trace (erase_nvs_partition s) = trace s @ [LogStep ''erase_nvs_partition'']"
  by (simp_all add: erase_nvs_partition_def case_prod_beta Let_def split: sum.splits)

section \<open>More of what each operation leaves unchanged\<close>

lemma lifecycle_increment_restart_counter_frame [simp]:
  "partitions (snd (lifecycle_increment_restart_counter s)) = partitions s"
  "wifi_config_shutdown_linked (snd (lifecycle_increment_restart_counter s)) = wifi_config_shutdown_linked s"
  "faults (snd (lifecycle_increment_restart_counter s)) = faults s"
  "running_partition (snd (lifecycle_increment_restart_counter s)) = running_partition s"
  "rtc_magic (snd (lifecycle_increment_restart_counter s)) = rtc_magic s"
  "rtc_reason (snd (lifecycle_increment_restart_counter s)) = rtc_reason s"
  "s_wifi_on_ready_cb (snd (lifecycle_increment_restart_counter s)) = s_wifi_on_ready_cb s"
  "s_wifi_started (snd (lifecycle_increment_restart_counter s)) = s_wifi_started s"
  "s_wifi_netif (snd (lifecycle_increment_restart_counter s)) = s_wifi_netif s"
  "homekit_started (snd (lifecycle_increment_restart_counter s)) = homekit_started s"
  "nvs (snd (lifecycle_increment_restart_counter s)) = nvs s"
  "nvs_ready (snd (lifecycle_increment_restart_counter s)) = nvs_ready s"
  "s_nvs_initialized (snd (lifecycle_increment_restart_counter s)) = s_nvs_initialized s"
  "tick (snd (lifecycle_increment_restart_counter s)) = tick s"
  "trace (snd (lifecycle_increment_restart_counter s)) = trace s"
  by (simp_all add: lifecycle_increment_restart_counter_def Let_def)

lemma lifecycle_reset_restart_counter_frame [simp]:
  "partitions (lifecycle_reset_restart_counter s) = partitions s"
  "wifi_config_shutdown_linked (lifecycle_reset_restart_counter s) = wifi_config_shutdown_linked s"
  "faults (lifecycle_reset_restart_counter s) = faults s"
  "running_partition (lifecycle_reset_restart_counter s) = running_partition s"
  "rtc_magic (lifecycle_reset_restart_counter s) = rtc_magic s"
  "rtc_reason (lifecycle_reset_restart_counter s) = rtc_reason s"
  "s_wifi_on_ready_cb (lifecycle_reset_restart_counter s) = s_wifi_on_ready_cb s"
  "s_wifi_started (lifecycle_reset_restart_counter s) = s_wifi_started s"
  "s_wifi_netif (lifecycle_reset_restart_counter s) = s_wifi_netif s"
  "homekit_started (lifecycle_reset_restart_counter s) = homekit_started s"
  "trace (lifecycle_reset_restart_counter s) = trace s"
  by (simp_all add: lifecycle_reset_restart_counter_def case_prod_beta)

lemma lifecycle_restart_counter_timeout_frame [simp]:
  "partitions (lifecycle_restart_counter_timeout s) = partitions s"
  "wifi_config_shutdown_linked (lifecycle_restart_counter_timeout s) = wifi_config_shutdown_linked s"
  "faults (lifecycle_restart_counter_timeout s) = faults s"
  "running_partition (lifecycle_restart_counter_timeout s) = running_partition s"
  "rtc_magic (lifecycle_restart_counter_timeout s) = rtc_magic s"
  "rtc_reason (lifecycle_restart_counter_timeout s) = rtc_reason s"
  "s_wifi_on_ready_cb (lifecycle_restart_counter_timeout s) = s_wifi_on_ready_cb s"
  "s_wifi_started (lifecycle_restart_counter_timeout s) = s_wifi_started s"
  "s_wifi_netif (lifecycle_restart_counter_timeout s) = s_wifi_netif s"
  "homekit_started (lifecycle_restart_counter_timeout s) = homekit_started s"
  "trace (lifecycle_restart_counter_timeout s) = trace s"
  by (simp_all add: lifecycle_restart_counter_timeout_def)

lemma lifecycle_mark_post_reset_frame [simp]:
  "partitions (lifecycle_mark_post_reset r s) = partitions s"
  "wifi_config_shutdown_linked (lifecycle_mark_post_reset r s) = wifi_config_shutdown_linked s"
  "faults (lifecycle_mark_post_reset r s) = faults s"
  "running_partition (lifecycle_mark_post_reset r s) = running_partition s"
  "rtc_restart_count (lifecycle_mark_post_reset r s) = rtc_restart_count s"
  "s_wifi_on_ready_cb (lifecycle_mark_post_reset r s) = s_wifi_on_ready_cb s"
  "s_wifi_started (lifecycle_mark_post_reset r s) = s_wifi_started s"
  "s_wifi_netif (lifecycle_mark_post_reset r s) = s_wifi_netif s"
  "homekit_started (lifecycle_mark_post_reset r s) = homekit_started s"
  "nvs (lifecycle_mark_post_reset r s) = nvs s"
  "nvs_ready (lifecycle_mark_post_reset r s) = nvs_ready s"
  "s_nvs_initialized (lifecycle_mark_post_reset r s) = s_nvs_initialized s"
  "tick (lifecycle_mark_post_reset r s) = tick s"
  "trace (lifecycle_mark_post_reset r s) = trace s"
  by (simp_all add: lifecycle_mark_post_reset_def)

lemma lifecycle_clear_post_reset_state_frame [simp]:
  "partitions (lifecycle_clear_post_reset_state s) = partitions s"
  "wifi_config_shutdown_linked (lifecycle_clear_post_reset_state s) = wifi_config_shutdown_linked s"
  "faults (lifecycle_clear_post_reset_state s) = faults s"
  "running_partition (lifecycle_clear_post_reset_state s) = running_partition s"
  "rtc_restart_count (lifecycle_clear_post_reset_state s) = rtc_restart_count s"
  "s_wifi_on_ready_cb (lifecycle_clear_post_reset_state s) = s_wifi_on_ready_cb s"
  "s_wifi_started (lifecycle_clear_post_reset_state s) = s_wifi_started s"
  "s_wifi_netif (lifecycle_clear_post_reset_state s) = s_wifi_netif s"
  "homekit_started (lifecycle_clear_post_reset_state s) = homekit_started s"
  "nvs (lifecycle_clear_post_reset_state s) = nvs s"
  "nvs_ready (lifecycle_clear_post_reset_state s) = nvs_ready s"
  "s_nvs_initialized (lifecycle_clear_post_reset_state s) = s_nvs_initialized s"
  "tick (lifecycle_clear_post_reset_state s) = tick s"
  "trace (lifecycle_clear_post_reset_state s) = trace s"
  by (simp_all add: lifecycle_clear_post_reset_state_def)

lemma lifecycle_log_post_reset_state_count_frame [simp]:
  "partitions (snd (lifecycle_log_post_reset_state_count s)) = partitions s"
  "wifi_config_shutdown_linked (snd (lifecycle_log_post_reset_state_count s)) = wifi_config_shutdown_linked s"
  "faults (snd (lifecycle_log_post_reset_state_count s)) = faults s"
  "running_partition (snd (lifecycle_log_post_reset_state_count s)) = running_partition s"
  "rtc_magic (snd (lifecycle_log_post_reset_state_count s)) = rtc_magic s"
  "rtc_reason (snd (lifecycle_log_post_reset_state_count s)) = rtc_reason s"
  "s_wifi_on_ready_cb (snd (lifecycle_log_post_reset_state_count s)) = s_wifi_on_ready_cb s"
  "s_wifi_started (snd (lifecycle_log_post_reset_state_count s)) = s_wifi_started s"
  "s_wifi_netif (snd (lifecycle_log_post_reset_state_count s)) = s_wifi_netif s"
  "homekit_started (snd (lifecycle_log_post_reset_state_count s)) = homekit_started s"
  "trace (snd (lifecycle_log_post_reset_state_count s)) = trace s @ [LogRestartCount (fst (lifecycle_log_post_reset_state_count s))]"
  by (simp_all add: lifecycle_log_post_reset_state_count_def case_prod_beta Let_def)

lemma cpu_reset_frame [simp]:
  "partitions (cpu_reset s) = partitions s"
  "wifi_config_shutdown_linked (cpu_reset s) = wifi_config_shutdown_linked s"
  "faults (cpu_reset s) = faults s"
  "running_partition (cpu_reset s) = running_partition s"
  "rtc_magic (cpu_reset s) = rtc_magic s"
  "rtc_reason (cpu_reset s) = rtc_reason s"
  "rtc_restart_count (cpu_reset s) = rtc_restart_count s"
  "nvs (cpu_reset s) = nvs s"
  "tick (cpu_reset s) = tick s"
  "trace (cpu_reset s) = trace s"
  by (simp_all add: cpu_reset_def)

lemma rtc_restart_count_after_count [simp]:
  "rtc_restart_count (snd (lifecycle_log_post_reset_state_count s)) = fst (lifecycle_log_post_reset_state_count s)"
  by (simp add: lifecycle_log_post_reset_state_count_def case_prod_beta Let_def
        lifecycle_increment_restart_counter_def)

section \<open>A healthy platform\<close>

lemma healthy_platform_call [simp]:
  "healthy s \<Longrightarrow> platform_call s = (ESP_OK, s\<lparr>tick := Suc (tick s)\<rparr>)"
  by (simp add: healthy_def platform_call_def)

lemma healthy_tick [simp]: "healthy (s\<lparr>tick := t\<rparr>) = healthy s"
  by (simp add: healthy_def)

lemma healthy_nvs_ready [simp]: "healthy (s\<lparr>nvs_ready := r\<rparr>) = healthy s"
  by (simp add: healthy_def)

lemma healthy_nvs [simp]: "healthy (s\<lparr>nvs := n\<rparr>) = healthy s"
  by (simp add: healthy_def)

lemma healthy_s_nvs_initialized [simp]: "healthy (s\<lparr>s_nvs_initialized := r\<rparr>) = healthy s"
  by (simp add: healthy_def)

lemma healthy_rtc_restart_count [simp]: "healthy (s\<lparr>rtc_restart_count := r\<rparr>) = healthy s"
  by (simp add: healthy_def)

lemma healthy_ensure:
  assumes "healthy s" "nvs_flag_sound s"
  shows "fst (lifecycle_ensure_nvs_initialized s) = ESP_OK"
    and "nvs_ready (snd (lifecycle_ensure_nvs_initialized s))"
    and "s_nvs_initialized (snd (lifecycle_ensure_nvs_initialized s))"
    and "nvs (snd (lifecycle_ensure_nvs_initialized s)) = nvs s"
    and "healthy (snd (lifecycle_ensure_nvs_initialized s))"
  using assms
  by (simp_all add: lifecycle_ensure_nvs_initialized_def nvs_flash_init_def nvs_init_finish_def
        nvs_flag_sound_def split: if_splits)

lemma healthy_load:
  assumes "healthy s" "nvs_flag_sound s"
  shows "durable_restart_entry s = None \<Longrightarrow>
           fst (load_restart_counter_from_nvs s) = ESP_OK \<and> fst (snd (load_restart_counter_from_nvs s)) = 0"
    and "durable_restart_entry s = Some (NVS_U32 v) \<Longrightarrow>
           fst (load_restart_counter_from_nvs s) = ESP_OK \<and> fst (snd (load_restart_counter_from_nvs s)) = v"
  using healthy_ensure [OF assms]
  by (auto simp add: load_restart_counter_from_nvs_def case_prod_beta nvs_open_def nvs_get_u32_def
        durable_restart_entry_def split: option.splits)

lemma save_ok_stores:
  "fst (save_restart_counter_to_nvs v s) = ESP_OK \<Longrightarrow>
     durable_restart_entry (snd (save_restart_counter_to_nvs v s)) = Some (NVS_U32 v)"
  by (auto simp add: save_restart_counter_to_nvs_def case_prod_beta nvs_open_def nvs_set_u32_def
        nvs_commit_def nvs_close_def platform_call_def durable_restart_entry_def
        split: if_splits sum.splits option.splits)

lemma healthy_save:
  assumes "healthy s" "nvs_flag_sound s"
  shows "fst (save_restart_counter_to_nvs v s) = ESP_OK"
  using healthy_ensure [OF assms]
  by (auto simp add: save_restart_counter_to_nvs_def case_prod_beta nvs_open_def nvs_set_u32_def
        nvs_commit_def nvs_close_def split: if_splits sum.splits option.splits)

section \<open>The events of the reboot sequences\<close>

lemma wifi_stop_step_frame [simp]:
  "partitions (snd (wifi_stop_step call tolerated rs)) = partitions (snd rs)"
  "wifi_config_shutdown_linked (snd (wifi_stop_step call tolerated rs)) = wifi_config_shutdown_linked (snd rs)"
  "faults (snd (wifi_stop_step call tolerated rs)) = faults (snd rs)"
  "running_partition (snd (wifi_stop_step call tolerated rs)) = running_partition (snd rs)"
  "rtc_magic (snd (wifi_stop_step call tolerated rs)) = rtc_magic (snd rs)"
  "rtc_reason (snd (wifi_stop_step call tolerated rs)) = rtc_reason (snd rs)"
  "rtc_restart_count (snd (wifi_stop_step call tolerated rs)) = rtc_restart_count (snd rs)"
  "s_wifi_on_ready_cb (snd (wifi_stop_step call tolerated rs)) = s_wifi_on_ready_cb (snd rs)"
  "s_wifi_started (snd (wifi_stop_step call tolerated rs)) = s_wifi_started (snd rs)"
  "s_wifi_netif (snd (wifi_stop_step call tolerated rs)) = s_wifi_netif (snd rs)"
  "homekit_started (snd (wifi_stop_step call tolerated rs)) = homekit_started (snd rs)"
  "nvs (snd (wifi_stop_step call tolerated rs)) = nvs (snd rs)"
  "nvs_ready (snd (wifi_stop_step call tolerated rs)) = nvs_ready (snd rs)"
  "s_nvs_initialized (snd (wifi_stop_step call tolerated rs)) = s_nvs_initialized (snd rs)"
  "trace (snd (wifi_stop_step call tolerated rs)) = trace (snd rs) @ [call]"
  by (simp_all add: wifi_stop_step_def case_prod_beta)

lemma wifi_stop_frame [simp]:
  "partitions (snd (wifi_stop s)) = partitions s"
  "wifi_config_shutdown_linked (snd (wifi_stop s)) = wifi_config_shutdown_linked s"
  "faults (snd (wifi_stop s)) = faults s"
  "running_partition (snd (wifi_stop s)) = running_partition s"
  "rtc_magic (snd (wifi_stop s)) = rtc_magic s"
  "rtc_reason (snd (wifi_stop s)) = rtc_reason s"
  "rtc_restart_count (snd (wifi_stop s)) = rtc_restart_count s"
  "nvs (snd (wifi_stop s)) = nvs s"
  "nvs_ready (snd (wifi_stop s)) = nvs_ready s"
  "s_nvs_initialized (snd (wifi_stop s)) = s_nvs_initialized s"
  "homekit_started (snd (wifi_stop s)) = homekit_started s"
  "trace (snd (wifi_stop s)) = trace s @ (if s_wifi_started s
       then [Esp_wifi_disconnect, Esp_wifi_stop, Esp_event_handler_unregister WIFI_EVENT,
             Esp_event_handler_unregister IP_EVENT, Esp_wifi_deinit] @
            (if s_wifi_netif s then [Esp_netif_destroy] else [])
       else [])"
  by (simp_all add: wifi_stop_def case_prod_beta Let_def)

lemma lifecycle_shutdown_homekit_frame [simp]:
  "partitions (lifecycle_shutdown_homekit reset_store s) = partitions s"
  "wifi_config_shutdown_linked (lifecycle_shutdown_homekit reset_store s) = wifi_config_shutdown_linked s"
  "faults (lifecycle_shutdown_homekit reset_store s) = faults s"
  "running_partition (lifecycle_shutdown_homekit reset_store s) = running_partition s"
  "rtc_magic (lifecycle_shutdown_homekit reset_store s) = rtc_magic s"
  "rtc_reason (lifecycle_shutdown_homekit reset_store s) = rtc_reason s"
  "rtc_restart_count (lifecycle_shutdown_homekit reset_store s) = rtc_restart_count s"
  "s_wifi_on_ready_cb (lifecycle_shutdown_homekit reset_store s) = s_wifi_on_ready_cb s"
  "s_wifi_started (lifecycle_shutdown_homekit reset_store s) = s_wifi_started s"
  "s_wifi_netif (lifecycle_shutdown_homekit reset_store s) = s_wifi_netif s"
  "homekit_started (lifecycle_shutdown_homekit reset_store s) = homekit_started s"
  "nvs (lifecycle_shutdown_homekit reset_store s) = nvs s"
  "nvs_ready (lifecycle_shutdown_homekit reset_store s) = nvs_ready s"
  "s_nvs_initialized (lifecycle_shutdown_homekit reset_store s) = s_nvs_initialized s"
  "trace (lifecycle_shutdown_homekit reset_store s) = trace s @ [LogStep ''stop_homekit'', LogStep ''wait_hap_clients'', TaskDelay 100, LogStep ''stop_mdns'',
        Mdns_service_remove, Mdns_free] @
       (if reset_store then [LogStep ''reset_homekit_store'', Homekit_server_reset] else [])"
  by (simp_all add: lifecycle_shutdown_homekit_def Let_def)

lemma lifecycle_stop_provisioning_servers_frame [simp]:
  "partitions (lifecycle_stop_provisioning_servers s) = partitions s"
  "wifi_config_shutdown_linked (lifecycle_stop_provisioning_servers s) = wifi_config_shutdown_linked s"
  "faults (lifecycle_stop_provisioning_servers s) = faults s"
  "running_partition (lifecycle_stop_provisioning_servers s) = running_partition s"
  "rtc_magic (lifecycle_stop_provisioning_servers s) = rtc_magic s"
  "rtc_reason (lifecycle_stop_provisioning_servers s) = rtc_reason s"
  "rtc_restart_count (lifecycle_stop_provisioning_servers s) = rtc_restart_count s"
  "s_wifi_on_ready_cb (lifecycle_stop_provisioning_servers s) = s_wifi_on_ready_cb s"
  "s_wifi_started (lifecycle_stop_provisioning_servers s) = s_wifi_started s"
  "s_wifi_netif (lifecycle_stop_provisioning_servers s) = s_wifi_netif s"
  "homekit_started (lifecycle_stop_provisioning_servers s) = homekit_started s"
  "nvs (lifecycle_stop_provisioning_servers s) = nvs s"
  "nvs_ready (lifecycle_stop_provisioning_servers s) = nvs_ready s"
  "s_nvs_initialized (lifecycle_stop_provisioning_servers s) = s_nvs_initialized s"
  "tick (lifecycle_stop_provisioning_servers s) = tick s"
  "trace (lifecycle_stop_provisioning_servers s) = trace s @ (if wifi_config_shutdown_linked s then [LogStep ''stop_provisioning'', Wifi_config_shutdown] else [])"
  by (simp_all add: lifecycle_stop_provisioning_servers_def)

lemma erase_otadata_partition_frame [simp]:
  "partitions (erase_otadata_partition s) = partitions s"
  "wifi_config_shutdown_linked (erase_otadata_partition s) = wifi_config_shutdown_linked s"
  "faults (erase_otadata_partition s) = faults s"
  "running_partition (erase_otadata_partition s) = running_partition s"
  "rtc_magic (erase_otadata_partition s) = rtc_magic s"
  "rtc_reason (erase_otadata_partition s) = rtc_reason s"
  "rtc_restart_count (erase_otadata_partition s) = rtc_restart_count s"
  "s_wifi_on_ready_cb (erase_otadata_partition s) = s_wifi_on_ready_cb s"
  "s_wifi_started (erase_otadata_partition s) = s_wifi_started s"
  "s_wifi_netif (erase_otadata_partition s) = s_wifi_netif s"
  "homekit_started (erase_otadata_partition s) = homekit_started s"
  "nvs (erase_otadata_partition s) = nvs s"
  "nvs_ready (erase_otadata_partition s) = nvs_ready s"
  "s_nvs_initialized (erase_otadata_partition s) = s_nvs_initialized s"
  "trace (erase_otadata_partition s) = trace s @ map Esp_partition_erase_range (otadata_partition s)"
  by (simp_all add: erase_otadata_partition_def otadata_partition_def split: option.splits)

lemma lifecycle_perform_common_shutdown_frame [simp]:
  "partitions (lifecycle_perform_common_shutdown reset_store s) = partitions s"
  "wifi_config_shutdown_linked (lifecycle_perform_common_shutdown reset_store s) = wifi_config_shutdown_linked s"
  "faults (lifecycle_perform_common_shutdown reset_store s) = faults s"
  "running_partition (lifecycle_perform_common_shutdown reset_store s) = running_partition s"
  "rtc_magic (lifecycle_perform_common_shutdown reset_store s) = rtc_magic s"
  "rtc_reason (lifecycle_perform_common_shutdown reset_store s) = rtc_reason s"
  "rtc_restart_count (lifecycle_perform_common_shutdown reset_store s) = rtc_restart_count s"
  "nvs (lifecycle_perform_common_shutdown reset_store s) = nvs s"
  "nvs_ready (lifecycle_perform_common_shutdown reset_store s) = nvs_ready s"
  "s_nvs_initialized (lifecycle_perform_common_shutdown reset_store s) = s_nvs_initialized s"
  "homekit_started (lifecycle_perform_common_shutdown reset_store s) = homekit_started s"
  "trace (lifecycle_perform_common_shutdown reset_store s) = trace s @ [LogStep ''stop_homekit'', LogStep ''wait_hap_clients'', TaskDelay 100, LogStep ''stop_mdns'',
        Mdns_service_remove, Mdns_free] @
       (if reset_store then [LogStep ''reset_homekit_store'', Homekit_server_reset] else []) @
       (if wifi_config_shutdown_linked s then [LogStep ''stop_provisioning'', Wifi_config_shutdown] else []) @
       [LogStep ''stop_wifi''] @
       (if s_wifi_started s
        then [Esp_wifi_disconnect, Esp_wifi_stop, Esp_event_handler_unregister WIFI_EVENT,
              Esp_event_handler_unregister IP_EVENT, Esp_wifi_deinit] @
             (if s_wifi_netif s then [Esp_netif_destroy] else [])
        else [])"
  by (simp_all add: lifecycle_perform_common_shutdown_def Let_def)

lemma select_factory_boot_frame [simp]:
  "partitions (snd (select_factory_boot reason flag_step s)) = partitions s"
  "wifi_config_shutdown_linked (snd (select_factory_boot reason flag_step s)) = wifi_config_shutdown_linked s"
  "faults (snd (select_factory_boot reason flag_step s)) = faults s"
  "running_partition (snd (select_factory_boot reason flag_step s)) = running_partition s"
  "rtc_restart_count (snd (select_factory_boot reason flag_step s)) = rtc_restart_count s"
  "s_wifi_on_ready_cb (snd (select_factory_boot reason flag_step s)) = s_wifi_on_ready_cb s"
  "s_wifi_started (snd (select_factory_boot reason flag_step s)) = s_wifi_started s"
  "s_wifi_netif (snd (select_factory_boot reason flag_step s)) = s_wifi_netif s"
  "homekit_started (snd (select_factory_boot reason flag_step s)) = homekit_started s"
  "nvs (snd (select_factory_boot reason flag_step s)) = nvs s"
  "nvs_ready (snd (select_factory_boot reason flag_step s)) = nvs_ready s"
  "s_nvs_initialized (snd (select_factory_boot reason flag_step s)) = s_nvs_initialized s"
  "trace (snd (select_factory_boot reason flag_step s)) = trace s @ (case esp_partition_find_first ESP_PARTITION_TYPE_APP ESP_PARTITION_SUBTYPE_APP_FACTORY s of
         None \<Rightarrow> []
       | Some factory \<Rightarrow>
           [LogStep ''set_boot=factory'', Esp_ota_set_boot_partition factory] @
           (if fst (select_factory_boot reason flag_step s) then [LogStep flag_step] else []))"
  by (simp_all add: select_factory_boot_def case_prod_beta split: option.splits)

lemma healthy_select_factory_boot:
  assumes "healthy s"
    and "esp_partition_find_first ESP_PARTITION_TYPE_APP ESP_PARTITION_SUBTYPE_APP_FACTORY s = Some factory"
  shows "fst (select_factory_boot reason flag_step s)"
    and "rtc_magic (snd (select_factory_boot reason flag_step s)) = k_post_reset_magic"
    and "rtc_reason (snd (select_factory_boot reason flag_step s)) = reason"
    and "boot_partition (snd (select_factory_boot reason flag_step s)) = Some factory"
  using assms
  by (simp_all add: select_factory_boot_def esp_ota_set_boot_partition_def platform_call_def
        healthy_def lifecycle_mark_post_reset_def lifecycle_log_step_def emit_def
        esp_partition_find_first_def)

text \<open>
  The erase loop on a live iterator: the first round reads the partition, advances the
  object, erases the partition when it matches, and frees the object that \<open>next\<close> still
  points to. With a single app partition \<open>esp_partition_next\<close> has freed it already and the
  release is a double free; otherwise the second round reads the freed object.
\<close>

lemma erase_ota_partition_loop_null:
  "erase_ota_partition_loop label None erased s = (Inr erased, s)"
  by (subst erase_ota_partition_loop.simps) simp

lemma erase_ota_partition_loop_freed:
  "iterators s a = None \<Longrightarrow>
     erase_ota_partition_loop label (Some a) erased s = (Inl Use_after_free, s)"
  by (subst erase_ota_partition_loop.simps) (simp add: esp_partition_get_def)

lemma erase_ota_partition_loop_live:
  assumes "iterators s a = Some obj"
  shows "erase_ota_partition_loop label (Some a) erased s =
     (Inl (if it_next_items obj = [] then Double_free else Use_after_free),
      (if erased_in_round label (it_info obj) = [] then s
       else snd (esp_partition_erase_range (it_info obj) s))\<lparr>iterators := (iterators s)(a := None)\<rparr>)"
proof (cases "it_next_items obj")
  case Nil
  then show ?thesis
    using assms
    by (subst erase_ota_partition_loop.simps)
       (simp add: esp_partition_get_def esp_partition_next_def esp_partition_iterator_release_def
          esp_partition_erase_range_def platform_call_def emit_def erased_in_round_def
          in_ota_range_def)
next
  case (Cons p ps)
  then show ?thesis
    using assms
    by (subst erase_ota_partition_loop.simps)
       (simp add: esp_partition_get_def esp_partition_next_def esp_partition_iterator_release_def
          esp_partition_erase_range_def platform_call_def emit_def erased_in_round_def
          in_ota_range_def erase_ota_partition_loop_freed)
qed

lemma erase_ota_partition_by_label_none:
  "app_partitions s = [] \<Longrightarrow> erase_ota_partition_by_label label s = (Inr False, s)"
  by (simp add: erase_ota_partition_by_label_def esp_partition_find_def app_partitions_def
        erase_ota_partition_loop_null)

lemma erase_ota_partition_by_label_some:
  assumes "app_partitions s = p # ps"
  shows "erase_ota_partition_by_label label s =
     (Inl (if ps = [] then Double_free else Use_after_free),
      (if erased_in_round label p = [] then s
       else snd (esp_partition_erase_range p s))
        \<lparr>iterators := (iterators s)(iterators_allocated s := None),
          iterators_allocated := Suc (iterators_allocated s)\<rparr>)"
proof -
  let ?a = "iterators_allocated s"
  let ?s1 = "s\<lparr>iterators := (iterators s)(?a \<mapsto> \<lparr>it_info = p, it_next_items = ps\<rparr>),
               iterators_allocated := Suc ?a\<rparr>"
  have found: "esp_partition_find ESP_PARTITION_TYPE_APP s = (Some ?a, ?s1)"
    using assms by (simp add: esp_partition_find_def app_partitions_def)
  have live: "iterators ?s1 ?a = Some \<lparr>it_info = p, it_next_items = ps\<rparr>"
    by simp
  show ?thesis
    unfolding erase_ota_partition_by_label_def found
    by (simp add: erase_ota_partition_loop_live [OF live] esp_partition_erase_range_def
          platform_call_def emit_def)
qed

lemma erase_ota_labels_loop_none:
  "app_partitions s = [] \<Longrightarrow> erase_ota_labels_loop ls any_erased s = (Inr any_erased, s)"
  by (induction ls arbitrary: any_erased) (simp_all add: erase_ota_partition_by_label_none)

lemma erase_ota_app_partitions_none:
  "app_partitions s = [] \<Longrightarrow> erase_ota_app_partitions s = (None, s)"
  by (simp add: erase_ota_app_partitions_def erase_ota_labels_loop_none
        del: erase_ota_labels_loop.simps)

lemma erase_ota_app_partitions_some:
  assumes "app_partitions s = p # ps"
  shows "erase_ota_app_partitions s =
     (Some (if ps = [] then Double_free else Use_after_free),
      (if erased_in_round ''ota_1'' p = [] then s
       else snd (esp_partition_erase_range p s))
        \<lparr>iterators := (iterators s)(iterators_allocated s := None),
          iterators_allocated := Suc (iterators_allocated s)\<rparr>)"
  by (simp add: erase_ota_app_partitions_def erase_ota_partition_by_label_some [OF assms])

lemma app_partitions_same_table:
  "partitions s' = partitions s \<Longrightarrow> app_partitions s' = app_partitions s"
  by (simp add: app_partitions_def)

lemma erase_ota_app_partitions_state:
  "erase_ota_app_partitions s =
     (case app_partitions s of
        [] \<Rightarrow> (None, s)
      | p # ps \<Rightarrow>
          (Some (if ps = [] then Double_free else Use_after_free),
           (if erased_in_round ''ota_1'' p = [] then s
            else snd (esp_partition_erase_range p s))
             \<lparr>iterators := (iterators s)(iterators_allocated s := None),
               iterators_allocated := Suc (iterators_allocated s)\<rparr>))"
  by (cases "app_partitions s")
     (simp_all only: erase_ota_app_partitions_none erase_ota_app_partitions_some list.case)

lemma erase_ota_app_partitions_frame [simp]:
  "partitions (snd (erase_ota_app_partitions s)) = partitions s"
  "wifi_config_shutdown_linked (snd (erase_ota_app_partitions s)) = wifi_config_shutdown_linked s"
  "faults (snd (erase_ota_app_partitions s)) = faults s"
  "running_partition (snd (erase_ota_app_partitions s)) = running_partition s"
  "rtc_magic (snd (erase_ota_app_partitions s)) = rtc_magic s"
  "rtc_reason (snd (erase_ota_app_partitions s)) = rtc_reason s"
  "rtc_restart_count (snd (erase_ota_app_partitions s)) = rtc_restart_count s"
  "nvs (snd (erase_ota_app_partitions s)) = nvs s"
  "nvs_ready (snd (erase_ota_app_partitions s)) = nvs_ready s"
  "s_nvs_initialized (snd (erase_ota_app_partitions s)) = s_nvs_initialized s"
  "boot_partition (snd (erase_ota_app_partitions s)) = boot_partition s"
  by (simp_all add: erase_ota_app_partitions_state esp_partition_erase_range_def
        platform_call_def emit_def split: list.splits)

lemma erase_ota_app_partitions_result:
  "fst (erase_ota_app_partitions s) =
     (case app_partitions s of
        [] \<Rightarrow> None
      | p # ps \<Rightarrow> Some (if ps = [] then Double_free else Use_after_free))"
  "trace (snd (erase_ota_app_partitions s)) =
     trace s @
     (case app_partitions s of
        [] \<Rightarrow> []
      | p # ps \<Rightarrow> map Esp_partition_erase_range (erased_in_round ''ota_1'' p))"
  by (auto simp add: erase_ota_app_partitions_state esp_partition_erase_range_def
        platform_call_def emit_def erased_in_round_def split: list.splits)

lemma clear_namespace_frames [simp]:
  "partitions (clear_lcm_namespace s) = partitions s"
  "wifi_config_shutdown_linked (clear_lcm_namespace s) = wifi_config_shutdown_linked s"
  "faults (clear_lcm_namespace s) = faults s"
  "rtc_restart_count (clear_lcm_namespace s) = rtc_restart_count s"
  "rtc_magic (clear_lcm_namespace s) = rtc_magic s"
  "rtc_reason (clear_lcm_namespace s) = rtc_reason s"
  "trace (clear_lcm_namespace s) = trace s"
  "partitions (clear_fwcfg_namespace s) = partitions s"
  "wifi_config_shutdown_linked (clear_fwcfg_namespace s) = wifi_config_shutdown_linked s"
  "faults (clear_fwcfg_namespace s) = faults s"
  "rtc_restart_count (clear_fwcfg_namespace s) = rtc_restart_count s"
  "rtc_magic (clear_fwcfg_namespace s) = rtc_magic s"
  "rtc_reason (clear_fwcfg_namespace s) = rtc_reason s"
  "trace (clear_fwcfg_namespace s) = trace s"
  by (simp_all add: clear_lcm_namespace_def clear_fwcfg_namespace_def)

lemma rtc_restart_count_reset [simp]:
  "rtc_restart_count (lifecycle_reset_restart_counter s) = 0"
  by (simp add: lifecycle_reset_restart_counter_def case_prod_beta)

text \<open>
  The events of a factory reset, from any state and under any failures: the steps up to
  \<open>erase_ota_apps\<close>, and then either the rest of the sequence, when the table has no app
  partition, or what the first round of the erase loop erases before the memory fault.
\<close>

lemma app_partitions_steps [simp]:
  "app_partitions (emit e s) = app_partitions s"
  "app_partitions (lifecycle_log_step step s) = app_partitions s"
  "app_partitions (lifecycle_reset_restart_counter s) = app_partitions s"
  "app_partitions (snd (select_factory_boot reason flag_step s)) = app_partitions s"
  "app_partitions (lifecycle_perform_common_shutdown reset_store s) = app_partitions s"
  "app_partitions (erase_wifi_credentials s) = app_partitions s"
  "app_partitions (clear_fwcfg_namespace s) = app_partitions s"
  "app_partitions (clear_lcm_namespace s) = app_partitions s"
  "app_partitions (erase_otadata_partition s) = app_partitions s"
  by (simp_all add: app_partitions_def)

lemma lifecycle_factory_reset_and_reboot_result:
  "fst (lifecycle_factory_reset_and_reboot s) =
     (case app_partitions s of
        [] \<Rightarrow> None
      | p # ps \<Rightarrow> Some (if ps = [] then Double_free else Use_after_free))"
  by (simp add: lifecycle_factory_reset_and_reboot_def Let_def case_prod_beta
        erase_ota_app_partitions_result split: option.splits list.splits)

lemma lifecycle_factory_reset_and_reboot_trace:
  "trace (snd (lifecycle_factory_reset_and_reboot s)) =
     trace s @ [LogFactoryResetStart] @
     (case esp_partition_find_first ESP_PARTITION_TYPE_APP ESP_PARTITION_SUBTYPE_APP_FACTORY s of
        None \<Rightarrow> []
      | Some factory \<Rightarrow>
          [LogStep ''set_boot=factory'', Esp_ota_set_boot_partition factory] @
          (if fst (select_factory_boot LIFECYCLE_POST_RESET_REASON_FACTORY ''set_post_reset_flag=factory''
                    (lifecycle_reset_restart_counter (emit LogFactoryResetStart s)))
           then [LogStep ''set_post_reset_flag=factory''] else [])) @
     [LogStep ''reset_homekit_store'', Homekit_server_reset,
      LogStep ''stop_homekit'', LogStep ''wait_hap_clients'', TaskDelay 100, LogStep ''stop_mdns'',
      Mdns_service_remove, Mdns_free] @
     (if wifi_config_shutdown_linked s then [LogStep ''stop_provisioning'', Wifi_config_shutdown] else []) @
     [LogStep ''stop_wifi''] @
     (if s_wifi_started s
      then [Esp_wifi_disconnect, Esp_wifi_stop, Esp_event_handler_unregister WIFI_EVENT,
            Esp_event_handler_unregister IP_EVENT, Esp_wifi_deinit] @
           (if s_wifi_netif s then [Esp_netif_destroy] else [])
      else []) @
     [LogStep ''erase_wifi_credentials'', LogStep ''clear_fw_config'', LogStep ''clear_lcm_state'',
      LogStep ''erase_otadata''] @
     map Esp_partition_erase_range (otadata_partition s) @
     [LogStep ''erase_ota_apps''] @
     (case app_partitions s of
        [] \<Rightarrow>
          [LogStep ''restore_wifi_defaults'', Esp_wifi_restore, LogStep ''erase_nvs_partition'',
           LogStep ''delay_before_reset'', TaskDelay 100, LogStep ''reboot'', Esp_restart]
      | p # ps \<Rightarrow> map Esp_partition_erase_range (erased_in_round ''ota_1'' p))"
proof (cases "app_partitions s")
  case Nil
  then show ?thesis
    by (simp add: lifecycle_factory_reset_and_reboot_def Let_def case_prod_beta
          erase_ota_app_partitions_none otadata_partition_def esp_partition_find_first_def)
next
  case (Cons p ps)
  then show ?thesis
    by (simp add: lifecycle_factory_reset_and_reboot_def Let_def case_prod_beta
          erase_ota_app_partitions_result otadata_partition_def esp_partition_find_first_def)
qed

lemma lifecycle_factory_reset_and_reboot_frame [simp]:
  "partitions (snd (lifecycle_factory_reset_and_reboot s)) = partitions s"
  "wifi_config_shutdown_linked (snd (lifecycle_factory_reset_and_reboot s)) = wifi_config_shutdown_linked s"
  "faults (snd (lifecycle_factory_reset_and_reboot s)) = faults s"
  "rtc_restart_count (snd (lifecycle_factory_reset_and_reboot s)) = 0"
  by (simp_all add: lifecycle_factory_reset_and_reboot_def Let_def case_prod_beta
        split: option.splits)

section \<open>The durable counter under failures\<close>

text \<open>
  Whatever fails, the durable counter after an operation is its old value, the value written,
  or 0 (after the recovery erase of the store).
\<close>

lemma durable_after_ensure:
  "durable_restart_count (snd (lifecycle_ensure_nvs_initialized s)) = 0 \<or>
   durable_restart_count (snd (lifecycle_ensure_nvs_initialized s)) = durable_restart_count s"
  by (simp add: lifecycle_ensure_nvs_initialized_def nvs_flash_init_def nvs_flash_erase_def
        nvs_init_finish_def platform_call_def durable_restart_count_def durable_restart_entry_def
        case_prod_beta)

lemma durable_after_open:
  "durable_restart_count (snd (nvs_open ns mode s)) = durable_restart_count s"
  by (simp add: nvs_open_def platform_call_def durable_restart_count_def durable_restart_entry_def
        split: option.splits)

lemma opened_view:
  "fst (nvs_open k_restart_counter_namespace mode s) = Inr h \<Longrightarrow>
     (case h_entries h k_restart_counter_key of Some (NVS_U32 v) \<Rightarrow> v | _ \<Rightarrow> 0) = durable_restart_count s"
  by (auto simp add: nvs_open_def platform_call_def durable_restart_count_def durable_restart_entry_def
        split: option.splits if_splits)

lemma loaded_value:
  "fst (snd (load_restart_counter_from_nvs s)) = 0 \<or>
   fst (snd (load_restart_counter_from_nvs s)) = durable_restart_count s"
proof -
  let ?e = "lifecycle_ensure_nvs_initialized s"
  let ?o = "nvs_open k_restart_counter_namespace NVS_READWRITE (snd ?e)"
  have read: "fst (nvs_get_u32 h k_restart_counter_key x) = Inr v \<Longrightarrow>
      (case h_entries h k_restart_counter_key of Some (NVS_U32 v) \<Rightarrow> v | _ \<Rightarrow> 0) = v" for h x v
    by (auto simp add: nvs_get_u32_def platform_call_def split: option.splits nvs_value.splits if_splits)
  have "fst (snd (load_restart_counter_from_nvs s)) = 0 \<or>
        fst (snd (load_restart_counter_from_nvs s)) = durable_restart_count (snd ?e)"
    using opened_view [of NVS_READWRITE "snd ?e"] read
    by (auto simp add: load_restart_counter_from_nvs_def case_prod_beta split: sum.splits)
  then show ?thesis
    using durable_after_ensure [of s] by auto
qed

lemma nvs_after_get_u32 [simp]:
  "nvs (snd (nvs_get_u32 h key s)) = nvs s"
  by (simp add: nvs_get_u32_def platform_call_def split: option.splits nvs_value.splits)

lemma durable_restart_count_same_store:
  "nvs a = nvs b \<Longrightarrow> durable_restart_count a = durable_restart_count b"
  by (simp add: durable_restart_count_def durable_restart_entry_def)

lemma durable_after_load:
  "durable_restart_count (snd (snd (load_restart_counter_from_nvs s))) = 0 \<or>
   durable_restart_count (snd (snd (load_restart_counter_from_nvs s))) = durable_restart_count s"
proof -
  let ?e = "lifecycle_ensure_nvs_initialized s"
  let ?o = "nvs_open k_restart_counter_namespace NVS_READWRITE (snd ?e)"
  have got: "durable_restart_count (nvs_close h (snd (nvs_get_u32 h k_restart_counter_key (snd ?o)))) =
      durable_restart_count (snd ?e)" for h
    using durable_after_open [of k_restart_counter_namespace NVS_READWRITE "snd ?e"]
          durable_restart_count_same_store
            [of "nvs_close h (snd (nvs_get_u32 h k_restart_counter_key (snd ?o)))" "snd ?o"]
    by simp
  have "durable_restart_count (snd (snd (load_restart_counter_from_nvs s))) =
        durable_restart_count (snd ?e)"
    using got durable_after_open [of k_restart_counter_namespace NVS_READWRITE "snd ?e"]
    by (simp add: load_restart_counter_from_nvs_def case_prod_beta split: sum.splits)
  then show ?thesis
    using durable_after_ensure [of s] by auto
qed

lemma durable_after_save:
  "durable_restart_count (snd (save_restart_counter_to_nvs v s)) = v \<or>
   durable_restart_count (snd (save_restart_counter_to_nvs v s)) = 0 \<or>
   durable_restart_count (snd (save_restart_counter_to_nvs v s)) = durable_restart_count s"
proof -
  let ?e = "lifecycle_ensure_nvs_initialized s"
  let ?o = "nvs_open k_restart_counter_namespace NVS_READWRITE (snd ?e)"
  have committed: "durable_restart_count (snd (nvs_commit h1 x)) = durable_restart_count x \<or>
      durable_restart_count (snd (nvs_commit h1 x)) = v"
    if "h_namespace h1 = k_restart_counter_namespace"
       "h_entries h1 k_restart_counter_key = Some (NVS_U32 v)" for h1 x
    using that
    by (simp add: nvs_commit_def platform_call_def durable_restart_count_def durable_restart_entry_def)
  have handle: "h_namespace h = k_restart_counter_namespace"
    if "fst ?o = Inr h" for h
    using that by (auto simp add: nvs_open_def platform_call_def split: if_splits option.splits)
  have written: "h_namespace (fst (snd (nvs_set_u32 h k_restart_counter_key v x))) = h_namespace h \<and>
      (fst (nvs_set_u32 h k_restart_counter_key v x) = ESP_OK \<longrightarrow>
         h_entries (fst (snd (nvs_set_u32 h k_restart_counter_key v x))) k_restart_counter_key =
           Some (NVS_U32 v)) \<and>
      nvs (snd (snd (nvs_set_u32 h k_restart_counter_key v x))) = nvs x" for h x
    by (simp add: nvs_set_u32_def platform_call_def)
  have "durable_restart_count (snd (save_restart_counter_to_nvs v s)) = v \<or>
        durable_restart_count (snd (save_restart_counter_to_nvs v s)) = durable_restart_count (snd ?e)"
  proof (cases "fst ?e = ESP_OK")
    case False
    then show ?thesis
      by (simp add: save_restart_counter_to_nvs_def case_prod_beta)
  next
    case True
    show ?thesis
    proof (cases "fst ?o")
      case (Inl err)
      then show ?thesis
        using True durable_after_open [of k_restart_counter_namespace NVS_READWRITE "snd ?e"]
        by (simp add: save_restart_counter_to_nvs_def case_prod_beta)
    next
      case (Inr h)
      let ?w = "nvs_set_u32 h k_restart_counter_key v (snd ?o)"
      have after_set: "durable_restart_count (snd (snd ?w)) = durable_restart_count (snd ?e)"
        using written [of h "snd ?o"]
              durable_restart_count_same_store [of "snd (snd ?w)" "snd ?o"]
              durable_after_open [of k_restart_counter_namespace NVS_READWRITE "snd ?e"]
        by simp
      show ?thesis
      proof (cases "fst ?w = ESP_OK")
        case False
        then show ?thesis
          using True Inr after_set
          by (simp add: save_restart_counter_to_nvs_def case_prod_beta nvs_close_def)
      next
        case ok: True
        have "h_namespace (fst (snd ?w)) = k_restart_counter_namespace"
          using written [of h "snd ?o"] handle [OF Inr] by simp
        moreover have "h_entries (fst (snd ?w)) k_restart_counter_key = Some (NVS_U32 v)"
          using written [of h "snd ?o"] ok by simp
        ultimately have "durable_restart_count (snd (nvs_commit (fst (snd ?w)) (snd (snd ?w)))) =
              durable_restart_count (snd (snd ?w)) \<or>
            durable_restart_count (snd (nvs_commit (fst (snd ?w)) (snd (snd ?w)))) = v"
          by (rule committed)
        then show ?thesis
          using True Inr ok after_set
          by (auto simp add: save_restart_counter_to_nvs_def case_prod_beta nvs_close_def)
      qed
    qed
  qed
  then show ?thesis
    using durable_after_ensure [of s] by auto
qed

section \<open>The restart counter\<close>

lemma UINT32_MAX_minus1: "UINT32_MAX = - 1"
  by (simp add: UINT32_MAX_def)

lemma unat_succ_below_max: "c \<noteq> UINT32_MAX \<Longrightarrow> unat (c + 1) = unat c + 1"
proof -
  assume "c \<noteq> UINT32_MAX"
  then have "1 + c \<noteq> 0"
    by (simp add: UINT32_MAX_minus1 add_eq_0_iff)
  then have "unat (1 + c) = Suc (unat c)"
    by (rule unatSuc)
  then show ?thesis
    by (simp add: add.commute)
qed

text \<open>
  Claim C3. Incrementing the restart counter at \<open>UINT32_MAX\<close> gives 1, because the counter
  is set to 0 before the increment; below \<open>UINT32_MAX\<close> it gives the value plus one, as
  unsigned numbers and without wrap-around. The result is never 0, and nothing else in the
  state changes.
\<close>

theorem increment_restart_counter_saturates_then_wraps:
  "(rtc_restart_count s = UINT32_MAX \<longrightarrow> fst (lifecycle_increment_restart_counter s) = 1) \<and>
   (rtc_restart_count s \<noteq> UINT32_MAX \<longrightarrow>
      fst (lifecycle_increment_restart_counter s) = rtc_restart_count s + 1 \<and>
      unat (fst (lifecycle_increment_restart_counter s)) = unat (rtc_restart_count s) + 1) \<and>
   fst (lifecycle_increment_restart_counter s) \<noteq> 0 \<and>
   snd (lifecycle_increment_restart_counter s) =
     s\<lparr>rtc_restart_count := fst (lifecycle_increment_restart_counter s)\<rparr>"
proof -
  have wrap: "rtc_restart_count s = UINT32_MAX \<Longrightarrow> fst (lifecycle_increment_restart_counter s) = 1"
    by (simp add: lifecycle_increment_restart_counter_def Let_def)
  have plain: "rtc_restart_count s \<noteq> UINT32_MAX \<Longrightarrow>
      fst (lifecycle_increment_restart_counter s) = rtc_restart_count s + 1"
    by (simp add: lifecycle_increment_restart_counter_def Let_def)
  have nonzero: "fst (lifecycle_increment_restart_counter s) \<noteq> 0"
  proof (cases "rtc_restart_count s = UINT32_MAX")
    case True
    then show ?thesis using wrap by simp
  next
    case False
    then have "unat (fst (lifecycle_increment_restart_counter s)) = unat (rtc_restart_count s) + 1"
      using plain unat_succ_below_max by simp
    then show ?thesis by (metis Suc_eq_plus1 nat.simps(3) unat_0)
  qed
  have state: "snd (lifecycle_increment_restart_counter s) =
     s\<lparr>rtc_restart_count := fst (lifecycle_increment_restart_counter s)\<rparr>"
    by (simp add: lifecycle_increment_restart_counter_def Let_def)
  show ?thesis
    using wrap plain nonzero state unat_succ_below_max by simp
qed

theorem increment_restart_counter_witness:
  "fst (lifecycle_increment_restart_counter (fresh_device\<lparr>rtc_restart_count := UINT32_MAX\<rparr>)) = 1 \<and>
   unat (fst (lifecycle_increment_restart_counter (fresh_device\<lparr>rtc_restart_count := 41\<rparr>))) = 42"
  using increment_restart_counter_saturates_then_wraps [of "fresh_device\<lparr>rtc_restart_count := UINT32_MAX\<rparr>"]
        increment_restart_counter_saturates_then_wraps [of "fresh_device\<lparr>rtc_restart_count := 41\<rparr>"]
  by (simp add: UINT32_MAX_def)

section \<open>The restart counter at boot\<close>

lemma reconcile_is_max: "(if r < p then p else r) = max r (p::u32)"
  by (auto simp add: max_def)

lemma count_after_load:
  "fst (lifecycle_log_post_reset_state_count s) =
     (let m = (if fst (load_restart_counter_from_nvs s) = ESP_OK
               then max (rtc_restart_count s) (fst (snd (load_restart_counter_from_nvs s)))
               else rtc_restart_count s)
      in if m = UINT32_MAX then 1 else m + 1)"
proof -
  let ?l = "load_restart_counter_from_nvs s"
  let ?s1 = "snd (snd ?l)"
  let ?s2 = "if fst ?l = ESP_OK
             then (if fst (snd ?l) > rtc_restart_count ?s1
                   then ?s1\<lparr>rtc_restart_count := fst (snd ?l)\<rparr> else ?s1)
             else ?s1"
  have reconciled: "rtc_restart_count ?s2 =
      (if fst ?l = ESP_OK then max (rtc_restart_count s) (fst (snd ?l)) else rtc_restart_count s)"
    using reconcile_is_max [of "rtc_restart_count s" "fst (snd ?l)"] by simp
  have inc: "fst (lifecycle_increment_restart_counter x) =
      (if rtc_restart_count x = UINT32_MAX then 1 else rtc_restart_count x + 1)" for x
    by (simp add: lifecycle_increment_restart_counter_def Let_def)
  have "fst (lifecycle_log_post_reset_state_count s) = fst (lifecycle_increment_restart_counter ?s2)"
    by (simp add: lifecycle_log_post_reset_state_count_def case_prod_beta Let_def)
  then show ?thesis
    unfolding inc reconciled by (simp add: Let_def)
qed

text \<open>
  Claim C2. On a boot where \<open>load_restart_counter_from_nvs\<close> returns \<open>ESP_OK\<close> with the
  value \<open>v\<close>, the counter the boot protocol reports is the maximum of the RTC counter and
  \<open>v\<close>, incremented by \<open>lifecycle_increment_restart_counter\<close>: the maximum plus one, and 1
  when the maximum is \<open>UINT32_MAX\<close> (the increment of claim C3). On a healthy platform the value read is the stored durable counter.
  When neither tier has a value (RTC counter 0, no durable entry) the reported counter is 1.
  The reported value is the one logged as \<open>consecutive_restart_count\<close> and the one left in
  the RTC counter.
\<close>

theorem boot_restart_count_is_max_plus_one:
  "(fst (load_restart_counter_from_nvs s) = ESP_OK \<longrightarrow>
      fst (lifecycle_log_post_reset_state_count s) =
        fst (lifecycle_increment_restart_counter
          (s\<lparr>rtc_restart_count :=
               max (rtc_restart_count s) (fst (snd (load_restart_counter_from_nvs s)))\<rparr>)) \<and>
      fst (lifecycle_log_post_reset_state_count s) =
        (let m = max (rtc_restart_count s) (fst (snd (load_restart_counter_from_nvs s)))
         in if m = UINT32_MAX then 1 else m + 1)) \<and>
   (healthy s \<and> nvs_flag_sound s \<and> durable_restart_entry s = Some (NVS_U32 v) \<longrightarrow>
      fst (load_restart_counter_from_nvs s) = ESP_OK \<and>
      fst (snd (load_restart_counter_from_nvs s)) = v \<and>
      fst (lifecycle_log_post_reset_state_count s) =
        (let m = max (rtc_restart_count s) (durable_restart_count s)
         in if m = UINT32_MAX then 1 else m + 1)) \<and>
   (healthy s \<and> nvs_flag_sound s \<and> durable_restart_entry s = None \<and> rtc_restart_count s = 0 \<longrightarrow>
      fst (load_restart_counter_from_nvs s) = ESP_OK \<and>
      fst (lifecycle_log_post_reset_state_count s) = 1) \<and>
   trace (snd (lifecycle_log_post_reset_state_count s)) =
     trace s @ [LogRestartCount (fst (lifecycle_log_post_reset_state_count s))] \<and>
   rtc_restart_count (snd (lifecycle_log_post_reset_state_count s)) =
     fst (lifecycle_log_post_reset_state_count s)"
proof -
  have general: "fst (lifecycle_log_post_reset_state_count s) =
        (let m = max (rtc_restart_count s) (fst (snd (load_restart_counter_from_nvs s)))
         in if m = UINT32_MAX then 1 else m + 1)"
    if "fst (load_restart_counter_from_nvs s) = ESP_OK"
    using that count_after_load [of s] by simp
  have stored: "fst (load_restart_counter_from_nvs s) = ESP_OK \<and>
      fst (snd (load_restart_counter_from_nvs s)) = v \<and>
      fst (lifecycle_log_post_reset_state_count s) =
        (let m = max (rtc_restart_count s) (durable_restart_count s)
         in if m = UINT32_MAX then 1 else m + 1)"
    if "healthy s" "nvs_flag_sound s" "durable_restart_entry s = Some (NVS_U32 v)"
  proof -
    have loaded: "fst (load_restart_counter_from_nvs s) = ESP_OK \<and>
        fst (snd (load_restart_counter_from_nvs s)) = v"
      using healthy_load(2) [OF that(1) that(2) that(3)] .
    have "durable_restart_count s = v"
      using that(3) by (simp add: durable_restart_count_def)
    then show ?thesis
      using loaded general by simp
  qed
  have first: "fst (load_restart_counter_from_nvs s) = ESP_OK \<and>
      fst (lifecycle_log_post_reset_state_count s) = 1"
    if "healthy s" "nvs_flag_sound s" "durable_restart_entry s = None" "rtc_restart_count s = 0"
  proof -
    have loaded: "fst (load_restart_counter_from_nvs s) = ESP_OK \<and>
        fst (snd (load_restart_counter_from_nvs s)) = 0"
      using healthy_load(1) [OF that(1) that(2) that(3)] .
    then show ?thesis
      using general that(4) by (simp add: UINT32_MAX_def)
  qed
  have logged: "trace (snd (lifecycle_log_post_reset_state_count s)) =
      trace s @ [LogRestartCount (fst (lifecycle_log_post_reset_state_count s))]"
    by simp
  have kept: "rtc_restart_count (snd (lifecycle_log_post_reset_state_count s)) =
      fst (lifecycle_log_post_reset_state_count s)"
    by simp
  have incremented: "fst (lifecycle_log_post_reset_state_count s) =
        fst (lifecycle_increment_restart_counter
          (s\<lparr>rtc_restart_count :=
               max (rtc_restart_count s) (fst (snd (load_restart_counter_from_nvs s)))\<rparr>))"
    if "fst (load_restart_counter_from_nvs s) = ESP_OK"
    using general [OF that] by (simp add: lifecycle_increment_restart_counter_def Let_def)
  show ?thesis
    using general incremented stored first logged kept by blast
qed

theorem boot_restart_count_witness:
  "fst (lifecycle_log_post_reset_state_count (cpu_reset fresh_device)) = 1 \<and>
   fst (load_restart_counter_from_nvs
         (fresh_device\<lparr>rtc_restart_count := 2,
            nvs := [''lcm'' \<mapsto> [''restart_count'' \<mapsto> NVS_U32 5]]\<rparr>)) = ESP_OK \<and>
   fst (lifecycle_log_post_reset_state_count
         (fresh_device\<lparr>rtc_restart_count := 2,
            nvs := [''lcm'' \<mapsto> [''restart_count'' \<mapsto> NVS_U32 5]]\<rparr>)) = 6 \<and>
   fst (lifecycle_log_post_reset_state_count
         (fresh_device\<lparr>rtc_restart_count := 7,
            nvs := [''lcm'' \<mapsto> [''restart_count'' \<mapsto> NVS_U32 5]]\<rparr>)) = 8"
proof -
  let ?a = "fresh_device\<lparr>rtc_restart_count := 2,
            nvs := [''lcm'' \<mapsto> [''restart_count'' \<mapsto> NVS_U32 5]]\<rparr>"
  let ?b = "fresh_device\<lparr>rtc_restart_count := 7,
            nvs := [''lcm'' \<mapsto> [''restart_count'' \<mapsto> NVS_U32 5]]\<rparr>"
  have fresh: "healthy (cpu_reset fresh_device) \<and> nvs_flag_sound (cpu_reset fresh_device) \<and>
      durable_restart_entry (cpu_reset fresh_device) = None \<and>
      rtc_restart_count (cpu_reset fresh_device) = 0"
    by (simp add: healthy_def nvs_flag_sound_def durable_restart_entry_def cpu_reset_def fresh_device_def)
  have a: "healthy ?a \<and> nvs_flag_sound ?a \<and> durable_restart_entry ?a = Some (NVS_U32 5) \<and>
      rtc_restart_count ?a = 2 \<and> durable_restart_count ?a = 5"
    by (simp add: healthy_def nvs_flag_sound_def durable_restart_entry_def durable_restart_count_def
          fresh_device_def k_restart_counter_namespace_def k_restart_counter_key_def)
  have b: "healthy ?b \<and> nvs_flag_sound ?b \<and> durable_restart_entry ?b = Some (NVS_U32 5) \<and>
      rtc_restart_count ?b = 7 \<and> durable_restart_count ?b = 5"
    by (simp add: healthy_def nvs_flag_sound_def durable_restart_entry_def durable_restart_count_def
          fresh_device_def k_restart_counter_namespace_def k_restart_counter_key_def)
  show ?thesis
    using boot_restart_count_is_max_plus_one [of "cpu_reset fresh_device" 0]
          boot_restart_count_is_max_plus_one [of ?a 5]
          boot_restart_count_is_max_plus_one [of ?b 5] fresh a b
    by (simp add: Let_def max_def word_le_nat_alt UINT32_MAX_def)
qed

section \<open>The crash-loop protocol\<close>

lemma countdown_loop_10:
  "countdown_loop 10 s =
     s\<lparr>trace := trace s @
        [LogFactoryResetIn 10, TaskDelay 1000, LogFactoryResetIn 9, TaskDelay 1000,
         LogFactoryResetIn 8, TaskDelay 1000, LogFactoryResetIn 7, TaskDelay 1000,
         LogFactoryResetIn 6, TaskDelay 1000, LogFactoryResetIn 5, TaskDelay 1000,
         LogFactoryResetIn 4, TaskDelay 1000, LogFactoryResetIn 3, TaskDelay 1000,
         LogFactoryResetIn 2, TaskDelay 1000, LogFactoryResetIn 1, TaskDelay 1000,
         LogFactoryResetIn 0, TaskDelay 1000]\<rparr>"
  by (simp add: countdown_loop.simps emit_def vTaskDelay_def)

lemma crash_loop_view_append [simp]:
  "crash_loop_view (xs @ ys) = crash_loop_view xs @ crash_loop_view ys"
  by (simp add: crash_loop_view_def)

lemma crash_loop_view_Cons [simp]:
  "crash_loop_view (e # es) = (if is_crash_loop_event e then e # crash_loop_view es else crash_loop_view es)"
  "crash_loop_view [] = []"
  by (simp_all add: crash_loop_view_def)

lemma crash_loop_view_erases [simp]: "crash_loop_view (map Esp_partition_erase_range ps) = []"
  by (induction ps) simp_all

lemma countdown_lines_append [simp]:
  "countdown_lines (xs @ ys) = countdown_lines xs @ countdown_lines ys"
  by (simp add: countdown_lines_def)

lemma countdown_lines_Cons [simp]:
  "countdown_lines (e # es) = countdown_line e @ countdown_lines es"
  "countdown_lines [] = []"
  by (simp_all add: countdown_lines_def)

lemma countdown_lines_erases [simp]: "countdown_lines (map Esp_partition_erase_range ps) = []"
  by (induction ps) simp_all

lemma count_start_erases [simp]:
  "count_list (map Esp_partition_erase_range ps) LogFactoryResetStart = 0"
  by (induction ps) simp_all

lemma factory_reset_views:
  "crash_loop_view (trace (snd (lifecycle_factory_reset_and_reboot s))) =
     crash_loop_view (trace s) @
     LogFactoryResetStart # (if app_partitions s = [] then [Esp_restart] else [])"
  "countdown_lines (trace (snd (lifecycle_factory_reset_and_reboot s))) = countdown_lines (trace s)"
  "count_list (trace (snd (lifecycle_factory_reset_and_reboot s))) LogFactoryResetStart =
     count_list (trace s) LogFactoryResetStart + 1"
  by (simp_all add: lifecycle_factory_reset_and_reboot_trace split: option.splits list.splits)

lemma app_partitions_protocol [simp]:
  "app_partitions (snd (lifecycle_log_post_reset_state_count s)) = app_partitions s"
  "app_partitions (countdown_loop 10 s) = app_partitions s"
  "app_partitions (snd (lifecycle_ensure_nvs_initialized s)) = app_partitions s"
  "app_partitions (cpu_reset s) = app_partitions s"
  "app_partitions (s\<lparr>trace := tr\<rparr>) = app_partitions s"
  "app_partitions (s\<lparr>rtc_restart_count := c\<rparr>) = app_partitions s"
  by (simp_all add: app_partitions_def countdown_loop_10)

lemma crash_loop_boot:
  assumes "10 \<le> fst (lifecycle_log_post_reset_state_count s)"
  shows "crash_loop_view (trace (snd (lifecycle_log_post_reset_state s))) =
     crash_loop_view (trace s) @
     [LogFactoryResetIn 10, TaskDelay 1000, LogFactoryResetIn 9, TaskDelay 1000,
      LogFactoryResetIn 8, TaskDelay 1000, LogFactoryResetIn 7, TaskDelay 1000,
      LogFactoryResetIn 6, TaskDelay 1000, LogFactoryResetIn 5, TaskDelay 1000,
      LogFactoryResetIn 4, TaskDelay 1000, LogFactoryResetIn 3, TaskDelay 1000,
      LogFactoryResetIn 2, TaskDelay 1000, LogFactoryResetIn 1, TaskDelay 1000,
      LogFactoryResetIn 0, TaskDelay 1000, LogFactoryResetStart] @
     (if app_partitions s = [] then [Esp_restart] else [])"
    and "countdown_lines (trace (snd (lifecycle_log_post_reset_state s))) =
     countdown_lines (trace s) @ [10, 9, 8, 7, 6, 5, 4, 3, 2, 1, 0]"
    and "count_list (trace (snd (lifecycle_log_post_reset_state s))) LogFactoryResetStart =
     count_list (trace s) LogFactoryResetStart + 1"
    and "rtc_restart_count (snd (lifecycle_log_post_reset_state s)) = 0"
    and "faults (snd (lifecycle_log_post_reset_state s)) = faults s"
    and "fst (lifecycle_log_post_reset_state s) =
     (case app_partitions s of
        [] \<Rightarrow> None
      | p # ps \<Rightarrow> Some (if ps = [] then Double_free else Use_after_free))"
  using assms
  by (simp_all add: lifecycle_log_post_reset_state_def case_prod_beta factory_reset_views
        countdown_loop_10 lifecycle_factory_reset_and_reboot_result)

lemma peek_after_count [simp]:
  "lifecycle_peek_post_reset_reason (snd (lifecycle_log_post_reset_state_count s)) =
     lifecycle_peek_post_reset_reason s"
  by (simp add: lifecycle_peek_post_reset_reason_def)

lemma normal_boot:
  assumes "\<not> 10 \<le> fst (lifecycle_log_post_reset_state_count s)"
  shows "trace (snd (lifecycle_log_post_reset_state s)) =
     trace s @ [LogRestartCount (fst (lifecycle_log_post_reset_state_count s)),
                LogPostResetFlag (reason_str (lifecycle_peek_post_reset_reason s))]"
    and "rtc_restart_count (snd (lifecycle_log_post_reset_state s)) =
     fst (lifecycle_log_post_reset_state_count s)"
    and "nvs (snd (lifecycle_log_post_reset_state s)) = nvs (snd (lifecycle_log_post_reset_state_count s))"
    and "faults (snd (lifecycle_log_post_reset_state s)) = faults s"
    and "fst (lifecycle_log_post_reset_state s) = None"
  using assms
  by (simp_all add: lifecycle_log_post_reset_state_def case_prod_beta Let_def)

lemma durable_restart_count_updates [simp]:
  "durable_restart_count (s\<lparr>rtc_restart_count := c\<rparr>) = durable_restart_count s"
  "durable_restart_count (emit e s) = durable_restart_count s"
  "durable_restart_count (lifecycle_schedule_restart_counter_timeout s) = durable_restart_count s"
  "durable_restart_count (snd (lifecycle_increment_restart_counter s)) = durable_restart_count s"
  "durable_restart_count (cpu_reset s) = durable_restart_count s"
  by (simp_all add: durable_restart_count_def durable_restart_entry_def)

lemma le_succ_below_max:
  fixes d r :: u32
  assumes "d \<le> r" "r \<noteq> UINT32_MAX"
  shows "d \<le> r + 1"
  using assms unat_succ_below_max [of r] by (simp add: word_le_nat_alt)

text \<open>
  A boot that starts with the durable counter at most the RTC counter reports the RTC counter
  plus one, whatever fails, and ends with the durable counter at most the reported one.
\<close>

lemma boot_count_with_stale_store:
  assumes stale: "durable_restart_count s \<le> rtc_restart_count s"
    and below: "rtc_restart_count s \<noteq> UINT32_MAX"
  shows "fst (lifecycle_log_post_reset_state_count s) = rtc_restart_count s + 1"
    and "durable_restart_count (snd (lifecycle_log_post_reset_state_count s)) \<le> rtc_restart_count s + 1"
proof -
  let ?l = "load_restart_counter_from_nvs s"
  have loaded: "fst (snd ?l) \<le> rtc_restart_count s"
    using loaded_value [of s] stale by auto
  then have "max (rtc_restart_count s) (fst (snd ?l)) = rtc_restart_count s"
    by (simp add: max_def)
  then show count: "fst (lifecycle_log_post_reset_state_count s) = rtc_restart_count s + 1"
    using count_after_load [of s] below by (simp add: Let_def)
  define s2 where "s2 = (if fst ?l = ESP_OK
             then (if fst (snd ?l) > rtc_restart_count (snd (snd ?l))
                   then (snd (snd ?l))\<lparr>rtc_restart_count := fst (snd ?l)\<rparr> else snd (snd ?l))
             else snd (snd ?l))"
  define s3 where "s3 = snd (lifecycle_increment_restart_counter s2)"
  define n where "n = fst (lifecycle_increment_restart_counter s2)"
  define d where "d = durable_restart_count (snd (save_restart_counter_to_nvs n s3))"
  have n: "n = rtc_restart_count s + 1"
    using count
    by (simp add: n_def s2_def lifecycle_log_post_reset_state_count_def case_prod_beta Let_def)
  have "durable_restart_count s2 = durable_restart_count (snd (snd ?l))"
    by (simp add: s2_def)
  then have before: "durable_restart_count s3 = 0 \<or> durable_restart_count s3 = durable_restart_count s"
    using durable_after_load [of s] by (simp add: s3_def)
  have after: "durable_restart_count (snd (lifecycle_log_post_reset_state_count s)) = d"
    by (simp add: d_def n_def s3_def s2_def lifecycle_log_post_reset_state_count_def
          case_prod_beta Let_def)
  have saved: "d = n \<or> d = 0 \<or> d = durable_restart_count s3"
    unfolding d_def by (rule durable_after_save)
  have "d \<le> rtc_restart_count s + 1"
    using saved before n le_succ_below_max [OF stale below] by auto
  then show "durable_restart_count (snd (lifecycle_log_post_reset_state_count s)) \<le> rtc_restart_count s + 1"
    using after by simp
qed

lemma unat_UINT32_MAX: "unat UINT32_MAX = 4294967295"
  by (simp add: UINT32_MAX_def)

text \<open>
  The durable counter never grows in a factory reset: whatever fails, each step leaves it as
  it is or brings it to 0.
\<close>

lemma opened_namespace:
  "fst (nvs_open ns mode s) = Inr h \<Longrightarrow> h_namespace h = ns"
  by (auto simp add: nvs_open_def platform_call_def split: if_splits option.splits)

lemma durable_after_commit:
  "h_namespace h \<noteq> k_restart_counter_namespace \<Longrightarrow>
     durable_restart_count (snd (nvs_commit h s)) = durable_restart_count s"
  "h_entries h = Map.empty \<Longrightarrow>
     durable_restart_count (snd (nvs_commit h s)) = 0 \<or>
     durable_restart_count (snd (nvs_commit h s)) = durable_restart_count s"
  by (simp_all add: nvs_commit_def platform_call_def durable_restart_count_def durable_restart_entry_def)

lemma erased_handle:
  "h_namespace (fst (snd (nvs_erase_key h key s))) = h_namespace h"
  "nvs (snd (snd (nvs_erase_key h key s))) = nvs s"
  "fst (nvs_erase_all h s) = ESP_OK \<Longrightarrow> h_entries (fst (snd (nvs_erase_all h s))) = Map.empty"
  "nvs (snd (snd (nvs_erase_all h s))) = nvs s"
  by (simp_all add: nvs_erase_key_def nvs_erase_all_def platform_call_def split: if_splits)

lemma durable_after_clear:
  "durable_restart_count (clear_nvs_namespace ns s) = 0 \<or>
   durable_restart_count (clear_nvs_namespace ns s) = durable_restart_count s"
proof -
  let ?e = "lifecycle_ensure_nvs_initialized s"
  let ?o = "nvs_open ns NVS_READWRITE (snd ?e)"
  have e: "durable_restart_count (snd ?e) = 0 \<or> durable_restart_count (snd ?e) = durable_restart_count s"
    by (rule durable_after_ensure)
  have o: "durable_restart_count (snd ?o) = durable_restart_count (snd ?e)"
    by (rule durable_after_open)
  show ?thesis
  proof (cases "fst ?e = ESP_OK")
    case False
    then have "clear_nvs_namespace ns s = snd ?e"
      by (simp add: clear_nvs_namespace_def case_prod_beta)
    then show ?thesis using e by simp
  next
    case True
    show ?thesis
    proof (cases "fst ?o")
      case (Inl err)
      then have "clear_nvs_namespace ns s = snd ?o"
        using True by (simp add: clear_nvs_namespace_def case_prod_beta)
      then show ?thesis using e o by simp
    next
      case (Inr h)
      let ?a = "nvs_erase_all h (snd ?o)"
      have same: "durable_restart_count (snd (snd ?a)) = durable_restart_count (snd ?o)"
        using erased_handle(4) [of h "snd ?o"] by (rule durable_restart_count_same_store)
      show ?thesis
      proof (cases "fst ?a = ESP_OK")
        case False
        then have "clear_nvs_namespace ns s = snd (snd ?a)"
          using True Inr by (simp add: clear_nvs_namespace_def case_prod_beta nvs_close_def)
        then show ?thesis using e o same by simp
      next
        case ok: True
        then have unfolded: "clear_nvs_namespace ns s = snd (nvs_commit (fst (snd ?a)) (snd (snd ?a)))"
          using True Inr by (simp add: clear_nvs_namespace_def case_prod_beta nvs_close_def)
        have "h_entries (fst (snd ?a)) = Map.empty"
          using ok by (rule erased_handle(3))
        then have "durable_restart_count (snd (nvs_commit (fst (snd ?a)) (snd (snd ?a)))) = 0 \<or>
            durable_restart_count (snd (nvs_commit (fst (snd ?a)) (snd (snd ?a)))) =
              durable_restart_count (snd (snd ?a))"
          by (rule durable_after_commit(2))
        then show ?thesis using unfolded e o same by auto
      qed
    qed
  qed
qed

lemma durable_after_erase_wifi:
  "durable_restart_count (erase_wifi_credentials s) = 0 \<or>
   durable_restart_count (erase_wifi_credentials s) = durable_restart_count s"
proof -
  let ?e = "lifecycle_ensure_nvs_initialized s"
  let ?o = "nvs_open ''wifi_cfg'' NVS_READWRITE (snd ?e)"
  have e: "durable_restart_count (snd ?e) = 0 \<or> durable_restart_count (snd ?e) = durable_restart_count s"
    by (rule durable_after_ensure)
  have o: "durable_restart_count (snd ?o) = durable_restart_count (snd ?e)"
    by (rule durable_after_open)
  show ?thesis
  proof (cases "fst ?e = ESP_OK")
    case False
    then have "erase_wifi_credentials s = snd ?e"
      by (simp add: erase_wifi_credentials_def case_prod_beta)
    then show ?thesis using e by simp
  next
    case True
    show ?thesis
    proof (cases "fst ?o")
      case (Inl err)
      then have "erase_wifi_credentials s = snd ?o"
        using True by (simp add: erase_wifi_credentials_def case_prod_beta)
      then show ?thesis using e o by simp
    next
      case (Inr h)
      let ?a = "nvs_erase_key h ''wifi_ssid'' (snd ?o)"
      let ?b = "nvs_erase_key (fst (snd ?a)) ''wifi_password'' (snd (snd ?a))"
      have unfolded: "erase_wifi_credentials s = snd (nvs_commit (fst (snd ?b)) (snd (snd ?b)))"
        using True Inr by (simp add: erase_wifi_credentials_def case_prod_beta nvs_close_def)
      have "h_namespace (fst (snd ?b)) = ''wifi_cfg''"
        using opened_namespace [OF Inr] by (simp add: erased_handle(1))
      then have "h_namespace (fst (snd ?b)) \<noteq> k_restart_counter_namespace"
        by (simp add: k_restart_counter_namespace_def)
      then have "durable_restart_count (snd (nvs_commit (fst (snd ?b)) (snd (snd ?b)))) =
          durable_restart_count (snd (snd ?b))"
        by (rule durable_after_commit(1))
      moreover have "durable_restart_count (snd (snd ?b)) = durable_restart_count (snd ?o)"
        by (rule durable_restart_count_same_store) (simp add: erased_handle(2))
      ultimately show ?thesis using unfolded e o by auto
    qed
  qed
qed

lemma durable_after_erase_nvs:
  "durable_restart_count (erase_nvs_partition s) = 0 \<or>
   durable_restart_count (erase_nvs_partition s) = durable_restart_count s"
  by (simp add: erase_nvs_partition_def nvs_flash_deinit_def nvs_flash_erase_def
        lifecycle_log_step_def emit_def Let_def
        platform_call_def durable_restart_count_def durable_restart_entry_def)

lemma durable_after_reset_counter:
  "durable_restart_count (lifecycle_reset_restart_counter s) = 0 \<or>
   durable_restart_count (lifecycle_reset_restart_counter s) = durable_restart_count s"
  using durable_after_save [of 0 "s\<lparr>rtc_restart_count := 0\<rparr>"]
  by (simp add: lifecycle_reset_restart_counter_def case_prod_beta)

lemma durable_zero_kept [simp]:
  "durable_restart_count s = 0 \<Longrightarrow> durable_restart_count (clear_nvs_namespace ns s) = 0"
  "durable_restart_count s = 0 \<Longrightarrow> durable_restart_count (erase_wifi_credentials s) = 0"
  "durable_restart_count s = 0 \<Longrightarrow> durable_restart_count (erase_nvs_partition s) = 0"
  "durable_restart_count s = 0 \<Longrightarrow> durable_restart_count (lifecycle_reset_restart_counter s) = 0"
  using durable_after_clear [of ns s] durable_after_erase_wifi [of s] durable_after_erase_nvs [of s]
        durable_after_reset_counter [of s]
  by auto

lemma durable_restart_count_steps [simp]:
  "durable_restart_count (lifecycle_log_step step s) = durable_restart_count s"
  "durable_restart_count (vTaskDelay ms s) = durable_restart_count s"
  "durable_restart_count (snd (select_factory_boot reason flag_step s)) = durable_restart_count s"
  "durable_restart_count (lifecycle_perform_common_shutdown reset_store s) = durable_restart_count s"
  "durable_restart_count (erase_otadata_partition s) = durable_restart_count s"
  "durable_restart_count (snd (erase_ota_app_partitions s)) = durable_restart_count s"
  "durable_restart_count (snd (stack_call e s)) = durable_restart_count s"
  "durable_restart_count (s\<lparr>trace := tr\<rparr>) = durable_restart_count s"
  by (simp_all add: durable_restart_count_def durable_restart_entry_def)

lemma durable_zero_factory_reset:
  "durable_restart_count s = 0 \<Longrightarrow>
     durable_restart_count (snd (lifecycle_factory_reset_and_reboot s)) = 0"
  by (simp add: lifecycle_factory_reset_and_reboot_def Let_def case_prod_beta
        clear_fwcfg_namespace_def clear_lcm_namespace_def split: option.splits)

text \<open>One boot of a device on a healthy platform, after either kind of reset.\<close>

lemma reset_frame [simp]:
  "faults (reset kind s) = faults s"
  "nvs (reset kind s) = nvs s"
  "trace (reset kind s) = trace s"
  "partitions (reset kind s) = partitions s"
  "s_nvs_initialized (reset kind s) = False"
  "durable_restart_count (reset kind s) = durable_restart_count s"
  "app_partitions (reset kind s) = app_partitions s"
  "rtc_restart_count (reset Warm_reset s) = rtc_restart_count s"
  "rtc_restart_count (reset Power_cycle s) = 0"
  by (simp_all add: reset_def power_cycle_def cpu_reset_def durable_restart_count_def
        durable_restart_entry_def app_partitions_def split: reset_kind.splits)

lemma healthy_same_faults: "faults a = faults b \<Longrightarrow> healthy a = healthy b"
  by (simp add: healthy_def)

lemma flags_kept [simp]:
  "nvs_ready (snd (nvs_open ns mode s)) = nvs_ready s"
  "s_nvs_initialized (snd (nvs_open ns mode s)) = s_nvs_initialized s"
  "nvs_ready (snd (nvs_get_u32 h key s)) = nvs_ready s"
  "s_nvs_initialized (snd (nvs_get_u32 h key s)) = s_nvs_initialized s"
  "nvs_ready (snd (nvs_commit h s)) = nvs_ready s"
  "s_nvs_initialized (snd (nvs_commit h s)) = s_nvs_initialized s"
  by (simp_all add: nvs_open_def nvs_get_u32_def nvs_commit_def platform_call_def
        split: option.splits nvs_value.splits)

lemma initialised_load:
  assumes "s_nvs_initialized s" "nvs_ready s"
  shows "s_nvs_initialized (snd (snd (load_restart_counter_from_nvs s)))"
    and "nvs_ready (snd (snd (load_restart_counter_from_nvs s)))"
  using assms
  by (simp_all add: load_restart_counter_from_nvs_def lifecycle_ensure_nvs_initialized_def
        case_prod_beta nvs_close_def split: sum.splits)

lemma initialised_save:
  assumes "s_nvs_initialized s" "nvs_ready s"
  shows "s_nvs_initialized (snd (save_restart_counter_to_nvs v s))"
    and "nvs_ready (snd (save_restart_counter_to_nvs v s))"
  using assms
  by (simp_all add: save_restart_counter_to_nvs_def lifecycle_ensure_nvs_initialized_def
        case_prod_beta nvs_close_def split: sum.splits)

lemma healthy_load_reconciled:
  assumes "healthy s" "nvs_flag_sound s"
  shows "(if fst (load_restart_counter_from_nvs s) = ESP_OK
          then max (rtc_restart_count s) (fst (snd (load_restart_counter_from_nvs s)))
          else rtc_restart_count s) =
         max (rtc_restart_count s) (durable_restart_count s)"
proof (cases "durable_restart_entry s")
  case None
  then show ?thesis
    using healthy_load(1) [OF assms None] by (simp add: durable_restart_count_def)
next
  case (Some e)
  show ?thesis
  proof (cases e)
    case (NVS_U32 v)
    then show ?thesis
      using healthy_load(2) [OF assms, of v] Some by (simp add: durable_restart_count_def)
  next
    case (NVS_U8 v)
    then have "durable_restart_count s = 0"
      using Some by (simp add: durable_restart_count_def)
    then show ?thesis
      using loaded_value [of s] by (auto simp add: max_def)
  next
    case (NVS_STR v)
    then have "durable_restart_count s = 0"
      using Some by (simp add: durable_restart_count_def)
    then show ?thesis
      using loaded_value [of s] by (auto simp add: max_def)
  qed
qed

lemma healthy_count:
  assumes "healthy s" "s_nvs_initialized s" "nvs_ready s"
  shows "fst (lifecycle_log_post_reset_state_count s) =
     (let m = max (rtc_restart_count s) (durable_restart_count s)
      in if m = UINT32_MAX then 1 else m + 1)"
    and "durable_restart_count (snd (lifecycle_log_post_reset_state_count s)) =
     fst (lifecycle_log_post_reset_state_count s)"
    and "s_nvs_initialized (snd (lifecycle_log_post_reset_state_count s))"
    and "nvs_ready (snd (lifecycle_log_post_reset_state_count s))"
proof -
  let ?l = "load_restart_counter_from_nvs s"
  have sound: "nvs_flag_sound s"
    using assms by (simp add: nvs_flag_sound_def)
  show "fst (lifecycle_log_post_reset_state_count s) =
     (let m = max (rtc_restart_count s) (durable_restart_count s)
      in if m = UINT32_MAX then 1 else m + 1)"
    using count_after_load [of s] healthy_load_reconciled [OF assms(1) sound] by simp
  define s2 where "s2 = (if fst ?l = ESP_OK
             then (if fst (snd ?l) > rtc_restart_count (snd (snd ?l))
                   then (snd (snd ?l))\<lparr>rtc_restart_count := fst (snd ?l)\<rparr> else snd (snd ?l))
             else snd (snd ?l))"
  define s3 where "s3 = snd (lifecycle_increment_restart_counter s2)"
  define n where "n = fst (lifecycle_increment_restart_counter s2)"
  have flags2: "s_nvs_initialized s2 \<and> nvs_ready s2"
    using initialised_load [OF assms(2) assms(3)] by (simp add: s2_def)
  then have flags3: "s_nvs_initialized s3" "nvs_ready s3"
    by (simp_all add: s3_def)
  have "faults s2 = faults s"
    by (simp add: s2_def)
  then have "faults s3 = faults s"
    by (simp add: s3_def)
  then have healthy3: "healthy s3"
    using assms(1) healthy_same_faults by blast
  have sound3: "nvs_flag_sound s3"
    using flags3 by (simp add: nvs_flag_sound_def)
  have n: "fst (lifecycle_log_post_reset_state_count s) = n"
    by (simp add: n_def s2_def lifecycle_log_post_reset_state_count_def case_prod_beta Let_def)
  have after: "nvs (snd (lifecycle_log_post_reset_state_count s)) =
      nvs (snd (save_restart_counter_to_nvs n s3))"
    by (simp add: n_def s3_def s2_def lifecycle_log_post_reset_state_count_def
          case_prod_beta Let_def)
  have "durable_restart_entry (snd (save_restart_counter_to_nvs n s3)) = Some (NVS_U32 n)"
    using healthy_save [OF healthy3 sound3, of n] by (rule save_ok_stores)
  then have "durable_restart_count (snd (save_restart_counter_to_nvs n s3)) = n"
    by (simp add: durable_restart_count_def)
  then show "durable_restart_count (snd (lifecycle_log_post_reset_state_count s)) =
     fst (lifecycle_log_post_reset_state_count s)"
    using durable_restart_count_same_store [OF after] n by simp
  have "s_nvs_initialized (snd (lifecycle_log_post_reset_state_count s)) =
      s_nvs_initialized (snd (save_restart_counter_to_nvs n s3))"
    by (simp add: n_def s3_def s2_def lifecycle_log_post_reset_state_count_def
          case_prod_beta Let_def)
  then show "s_nvs_initialized (snd (lifecycle_log_post_reset_state_count s))"
    using initialised_save(1) [OF flags3] by simp
  have "nvs_ready (snd (lifecycle_log_post_reset_state_count s)) =
      nvs_ready (snd (save_restart_counter_to_nvs n s3))"
    by (simp add: n_def s3_def s2_def lifecycle_log_post_reset_state_count_def
          case_prod_beta Let_def)
  then show "nvs_ready (snd (lifecycle_log_post_reset_state_count s))"
    using initialised_save(2) [OF flags3] by simp
qed

lemma healthy_nvs_init:
  assumes "healthy s"
  shows "fst (lifecycle_nvs_init (reset kind s)) = ESP_OK"
    and "s_nvs_initialized (snd (lifecycle_nvs_init (reset kind s)))"
    and "nvs_ready (snd (lifecycle_nvs_init (reset kind s)))"
    and "healthy (snd (lifecycle_nvs_init (reset kind s)))"
    and "durable_restart_count (snd (lifecycle_nvs_init (reset kind s))) = durable_restart_count s"
proof -
  have h: "healthy (reset kind s)"
    using assms healthy_same_faults [of "reset kind s" s] by simp
  have sound: "nvs_flag_sound (reset kind s)"
    by (simp add: nvs_flag_sound_def)
  show "fst (lifecycle_nvs_init (reset kind s)) = ESP_OK"
    and "s_nvs_initialized (snd (lifecycle_nvs_init (reset kind s)))"
    and "nvs_ready (snd (lifecycle_nvs_init (reset kind s)))"
    and "healthy (snd (lifecycle_nvs_init (reset kind s)))"
    using healthy_ensure [OF h sound] by (simp_all add: lifecycle_nvs_init_def)
  have "nvs (snd (lifecycle_nvs_init (reset kind s))) = nvs (reset kind s)"
    using healthy_ensure(4) [OF h sound] by (simp add: lifecycle_nvs_init_def)
  then have "durable_restart_count (snd (lifecycle_nvs_init (reset kind s))) =
      durable_restart_count (reset kind s)"
    by (rule durable_restart_count_same_store)
  then show "durable_restart_count (snd (lifecycle_nvs_init (reset kind s))) = durable_restart_count s"
    by simp
qed

lemma lifecycle_nvs_init_frame [simp]:
  "rtc_restart_count (snd (lifecycle_nvs_init s)) = rtc_restart_count s"
  "trace (snd (lifecycle_nvs_init s)) = trace s"
  "faults (snd (lifecycle_nvs_init s)) = faults s"
  "app_partitions (snd (lifecycle_nvs_init s)) = app_partitions s"
  by (simp_all add: lifecycle_nvs_init_def)

lemma rtc_after_reset:
  "rtc_restart_count (reset kind s) = rtc_restart_count s \<or> rtc_restart_count (reset kind s) = 0"
  by (cases kind) simp_all

lemma healthy_boot_count:
  assumes "healthy s" "durable_restart_count s = rtc_restart_count s"
    and "rtc_restart_count s \<noteq> UINT32_MAX"
  shows "fst (lifecycle_log_post_reset_state_count (snd (lifecycle_nvs_init (reset kind s)))) =
     rtc_restart_count s + 1"
proof -
  let ?s1 = "snd (lifecycle_nvs_init (reset kind s))"
  have "rtc_restart_count ?s1 = rtc_restart_count s \<or> rtc_restart_count ?s1 = 0"
    using rtc_after_reset [of kind s] by simp
  then have "max (rtc_restart_count ?s1) (durable_restart_count ?s1) = rtc_restart_count s"
    using healthy_nvs_init(5) [OF assms(1), of kind] assms(2) by (auto simp add: max_def)
  then show ?thesis
    using healthy_count(1) [OF healthy_nvs_init(4) [OF assms(1)] healthy_nvs_init(2) [OF assms(1)]
            healthy_nvs_init(3) [OF assms(1)], of kind] assms(3)
    by (simp add: Let_def)
qed

lemma app_main_ran:
  assumes "fst (lifecycle_nvs_init s) = ESP_OK"
  shows "snd (app_main s) = snd (lifecycle_log_post_reset_state (snd (lifecycle_nvs_init s)))"
    and "\<not> is_aborted (fst (app_main s))"
    and "fst (lifecycle_log_post_reset_state (snd (lifecycle_nvs_init s))) = None \<Longrightarrow>
           fst (app_main s) = Protocol_done"
  using assms by (simp_all add: app_main_def case_prod_beta split: option.splits)

lemma app_main_not_aborted:
  "\<not> is_aborted (fst (app_main s)) \<Longrightarrow> fst (lifecycle_nvs_init s) = ESP_OK"
  by (auto simp add: app_main_def case_prod_beta split: if_splits option.splits)

lemma healthy_boot_below_threshold:
  assumes h: "healthy s" and eq: "durable_restart_count s = rtc_restart_count s"
    and k: "unat (rtc_restart_count s) = k" "k < 9"
  shows "healthy (snd (app_main (reset kind s)))"
    and "unat (rtc_restart_count (snd (app_main (reset kind s)))) = Suc k"
    and "durable_restart_count (snd (app_main (reset kind s))) =
           rtc_restart_count (snd (app_main (reset kind s)))"
    and "count_list (trace (snd (app_main (reset kind s)))) LogFactoryResetStart =
           count_list (trace s) LogFactoryResetStart"
    and "fst (app_main (reset kind s)) = Protocol_done"
proof -
  let ?s1 = "snd (lifecycle_nvs_init (reset kind s))"
  let ?c = "lifecycle_log_post_reset_state_count ?s1"
  have below: "rtc_restart_count s \<noteq> UINT32_MAX"
    using k unat_UINT32_MAX by auto
  have count: "fst ?c = rtc_restart_count s + 1"
    using healthy_boot_count [OF h eq below] .
  have counted: "unat (fst ?c) = Suc k"
    using count k unat_succ_below_max [of "rtc_restart_count s"] below by simp
  then have normal: "\<not> 10 \<le> fst ?c"
    using k by (simp add: word_le_nat_alt)
  have ran: "snd (app_main (reset kind s)) = snd (lifecycle_log_post_reset_state ?s1)"
    using healthy_nvs_init(1) [OF h] by (rule app_main_ran(1))
  have "faults (snd (app_main (reset kind s))) = faults s"
    unfolding ran using normal_boot(4) [OF normal] by simp
  then show "healthy (snd (app_main (reset kind s)))"
    using h healthy_same_faults by blast
  show rtc: "unat (rtc_restart_count (snd (app_main (reset kind s)))) = Suc k"
    unfolding ran using normal_boot(2) [OF normal] counted by simp
  have "durable_restart_count (snd (lifecycle_log_post_reset_state ?s1)) =
      durable_restart_count (snd ?c)"
    using normal_boot(3) [OF normal] by (rule durable_restart_count_same_store)
  then show "durable_restart_count (snd (app_main (reset kind s))) =
           rtc_restart_count (snd (app_main (reset kind s)))"
    unfolding ran
    using healthy_count(2) [OF healthy_nvs_init(4) [OF h] healthy_nvs_init(2) [OF h]
            healthy_nvs_init(3) [OF h], of kind] normal_boot(2) [OF normal]
    by simp
  show "count_list (trace (snd (app_main (reset kind s)))) LogFactoryResetStart =
           count_list (trace s) LogFactoryResetStart"
    unfolding ran using normal_boot(1) [OF normal] by simp
  show "fst (app_main (reset kind s)) = Protocol_done"
    using app_main_ran(3) [OF healthy_nvs_init(1) [OF h] normal_boot(5) [OF normal]] .
qed

lemma healthy_boot_at_threshold:
  assumes h: "healthy s" and eq: "durable_restart_count s = rtc_restart_count s"
    and nine: "unat (rtc_restart_count s) = 9"
  shows "rtc_restart_count (snd (app_main (reset kind s))) = 0"
    and "durable_restart_count (snd (app_main (reset kind s))) = 0"
    and "count_list (trace (snd (app_main (reset kind s)))) LogFactoryResetStart =
           count_list (trace s) LogFactoryResetStart + 1"
    and "\<not> is_aborted (fst (app_main (reset kind s)))"
proof -
  let ?s1 = "snd (lifecycle_nvs_init (reset kind s))"
  let ?c = "lifecycle_log_post_reset_state_count ?s1"
  let ?x = "(countdown_loop 10 (emit LogCrashLoopDetected (snd ?c)))\<lparr>rtc_restart_count := 0\<rparr>"
  have below: "rtc_restart_count s \<noteq> UINT32_MAX"
    using nine unat_UINT32_MAX by auto
  have count: "fst ?c = rtc_restart_count s + 1"
    using healthy_boot_count [OF h eq below] .
  have "unat (fst ?c) = unat (10 :: u32)"
    using count nine unat_succ_below_max [of "rtc_restart_count s"] below by simp
  then have "fst ?c = 10"
    by (simp only: word_unat_eq_iff)
  then have loop: "10 \<le> fst ?c"
    by simp
  have ran: "snd (app_main (reset kind s)) = snd (lifecycle_log_post_reset_state ?s1)"
    using healthy_nvs_init(1) [OF h] by (rule app_main_ran(1))
  show "rtc_restart_count (snd (app_main (reset kind s))) = 0"
    unfolding ran using crash_loop_boot(4) [OF loop] .
  show "count_list (trace (snd (app_main (reset kind s)))) LogFactoryResetStart =
           count_list (trace s) LogFactoryResetStart + 1"
    unfolding ran using crash_loop_boot(3) [OF loop] by simp
  show "\<not> is_aborted (fst (app_main (reset kind s)))"
    using healthy_nvs_init(1) [OF h] by (rule app_main_ran(2))
  have flags: "s_nvs_initialized ?x" "nvs_ready ?x"
    using healthy_count(3,4) [OF healthy_nvs_init(4) [OF h] healthy_nvs_init(2) [OF h]
            healthy_nvs_init(3) [OF h], of kind]
    by (simp_all add: countdown_loop_10)
  then have sound: "nvs_flag_sound ?x"
    by (simp add: nvs_flag_sound_def)
  have "faults ?x = faults s"
    by (simp add: countdown_loop_10)
  then have healthy: "healthy ?x"
    using h healthy_same_faults by blast
  have "durable_restart_entry (snd (save_restart_counter_to_nvs 0 ?x)) = Some (NVS_U32 0)"
    using healthy_save [OF healthy sound, of 0] by (rule save_ok_stores)
  then have "durable_restart_count (snd (save_restart_counter_to_nvs 0 ?x)) = 0"
    by (simp add: durable_restart_count_def)
  then have "durable_restart_count
      (lifecycle_reset_restart_counter (countdown_loop 10 (emit LogCrashLoopDetected (snd ?c)))) = 0"
    by (simp add: lifecycle_reset_restart_counter_def case_prod_beta)
  then have "durable_restart_count (snd (lifecycle_factory_reset_and_reboot
      (lifecycle_reset_restart_counter (countdown_loop 10 (emit LogCrashLoopDetected (snd ?c)))))) = 0"
    by (rule durable_zero_factory_reset)
  then show "durable_restart_count (snd (app_main (reset kind s))) = 0"
    unfolding ran using loop by (simp add: lifecycle_log_post_reset_state_def case_prod_beta)
qed

text \<open>
  One boot after a reset that keeps RTC memory, under any failures of the store, as long as
  the boot is not aborted.
\<close>

lemma kept_boot_count:
  assumes stale: "durable_restart_count s \<le> rtc_restart_count s"
    and below: "rtc_restart_count s \<noteq> UINT32_MAX"
  shows "fst (lifecycle_log_post_reset_state_count (snd (lifecycle_nvs_init (reset Warm_reset s)))) =
           rtc_restart_count s + 1"
    and "durable_restart_count (snd (lifecycle_log_post_reset_state_count
            (snd (lifecycle_nvs_init (reset Warm_reset s))))) \<le> rtc_restart_count s + 1"
proof -
  let ?s1 = "snd (lifecycle_nvs_init (reset Warm_reset s))"
  have "durable_restart_count ?s1 = 0 \<or> durable_restart_count ?s1 = durable_restart_count s"
    using durable_after_ensure [of "reset Warm_reset s"] by (simp add: lifecycle_nvs_init_def)
  then have stale1: "durable_restart_count ?s1 \<le> rtc_restart_count ?s1"
    using stale by auto
  have below1: "rtc_restart_count ?s1 \<noteq> UINT32_MAX"
    using below by simp
  show "fst (lifecycle_log_post_reset_state_count ?s1) = rtc_restart_count s + 1"
    using boot_count_with_stale_store(1) [OF stale1 below1] by simp
  show "durable_restart_count (snd (lifecycle_log_post_reset_state_count ?s1)) \<le> rtc_restart_count s + 1"
    using boot_count_with_stale_store(2) [OF stale1 below1] by simp
qed

lemma kept_boot_below_threshold:
  assumes stale: "durable_restart_count s \<le> rtc_restart_count s"
    and k: "unat (rtc_restart_count s) = k" "k < 9"
    and ran: "\<not> is_aborted (fst (app_main (reset Warm_reset s)))"
  shows "unat (rtc_restart_count (snd (app_main (reset Warm_reset s)))) = Suc k"
    and "durable_restart_count (snd (app_main (reset Warm_reset s))) \<le>
           rtc_restart_count (snd (app_main (reset Warm_reset s)))"
    and "count_list (trace (snd (app_main (reset Warm_reset s)))) LogFactoryResetStart =
           count_list (trace s) LogFactoryResetStart"
proof -
  let ?s1 = "snd (lifecycle_nvs_init (reset Warm_reset s))"
  let ?c = "lifecycle_log_post_reset_state_count ?s1"
  have below: "rtc_restart_count s \<noteq> UINT32_MAX"
    using k unat_UINT32_MAX by auto
  have count: "fst ?c = rtc_restart_count s + 1"
    using kept_boot_count(1) [OF stale below] .
  have kept: "durable_restart_count (snd ?c) \<le> rtc_restart_count s + 1"
    using kept_boot_count(2) [OF stale below] .
  have counted: "unat (fst ?c) = Suc k"
    using count k unat_succ_below_max [of "rtc_restart_count s"] below by simp
  then have normal: "\<not> 10 \<le> fst ?c"
    using k by (simp add: word_le_nat_alt)
  have started: "snd (app_main (reset Warm_reset s)) = snd (lifecycle_log_post_reset_state ?s1)"
    using app_main_not_aborted [OF ran] by (rule app_main_ran(1))
  show "unat (rtc_restart_count (snd (app_main (reset Warm_reset s)))) = Suc k"
    unfolding started using normal_boot(2) [OF normal] counted by simp
  have "durable_restart_count (snd (lifecycle_log_post_reset_state ?s1)) =
      durable_restart_count (snd ?c)"
    using normal_boot(3) [OF normal] by (rule durable_restart_count_same_store)
  then show "durable_restart_count (snd (app_main (reset Warm_reset s))) \<le>
           rtc_restart_count (snd (app_main (reset Warm_reset s)))"
    unfolding started using kept count normal_boot(2) [OF normal] by simp
  show "count_list (trace (snd (app_main (reset Warm_reset s)))) LogFactoryResetStart =
           count_list (trace s) LogFactoryResetStart"
    unfolding started using normal_boot(1) [OF normal] by simp
qed

lemma kept_boot_at_threshold:
  assumes stale: "durable_restart_count s \<le> rtc_restart_count s"
    and nine: "unat (rtc_restart_count s) = 9"
    and ran: "\<not> is_aborted (fst (app_main (reset Warm_reset s)))"
  shows "rtc_restart_count (snd (app_main (reset Warm_reset s))) = 0"
    and "count_list (trace (snd (app_main (reset Warm_reset s)))) LogFactoryResetStart =
           count_list (trace s) LogFactoryResetStart + 1"
proof -
  let ?s1 = "snd (lifecycle_nvs_init (reset Warm_reset s))"
  let ?c = "lifecycle_log_post_reset_state_count ?s1"
  have below: "rtc_restart_count s \<noteq> UINT32_MAX"
    using nine unat_UINT32_MAX by auto
  have count: "fst ?c = rtc_restart_count s + 1"
    using kept_boot_count(1) [OF stale below] .
  have "unat (fst ?c) = unat (10 :: u32)"
    using count nine unat_succ_below_max [of "rtc_restart_count s"] below by simp
  then have "fst ?c = 10"
    by (simp only: word_unat_eq_iff)
  then have loop: "10 \<le> fst ?c"
    by simp
  have started: "snd (app_main (reset Warm_reset s)) = snd (lifecycle_log_post_reset_state ?s1)"
    using app_main_not_aborted [OF ran] by (rule app_main_ran(1))
  show "rtc_restart_count (snd (app_main (reset Warm_reset s))) = 0"
    unfolding started using crash_loop_boot(4) [OF loop] .
  show "count_list (trace (snd (app_main (reset Warm_reset s)))) LogFactoryResetStart =
           count_list (trace s) LogFactoryResetStart + 1"
    unfolding started using crash_loop_boot(3) [OF loop] by simp
qed

text \<open>Boots in a row.\<close>

lemma consecutive_boots_Nil [simp]: "consecutive_boots [] s = ([], s)"
  by (simp add: consecutive_boots_def)

lemma consecutive_boots_snoc:
  "consecutive_boots (kinds @ [kind]) s =
     (fst (consecutive_boots kinds s) @ [fst (app_main (reset kind (snd (consecutive_boots kinds s))))],
      snd (app_main (reset kind (snd (consecutive_boots kinds s)))))"
  by (simp add: consecutive_boots_def boot_def case_prod_beta)

lemma healthy_boots_below_threshold:
  assumes "healthy s" "rtc_restart_count s = 0" "durable_restart_count s = 0"
  shows "length kinds \<le> 9 \<Longrightarrow>
     healthy (snd (consecutive_boots kinds s)) \<and>
     durable_restart_count (snd (consecutive_boots kinds s)) =
       rtc_restart_count (snd (consecutive_boots kinds s)) \<and>
     unat (rtc_restart_count (snd (consecutive_boots kinds s))) = length kinds \<and>
     count_list (trace (snd (consecutive_boots kinds s))) LogFactoryResetStart =
       count_list (trace s) LogFactoryResetStart \<and>
     (\<forall>outcome \<in> set (fst (consecutive_boots kinds s)). \<not> is_aborted outcome)"
proof (induction kinds rule: rev_induct)
  case Nil
  then show ?case using assms by simp
next
  case (snoc kind kinds)
  let ?x = "snd (consecutive_boots kinds s)"
  have IH: "healthy ?x" "durable_restart_count ?x = rtc_restart_count ?x"
      "unat (rtc_restart_count ?x) = length kinds"
      "count_list (trace ?x) LogFactoryResetStart = count_list (trace s) LogFactoryResetStart"
      "\<forall>outcome \<in> set (fst (consecutive_boots kinds s)). \<not> is_aborted outcome"
    using snoc by simp_all
  have k: "length kinds < 9"
    using snoc.prems by simp
  show ?case
    using healthy_boot_below_threshold [OF IH(1) IH(2) IH(3) k, of kind] IH(4) IH(5)
    by (simp add: consecutive_boots_snoc)
qed

lemma healthy_ten_boots:
  assumes "healthy s" "rtc_restart_count s = 0" "durable_restart_count s = 0"
    and "length kinds = 10"
  shows "count_list (trace (snd (consecutive_boots kinds s))) LogFactoryResetStart =
           count_list (trace s) LogFactoryResetStart + 1"
    and "rtc_restart_count (snd (consecutive_boots kinds s)) = 0"
    and "durable_restart_count (snd (consecutive_boots kinds s)) = 0"
    and "\<forall>outcome \<in> set (fst (consecutive_boots kinds s)). \<not> is_aborted outcome"
proof -
  obtain ks kind where split: "kinds = ks @ [kind]"
    using assms(4) by (cases kinds rule: rev_cases) auto
  then have nine: "length ks \<le> 9" "length ks = 9"
    using assms(4) by simp_all
  let ?x = "snd (consecutive_boots ks s)"
  have before: "healthy ?x" "durable_restart_count ?x = rtc_restart_count ?x"
      "unat (rtc_restart_count ?x) = 9"
      "count_list (trace ?x) LogFactoryResetStart = count_list (trace s) LogFactoryResetStart"
      "\<forall>outcome \<in> set (fst (consecutive_boots ks s)). \<not> is_aborted outcome"
    using healthy_boots_below_threshold [OF assms(1) assms(2) assms(3) nine(1)] nine(2) by simp_all
  show "count_list (trace (snd (consecutive_boots kinds s))) LogFactoryResetStart =
           count_list (trace s) LogFactoryResetStart + 1"
    unfolding split
    using healthy_boot_at_threshold(3) [OF before(1) before(2) before(3), of kind] before(4)
    by (simp add: consecutive_boots_snoc)
  show "rtc_restart_count (snd (consecutive_boots kinds s)) = 0"
    unfolding split
    using healthy_boot_at_threshold(1) [OF before(1) before(2) before(3), of kind]
    by (simp add: consecutive_boots_snoc)
  show "durable_restart_count (snd (consecutive_boots kinds s)) = 0"
    unfolding split
    using healthy_boot_at_threshold(2) [OF before(1) before(2) before(3), of kind]
    by (simp add: consecutive_boots_snoc)
  show "\<forall>outcome \<in> set (fst (consecutive_boots kinds s)). \<not> is_aborted outcome"
    unfolding split
    using healthy_boot_at_threshold(4) [OF before(1) before(2) before(3), of kind] before(5)
    by (simp add: consecutive_boots_snoc)
qed

lemma replicate_snoc: "replicate (Suc n) x = replicate n x @ [x]"
  by (simp add: replicate_append_same)

lemma kept_boots_below_threshold:
  assumes "rtc_restart_count s = 0" "durable_restart_count s = 0"
  shows "n \<le> 9 \<Longrightarrow>
     \<forall>outcome \<in> set (fst (consecutive_boots (replicate n Warm_reset) s)). \<not> is_aborted outcome \<Longrightarrow>
     unat (rtc_restart_count (snd (consecutive_boots (replicate n Warm_reset) s))) = n \<and>
     durable_restart_count (snd (consecutive_boots (replicate n Warm_reset) s)) \<le>
       rtc_restart_count (snd (consecutive_boots (replicate n Warm_reset) s)) \<and>
     count_list (trace (snd (consecutive_boots (replicate n Warm_reset) s))) LogFactoryResetStart =
       count_list (trace s) LogFactoryResetStart"
proof (induction n)
  case 0
  then show ?case using assms by simp
next
  case (Suc n)
  let ?x = "snd (consecutive_boots (replicate n Warm_reset) s)"
  have ran: "\<not> is_aborted (fst (app_main (reset Warm_reset ?x)))"
    and before: "\<forall>outcome \<in> set (fst (consecutive_boots (replicate n Warm_reset) s)). \<not> is_aborted outcome"
    using Suc.prems(2) unfolding replicate_snoc consecutive_boots_snoc by simp_all
  have IH: "unat (rtc_restart_count ?x) = n" "durable_restart_count ?x \<le> rtc_restart_count ?x"
      "count_list (trace ?x) LogFactoryResetStart = count_list (trace s) LogFactoryResetStart"
    using Suc.IH before Suc.prems(1) by simp_all
  have k: "n < 9"
    using Suc.prems(1) by simp
  show ?case
    unfolding replicate_snoc consecutive_boots_snoc
    using kept_boot_below_threshold [OF IH(2) IH(1) k ran] IH(3) by simp
qed

lemma kept_ten_boots:
  assumes "rtc_restart_count s = 0" "durable_restart_count s = 0"
    and "\<forall>outcome \<in> set (fst (consecutive_boots (replicate 10 Warm_reset) s)). \<not> is_aborted outcome"
  shows "count_list (trace (snd (consecutive_boots (replicate 10 Warm_reset) s))) LogFactoryResetStart =
           count_list (trace s) LogFactoryResetStart + 1"
    and "rtc_restart_count (snd (consecutive_boots (replicate 10 Warm_reset) s)) = 0"
proof -
  let ?x = "snd (consecutive_boots (replicate 9 Warm_reset) s)"
  have ten: "replicate 10 Warm_reset = replicate 9 Warm_reset @ [Warm_reset]"
    using replicate_snoc [of 9 Warm_reset] by simp
  have ran: "\<not> is_aborted (fst (app_main (reset Warm_reset ?x)))"
    and before: "\<forall>outcome \<in> set (fst (consecutive_boots (replicate 9 Warm_reset) s)). \<not> is_aborted outcome"
    using assms(3) unfolding ten consecutive_boots_snoc by simp_all
  have nine: "unat (rtc_restart_count ?x) = 9" "durable_restart_count ?x \<le> rtc_restart_count ?x"
      "count_list (trace ?x) LogFactoryResetStart = count_list (trace s) LogFactoryResetStart"
    using kept_boots_below_threshold [OF assms(1) assms(2), of 9] before by simp_all
  show "count_list (trace (snd (consecutive_boots (replicate 10 Warm_reset) s))) LogFactoryResetStart =
           count_list (trace s) LogFactoryResetStart + 1"
    unfolding ten consecutive_boots_snoc
    using kept_boot_at_threshold(2) [OF nine(2) nine(1) ran] nine(3) by simp
  show "rtc_restart_count (snd (consecutive_boots (replicate 10 Warm_reset) s)) = 0"
    unfolding ten consecutive_boots_snoc
    using kept_boot_at_threshold(1) [OF nine(2) nine(1) ran] by simp
qed

lemma example_crash_loop_count:
  "fst (lifecycle_log_post_reset_state_count (fresh_device\<lparr>rtc_restart_count := 9\<rparr>)) = 10"
proof -
  have "durable_restart_count (fresh_device\<lparr>rtc_restart_count := 9\<rparr>) \<le>
      rtc_restart_count (fresh_device\<lparr>rtc_restart_count := 9\<rparr>)"
    by (simp add: durable_restart_count_def durable_restart_entry_def fresh_device_def)
  moreover have "rtc_restart_count (fresh_device\<lparr>rtc_restart_count := 9\<rparr>) \<noteq> UINT32_MAX"
    by (simp add: UINT32_MAX_def)
  ultimately have "fst (lifecycle_log_post_reset_state_count (fresh_device\<lparr>rtc_restart_count := 9\<rparr>)) =
      rtc_restart_count (fresh_device\<lparr>rtc_restart_count := 9\<rparr>) + 1"
    by (rule boot_count_with_stale_store(1))
  then show ?thesis by simp
qed

lemma crash_loop_invocation:
  assumes "10 \<le> fst (lifecycle_log_post_reset_state_count s)"
  shows "\<exists>s'. lifecycle_log_post_reset_state s =
            lifecycle_factory_reset_and_reboot (lifecycle_reset_restart_counter s') \<and>
          rtc_restart_count (lifecycle_reset_restart_counter s') = 0 \<and>
          trace (lifecycle_reset_restart_counter s') = trace s' \<and>
          trace s' = trace s @
            LogRestartCount (fst (lifecycle_log_post_reset_state_count s)) # LogCrashLoopDetected #
            [LogFactoryResetIn 10, TaskDelay 1000, LogFactoryResetIn 9, TaskDelay 1000,
         LogFactoryResetIn 8, TaskDelay 1000, LogFactoryResetIn 7, TaskDelay 1000,
         LogFactoryResetIn 6, TaskDelay 1000, LogFactoryResetIn 5, TaskDelay 1000,
         LogFactoryResetIn 4, TaskDelay 1000, LogFactoryResetIn 3, TaskDelay 1000,
         LogFactoryResetIn 2, TaskDelay 1000, LogFactoryResetIn 1, TaskDelay 1000,
         LogFactoryResetIn 0, TaskDelay 1000]"
proof -
  let ?s' = "countdown_loop 10 (emit LogCrashLoopDetected (snd (lifecycle_log_post_reset_state_count s)))"
  have "lifecycle_log_post_reset_state s =
      lifecycle_factory_reset_and_reboot (lifecycle_reset_restart_counter ?s')"
    using assms by (simp add: lifecycle_log_post_reset_state_def case_prod_beta)
  moreover have "rtc_restart_count (lifecycle_reset_restart_counter ?s') = 0"
    by simp
  moreover have "trace (lifecycle_reset_restart_counter ?s') = trace ?s'"
    by simp
  moreover have "trace ?s' = trace s @
            LogRestartCount (fst (lifecycle_log_post_reset_state_count s)) # LogCrashLoopDetected #
            [LogFactoryResetIn 10, TaskDelay 1000, LogFactoryResetIn 9, TaskDelay 1000,
         LogFactoryResetIn 8, TaskDelay 1000, LogFactoryResetIn 7, TaskDelay 1000,
         LogFactoryResetIn 6, TaskDelay 1000, LogFactoryResetIn 5, TaskDelay 1000,
         LogFactoryResetIn 4, TaskDelay 1000, LogFactoryResetIn 3, TaskDelay 1000,
         LogFactoryResetIn 2, TaskDelay 1000, LogFactoryResetIn 1, TaskDelay 1000,
         LogFactoryResetIn 0, TaskDelay 1000]"
    by (simp add: countdown_loop_10)
  ultimately show ?thesis
    by blast
qed

text \<open>
  Claim C1, as the code has it. On a boot where the reconciled and incremented restart
  counter is at least 10, the boot protocol logs the counter and the detection, then a
  countdown of eleven lines, from \<open>Factory reset in 10\<close> down to \<open>Factory reset in 0\<close>, each
  followed by a delay of one second; then it runs \<open>lifecycle_reset_restart_counter\<close>, the
  reset-counter procedure, and calls \<open>lifecycle_factory_reset_and_reboot\<close> on the state that
  leaves, whose RTC counter is 0 and whose trace holds nothing else. The post-reset reason is
  not reported on such a boot; on every other boot it is reported after the check, right
  after the counter. What the boot shows of the factory reset is its first line; the reboot
  follows only on a partition table without an app partition, because the erase of the OTA
  slots otherwise stops at a memory fault.

  Ten boots in a row, each \<open>app_main\<close> after a reset and with nothing between them, starting
  with both counters at 0, call the factory reset exactly once, on the tenth boot and on none
  of the nine before, and the RTC counter is 0 afterwards. This holds on a healthy platform
  for any ten resets, warm or power cycle, and there the durable counter is 0 afterwards as
  well; and it holds under any failures of the store for ten warm resets, as long as none of
  the boots is aborted by the \<open>ESP_ERROR_CHECK\<close> on \<open>lifecycle_nvs_init\<close>.
\<close>

theorem crash_loop_triggers_factory_reset:
  "(10 \<le> fst (lifecycle_log_post_reset_state_count s) \<longrightarrow>
      (\<exists>s'. lifecycle_log_post_reset_state s =
              lifecycle_factory_reset_and_reboot (lifecycle_reset_restart_counter s') \<and>
            rtc_restart_count (lifecycle_reset_restart_counter s') = 0 \<and>
            trace (lifecycle_reset_restart_counter s') = trace s' \<and>
            trace s' = trace s @
              LogRestartCount (fst (lifecycle_log_post_reset_state_count s)) # LogCrashLoopDetected #
              [LogFactoryResetIn 10, TaskDelay 1000, LogFactoryResetIn 9, TaskDelay 1000,
           LogFactoryResetIn 8, TaskDelay 1000, LogFactoryResetIn 7, TaskDelay 1000,
           LogFactoryResetIn 6, TaskDelay 1000, LogFactoryResetIn 5, TaskDelay 1000,
           LogFactoryResetIn 4, TaskDelay 1000, LogFactoryResetIn 3, TaskDelay 1000,
           LogFactoryResetIn 2, TaskDelay 1000, LogFactoryResetIn 1, TaskDelay 1000,
           LogFactoryResetIn 0, TaskDelay 1000]) \<and>
      crash_loop_view (trace (snd (lifecycle_log_post_reset_state s))) =
        crash_loop_view (trace s) @
        [LogFactoryResetIn 10, TaskDelay 1000, LogFactoryResetIn 9, TaskDelay 1000,
         LogFactoryResetIn 8, TaskDelay 1000, LogFactoryResetIn 7, TaskDelay 1000,
         LogFactoryResetIn 6, TaskDelay 1000, LogFactoryResetIn 5, TaskDelay 1000,
         LogFactoryResetIn 4, TaskDelay 1000, LogFactoryResetIn 3, TaskDelay 1000,
         LogFactoryResetIn 2, TaskDelay 1000, LogFactoryResetIn 1, TaskDelay 1000,
         LogFactoryResetIn 0, TaskDelay 1000, LogFactoryResetStart] @
        (if app_partitions s = [] then [Esp_restart] else []) \<and>
      countdown_lines (trace (snd (lifecycle_log_post_reset_state s))) =
        countdown_lines (trace s) @ [10, 9, 8, 7, 6, 5, 4, 3, 2, 1, 0] \<and>
      count_list (trace (snd (lifecycle_log_post_reset_state s))) LogFactoryResetStart =
        count_list (trace s) LogFactoryResetStart + 1 \<and>
      rtc_restart_count (snd (lifecycle_log_post_reset_state s)) = 0) \<and>
   (\<not> 10 \<le> fst (lifecycle_log_post_reset_state_count s) \<longrightarrow>
      fst (lifecycle_log_post_reset_state s) = None \<and>
      trace (snd (lifecycle_log_post_reset_state s)) =
        trace s @ [LogRestartCount (fst (lifecycle_log_post_reset_state_count s)),
                   LogPostResetFlag (reason_str (lifecycle_peek_post_reset_reason s))]) \<and>
   (healthy s \<and> rtc_restart_count s = 0 \<and> durable_restart_count s = 0 \<longrightarrow>
      (length kinds \<le> 9 \<longrightarrow>
         count_list (trace (snd (consecutive_boots kinds s))) LogFactoryResetStart =
           count_list (trace s) LogFactoryResetStart) \<and>
      (length kinds = 10 \<longrightarrow>
         count_list (trace (snd (consecutive_boots kinds s))) LogFactoryResetStart =
           count_list (trace s) LogFactoryResetStart + 1 \<and>
         rtc_restart_count (snd (consecutive_boots kinds s)) = 0 \<and>
         durable_restart_count (snd (consecutive_boots kinds s)) = 0)) \<and>
   (rtc_restart_count s = 0 \<and> durable_restart_count s = 0 \<and>
    (\<forall>outcome \<in> set (fst (consecutive_boots (replicate n Warm_reset) s)). \<not> is_aborted outcome) \<longrightarrow>
      (n \<le> 9 \<longrightarrow>
         count_list (trace (snd (consecutive_boots (replicate n Warm_reset) s))) LogFactoryResetStart =
           count_list (trace s) LogFactoryResetStart) \<and>
      (n = 10 \<longrightarrow>
         count_list (trace (snd (consecutive_boots (replicate n Warm_reset) s))) LogFactoryResetStart =
           count_list (trace s) LogFactoryResetStart + 1 \<and>
         rtc_restart_count (snd (consecutive_boots (replicate n Warm_reset) s)) = 0))"
proof -
  have loop: "(\<exists>s'. lifecycle_log_post_reset_state s =
              lifecycle_factory_reset_and_reboot (lifecycle_reset_restart_counter s') \<and>
            rtc_restart_count (lifecycle_reset_restart_counter s') = 0 \<and>
            trace (lifecycle_reset_restart_counter s') = trace s' \<and>
            trace s' = trace s @
              LogRestartCount (fst (lifecycle_log_post_reset_state_count s)) # LogCrashLoopDetected #
              [LogFactoryResetIn 10, TaskDelay 1000, LogFactoryResetIn 9, TaskDelay 1000,
           LogFactoryResetIn 8, TaskDelay 1000, LogFactoryResetIn 7, TaskDelay 1000,
           LogFactoryResetIn 6, TaskDelay 1000, LogFactoryResetIn 5, TaskDelay 1000,
           LogFactoryResetIn 4, TaskDelay 1000, LogFactoryResetIn 3, TaskDelay 1000,
           LogFactoryResetIn 2, TaskDelay 1000, LogFactoryResetIn 1, TaskDelay 1000,
           LogFactoryResetIn 0, TaskDelay 1000]) \<and>
      crash_loop_view (trace (snd (lifecycle_log_post_reset_state s))) =
        crash_loop_view (trace s) @
        [LogFactoryResetIn 10, TaskDelay 1000, LogFactoryResetIn 9, TaskDelay 1000,
         LogFactoryResetIn 8, TaskDelay 1000, LogFactoryResetIn 7, TaskDelay 1000,
         LogFactoryResetIn 6, TaskDelay 1000, LogFactoryResetIn 5, TaskDelay 1000,
         LogFactoryResetIn 4, TaskDelay 1000, LogFactoryResetIn 3, TaskDelay 1000,
         LogFactoryResetIn 2, TaskDelay 1000, LogFactoryResetIn 1, TaskDelay 1000,
         LogFactoryResetIn 0, TaskDelay 1000, LogFactoryResetStart] @
        (if app_partitions s = [] then [Esp_restart] else []) \<and>
      countdown_lines (trace (snd (lifecycle_log_post_reset_state s))) =
        countdown_lines (trace s) @ [10, 9, 8, 7, 6, 5, 4, 3, 2, 1, 0] \<and>
      count_list (trace (snd (lifecycle_log_post_reset_state s))) LogFactoryResetStart =
        count_list (trace s) LogFactoryResetStart + 1 \<and>
      rtc_restart_count (snd (lifecycle_log_post_reset_state s)) = 0"
    if "10 \<le> fst (lifecycle_log_post_reset_state_count s)"
    using crash_loop_invocation [OF that] crash_loop_boot(1,2,3,4) [OF that] by simp
  have normal: "fst (lifecycle_log_post_reset_state s) = None \<and>
      trace (snd (lifecycle_log_post_reset_state s)) =
        trace s @ [LogRestartCount (fst (lifecycle_log_post_reset_state_count s)),
                   LogPostResetFlag (reason_str (lifecycle_peek_post_reset_reason s))]"
    if "\<not> 10 \<le> fst (lifecycle_log_post_reset_state_count s)"
    using normal_boot(1,5) [OF that] by simp
  have healthy_before: "count_list (trace (snd (consecutive_boots kinds s))) LogFactoryResetStart =
           count_list (trace s) LogFactoryResetStart"
    if "healthy s" "rtc_restart_count s = 0" "durable_restart_count s = 0" "length kinds \<le> 9"
    using healthy_boots_below_threshold [OF that] by simp
  have healthy_tenth: "count_list (trace (snd (consecutive_boots kinds s))) LogFactoryResetStart =
           count_list (trace s) LogFactoryResetStart + 1 \<and>
         rtc_restart_count (snd (consecutive_boots kinds s)) = 0 \<and>
         durable_restart_count (snd (consecutive_boots kinds s)) = 0"
    if "healthy s" "rtc_restart_count s = 0" "durable_restart_count s = 0" "length kinds = 10"
    using healthy_ten_boots(1,2,3) [OF that] by simp
  have kept_before: "count_list (trace (snd (consecutive_boots (replicate n Warm_reset) s))) LogFactoryResetStart =
           count_list (trace s) LogFactoryResetStart"
    if "rtc_restart_count s = 0" "durable_restart_count s = 0" "n \<le> 9"
       "\<forall>outcome \<in> set (fst (consecutive_boots (replicate n Warm_reset) s)). \<not> is_aborted outcome"
    using kept_boots_below_threshold [OF that] by simp
  have kept_tenth: "count_list (trace (snd (consecutive_boots (replicate n Warm_reset) s))) LogFactoryResetStart =
           count_list (trace s) LogFactoryResetStart + 1 \<and>
         rtc_restart_count (snd (consecutive_boots (replicate n Warm_reset) s)) = 0"
    if "rtc_restart_count s = 0" "durable_restart_count s = 0" "n = 10"
       "\<forall>outcome \<in> set (fst (consecutive_boots (replicate n Warm_reset) s)). \<not> is_aborted outcome"
    using kept_ten_boots [OF that(1) that(2)] that(3) that(4) by simp
  show ?thesis
    using loop normal healthy_before healthy_tenth kept_before kept_tenth by blast
qed

theorem crash_loop_triggers_factory_reset_witness:
  "crash_loop_view (trace (snd (lifecycle_log_post_reset_state (fresh_device\<lparr>rtc_restart_count := 9\<rparr>)))) =
     [LogFactoryResetIn 10, TaskDelay 1000, LogFactoryResetIn 9, TaskDelay 1000,
      LogFactoryResetIn 8, TaskDelay 1000, LogFactoryResetIn 7, TaskDelay 1000,
      LogFactoryResetIn 6, TaskDelay 1000, LogFactoryResetIn 5, TaskDelay 1000,
      LogFactoryResetIn 4, TaskDelay 1000, LogFactoryResetIn 3, TaskDelay 1000,
      LogFactoryResetIn 2, TaskDelay 1000, LogFactoryResetIn 1, TaskDelay 1000,
      LogFactoryResetIn 0, TaskDelay 1000, LogFactoryResetStart] \<and>
   countdown_lines (trace (snd (lifecycle_log_post_reset_state (fresh_device\<lparr>rtc_restart_count := 9\<rparr>)))) =
     [10, 9, 8, 7, 6, 5, 4, 3, 2, 1, 0] \<and>
   rtc_restart_count (snd (lifecycle_log_post_reset_state (fresh_device\<lparr>rtc_restart_count := 9\<rparr>))) = 0 \<and>
   count_list (trace (snd (consecutive_boots (butlast example_resets) fresh_device))) LogFactoryResetStart = 0 \<and>
   count_list (trace (snd (consecutive_boots example_resets fresh_device))) LogFactoryResetStart = 1 \<and>
   rtc_restart_count (snd (consecutive_boots example_resets fresh_device)) = 0 \<and>
   durable_restart_count (snd (consecutive_boots example_resets fresh_device)) = 0 \<and>
   count_list (trace (snd (consecutive_boots (replicate 10 Warm_reset) fresh_device))) LogFactoryResetStart = 1"
proof -
  have start: "rtc_restart_count fresh_device = 0 \<and> durable_restart_count fresh_device = 0 \<and>
      healthy fresh_device \<and> trace fresh_device = []"
    by (simp add: fresh_device_def durable_restart_count_def durable_restart_entry_def healthy_def)
  have loop: "10 \<le> fst (lifecycle_log_post_reset_state_count (fresh_device\<lparr>rtc_restart_count := 9\<rparr>))"
    using example_crash_loop_count by simp
  have empty: "trace (fresh_device\<lparr>rtc_restart_count := 9\<rparr>) = [] \<and>
      app_partitions (fresh_device\<lparr>rtc_restart_count := 9\<rparr>) \<noteq> []"
    by (simp add: fresh_device_def app_partitions_def example_partitions_def)
  have lengths: "length example_resets = 10 \<and> length (butlast example_resets) \<le> 9"
    by (simp add: example_resets_def)
  have ran: "\<forall>outcome \<in> set (fst (consecutive_boots (replicate 10 Warm_reset) fresh_device)).
      \<not> is_aborted outcome"
    using healthy_ten_boots(4) [of fresh_device "replicate 10 Warm_reset"] start by simp
  show ?thesis
    using crash_loop_triggers_factory_reset [where s = "fresh_device\<lparr>rtc_restart_count := 9\<rparr>"]
          crash_loop_triggers_factory_reset [where s = fresh_device and kinds = example_resets and n = 10]
          crash_loop_triggers_factory_reset [where s = fresh_device and kinds = "butlast example_resets"]
          start loop empty lengths ran
    by simp
qed

text \<open>
  The countdown does not have ten steps: on the device whose RTC counter is 9, the next boot
  reports 10 and logs eleven countdown lines, with eleven delays of one second.
\<close>

theorem countdown_has_eleven_steps_counterexample:
  "length (countdown_lines
     (trace (snd (lifecycle_log_post_reset_state (fresh_device\<lparr>rtc_restart_count := 9\<rparr>))))) = 11 \<and>
   length (countdown_lines
     (trace (snd (lifecycle_log_post_reset_state (fresh_device\<lparr>rtc_restart_count := 9\<rparr>))))) \<noteq> 10 \<and>
   count_list (crash_loop_view
     (trace (snd (lifecycle_log_post_reset_state (fresh_device\<lparr>rtc_restart_count := 9\<rparr>)))))
     (TaskDelay 1000) = 11"
proof -
  have loop: "10 \<le> fst (lifecycle_log_post_reset_state_count (fresh_device\<lparr>rtc_restart_count := 9\<rparr>))"
    using example_crash_loop_count by simp
  have empty: "trace (fresh_device\<lparr>rtc_restart_count := 9\<rparr>) = []"
    by (simp add: fresh_device_def)
  show ?thesis
    using crash_loop_boot(1,2) [OF loop] empty by simp
qed


section \<open>The factory reset and its reboot\<close>

lemma milestones_append [simp]: "milestones (xs @ ys) = milestones xs @ milestones ys"
  by (simp add: milestones_def)

lemma milestones_Cons [simp]:
  "milestones (e # es) = (if is_milestone e then e # milestones es else milestones es)"
  "milestones [] = []"
  by (simp_all add: milestones_def)

lemma milestones_erases [simp]: "milestones (map Esp_partition_erase_range ps) = []"
  by (induction ps) simp_all

lemma count_restart_erases [simp]: "count_list (map Esp_partition_erase_range ps) Esp_restart = 0"
  by (induction ps) simp_all

text \<open>What the storage steps of the factory reset do to the store when nothing fails.\<close>

lemma healthy_save_flags:
  assumes "healthy s" "nvs_flag_sound s"
  shows "s_nvs_initialized (snd (save_restart_counter_to_nvs v s))"
    and "nvs_ready (snd (save_restart_counter_to_nvs v s))"
    and "nvs (snd (save_restart_counter_to_nvs v s)) ns =
           (if ns = k_restart_counter_namespace
            then Some ((case nvs s ns of None \<Rightarrow> Map.empty | Some entries \<Rightarrow> entries)
                         (k_restart_counter_key \<mapsto> NVS_U32 v))
            else nvs s ns)"
  using healthy_ensure [OF assms]
  by (auto simp add: save_restart_counter_to_nvs_def case_prod_beta nvs_open_def nvs_set_u32_def
        nvs_commit_def nvs_close_def split: if_splits sum.splits option.splits)

lemma healthy_clear_nvs_namespace:
  assumes "healthy s" "nvs_flag_sound s"
  shows "s_nvs_initialized (clear_nvs_namespace namespace s)"
    and "nvs_ready (clear_nvs_namespace namespace s)"
    and "nvs (clear_nvs_namespace namespace s) = (nvs s)(namespace \<mapsto> Map.empty)"
  using healthy_ensure [OF assms]
  by (auto simp add: clear_nvs_namespace_def case_prod_beta nvs_open_def nvs_erase_all_def
        nvs_commit_def nvs_close_def split: if_splits sum.splits option.splits)

lemma healthy_erase_wifi_credentials:
  assumes "healthy s" "nvs_flag_sound s"
  shows "s_nvs_initialized (erase_wifi_credentials s)"
    and "nvs_ready (erase_wifi_credentials s)"
    and "nvs (erase_wifi_credentials s) =
           (nvs s)(''wifi_cfg'' \<mapsto>
              (case nvs s ''wifi_cfg'' of None \<Rightarrow> Map.empty | Some entries \<Rightarrow> entries)
                (''wifi_ssid'' := None, ''wifi_password'' := None))"
  using healthy_ensure [OF assms]
  by (auto simp add: erase_wifi_credentials_def case_prod_beta nvs_open_def nvs_erase_key_def
        nvs_commit_def nvs_close_def fun_upd_idem split: if_splits sum.splits option.splits)


lemma sound_steps [simp]:
  "nvs_flag_sound (emit e s) = nvs_flag_sound s"
  "nvs_flag_sound (lifecycle_log_step step s) = nvs_flag_sound s"
  "nvs_flag_sound (snd (select_factory_boot reason flag_step s)) = nvs_flag_sound s"
  "nvs_flag_sound (lifecycle_perform_common_shutdown reset_store s) = nvs_flag_sound s"
  "nvs_flag_sound (s\<lparr>rtc_restart_count := c\<rparr>) = nvs_flag_sound s"
  by (simp_all add: nvs_flag_sound_def)

lemma healthy_steps [simp]:
  "healthy (emit e s) = healthy s"
  "healthy (lifecycle_log_step step s) = healthy s"
  "healthy (snd (select_factory_boot reason flag_step s)) = healthy s"
  "healthy (lifecycle_perform_common_shutdown reset_store s) = healthy s"
  "healthy (lifecycle_reset_restart_counter s) = healthy s"
  "healthy (erase_wifi_credentials s) = healthy s"
  "healthy (clear_nvs_namespace namespace s) = healthy s"
  by (simp_all add: healthy_def)

lemma healthy_factory_reset_store:
  assumes h: "healthy s" and sound: "nvs_flag_sound s" and apps: "app_partitions s \<noteq> []"
  shows "nvs (snd (lifecycle_factory_reset_and_reboot s)) ''wifi_cfg'' =
           Some ((case nvs s ''wifi_cfg'' of None \<Rightarrow> Map.empty | Some entries \<Rightarrow> entries)
                   (''wifi_ssid'' := None, ''wifi_password'' := None))"
    and "nvs (snd (lifecycle_factory_reset_and_reboot s)) ''fwcfg'' = Some Map.empty"
    and "nvs (snd (lifecycle_factory_reset_and_reboot s)) ''lcm'' = Some Map.empty"
proof -
  define s1 where "s1 = lifecycle_reset_restart_counter (emit LogFactoryResetStart s)"
  define s4 where "s4 = lifecycle_log_step ''erase_wifi_credentials''
      (lifecycle_perform_common_shutdown False
        (emit Homekit_server_reset (lifecycle_log_step ''reset_homekit_store''
          (snd (select_factory_boot LIFECYCLE_POST_RESET_REASON_FACTORY ''set_post_reset_flag=factory'' s1)))))"
  define s5 where "s5 = lifecycle_log_step ''clear_fw_config'' (erase_wifi_credentials s4)"
  define s6 where "s6 = lifecycle_log_step ''clear_lcm_state'' (clear_fwcfg_namespace s5)"
  have stops: "nvs (snd (lifecycle_factory_reset_and_reboot s)) = nvs (clear_lcm_namespace s6)"
    using apps
    by (simp add: lifecycle_factory_reset_and_reboot_def Let_def case_prod_beta s1_def s4_def
          s5_def s6_def erase_ota_app_partitions_result split: option.splits list.splits)
  let ?s0 = "(emit LogFactoryResetStart s)\<lparr>rtc_restart_count := 0\<rparr>"
  have start: "healthy ?s0" "nvs_flag_sound ?s0"
    using h sound by simp_all
  have s1: "s1 = snd (save_restart_counter_to_nvs 0 ?s0)"
    by (simp add: s1_def lifecycle_reset_restart_counter_def case_prod_beta)
  have h1: "healthy s1"
    using h by (simp add: s1_def)
  have flags1: "s_nvs_initialized s1" "nvs_ready s1"
    unfolding s1 using healthy_save_flags(1,2) [OF start] by simp_all
  have wifi1: "nvs s1 ''wifi_cfg'' = nvs s ''wifi_cfg''"
    unfolding s1 using healthy_save_flags(3) [OF start, of 0 "''wifi_cfg''"]
    by (simp add: k_restart_counter_namespace_def)
  have h4: "healthy s4" "nvs_flag_sound s4" "nvs s4 = nvs s1"
    using h1 flags1 by (simp_all add: s4_def nvs_flag_sound_def)
  have h5: "healthy s5" "nvs_flag_sound s5"
    using h4(1) healthy_erase_wifi_credentials(1,2) [OF h4(1) h4(2)]
    by (simp_all add: s5_def nvs_flag_sound_def)
  have wifi5: "nvs s5 ''wifi_cfg'' =
      Some ((case nvs s ''wifi_cfg'' of None \<Rightarrow> Map.empty | Some entries \<Rightarrow> entries)
              (''wifi_ssid'' := None, ''wifi_password'' := None))"
    using healthy_erase_wifi_credentials(3) [OF h4(1) h4(2)] h4(3) wifi1 by (simp add: s5_def)
  have h6: "healthy s6" "nvs_flag_sound s6"
    using h5(1) healthy_clear_nvs_namespace(1,2) [OF h5, of "''fwcfg''"]
    by (simp_all add: s6_def nvs_flag_sound_def clear_fwcfg_namespace_def)
  have store6: "nvs s6 = (nvs s5)(''fwcfg'' \<mapsto> Map.empty)"
    using healthy_clear_nvs_namespace(3) [OF h5, of "''fwcfg''"]
    by (simp add: s6_def clear_fwcfg_namespace_def)
  have store7: "nvs (clear_lcm_namespace s6) = (nvs s6)(''lcm'' \<mapsto> Map.empty)"
    using healthy_clear_nvs_namespace(3) [OF h6, of "''lcm''"]
    by (simp add: clear_lcm_namespace_def)
  show "nvs (snd (lifecycle_factory_reset_and_reboot s)) ''wifi_cfg'' =
           Some ((case nvs s ''wifi_cfg'' of None \<Rightarrow> Map.empty | Some entries \<Rightarrow> entries)
                   (''wifi_ssid'' := None, ''wifi_password'' := None))"
    unfolding stops store7 store6 using wifi5 by simp
  show "nvs (snd (lifecycle_factory_reset_and_reboot s)) ''fwcfg'' = Some Map.empty"
    unfolding stops store7 store6 by simp
  show "nvs (snd (lifecycle_factory_reset_and_reboot s)) ''lcm'' = Some Map.empty"
    unfolding stops store7 store6 by simp
qed

text \<open>
  Claim C4 against the code. The factory-reset-and-reboot sequence does not reach its reboot
  on a device whose partition table has an app partition, whatever the outcomes of its
  fallible steps. It runs its steps in order up to \<open>erase_ota_apps\<close>, continuing past every
  error (the boot selection logs \<open>set_boot=factory\<close> when a factory partition exists and
  \<open>set_post_reset_flag=factory\<close> when selecting it succeeded, \<open>stop_provisioning\<close> is logged
  when the optional hook is linked, and on a healthy platform the credentials are gone from the
  store and the namespaces \<open>fwcfg\<close> and \<open>lcm\<close> are empty). There
  \<open>erase_ota_partition_by_label\<close> releases the iterator that \<open>esp_partition_next\<close> has
  advanced in place: with one app partition the release is a double free, with more the next
  round of the loop reads the freed iterator. The steps after it (\<open>restore_wifi_defaults\<close>,
  \<open>erase_nvs_partition\<close>, the delay and \<open>esp_restart\<close>) are not reached. Only on a table
  without any app partition does the sequence run to its end and call \<open>esp_restart\<close>, once
  and as its last event.
\<close>

theorem factory_reset_stops_at_memory_fault:
  "fst (lifecycle_factory_reset_and_reboot s) =
     (case app_partitions s of
        [] \<Rightarrow> None
      | p # ps \<Rightarrow> Some (if ps = [] then Double_free else Use_after_free)) \<and>
   trace (snd (lifecycle_factory_reset_and_reboot s)) =
     trace s @ [LogFactoryResetStart] @
     (case esp_partition_find_first ESP_PARTITION_TYPE_APP ESP_PARTITION_SUBTYPE_APP_FACTORY s of
        None \<Rightarrow> []
      | Some factory \<Rightarrow>
          [LogStep ''set_boot=factory'', Esp_ota_set_boot_partition factory] @
          (if fst (select_factory_boot LIFECYCLE_POST_RESET_REASON_FACTORY ''set_post_reset_flag=factory''
                    (lifecycle_reset_restart_counter (emit LogFactoryResetStart s)))
           then [LogStep ''set_post_reset_flag=factory''] else [])) @
     [LogStep ''reset_homekit_store'', Homekit_server_reset,
      LogStep ''stop_homekit'', LogStep ''wait_hap_clients'', TaskDelay 100, LogStep ''stop_mdns'',
      Mdns_service_remove, Mdns_free] @
     (if wifi_config_shutdown_linked s then [LogStep ''stop_provisioning'', Wifi_config_shutdown] else []) @
     [LogStep ''stop_wifi''] @
     (if s_wifi_started s
      then [Esp_wifi_disconnect, Esp_wifi_stop, Esp_event_handler_unregister WIFI_EVENT,
            Esp_event_handler_unregister IP_EVENT, Esp_wifi_deinit] @
           (if s_wifi_netif s then [Esp_netif_destroy] else [])
      else []) @
     [LogStep ''erase_wifi_credentials'', LogStep ''clear_fw_config'', LogStep ''clear_lcm_state'',
      LogStep ''erase_otadata''] @
     map Esp_partition_erase_range (otadata_partition s) @
     [LogStep ''erase_ota_apps''] @
     (case app_partitions s of
        [] \<Rightarrow>
          [LogStep ''restore_wifi_defaults'', Esp_wifi_restore, LogStep ''erase_nvs_partition'',
           LogStep ''delay_before_reset'', TaskDelay 100, LogStep ''reboot'', Esp_restart]
      | p # ps \<Rightarrow> map Esp_partition_erase_range (erased_in_round ''ota_1'' p)) \<and>
   (app_partitions s \<noteq> [] \<longrightarrow>
      milestones (trace (snd (lifecycle_factory_reset_and_reboot s))) =
        milestones (trace s) @
        (case esp_partition_find_first ESP_PARTITION_TYPE_APP ESP_PARTITION_SUBTYPE_APP_FACTORY s of
           None \<Rightarrow> []
         | Some factory \<Rightarrow>
             [LogStep ''set_boot=factory''] @
             (if fst (select_factory_boot LIFECYCLE_POST_RESET_REASON_FACTORY ''set_post_reset_flag=factory''
                       (lifecycle_reset_restart_counter (emit LogFactoryResetStart s)))
              then [LogStep ''set_post_reset_flag=factory''] else [])) @
        [LogStep ''reset_homekit_store'', LogStep ''stop_homekit'', LogStep ''wait_hap_clients'',
         LogStep ''stop_mdns''] @
        (if wifi_config_shutdown_linked s then [LogStep ''stop_provisioning''] else []) @
        [LogStep ''stop_wifi'', LogStep ''erase_wifi_credentials'', LogStep ''clear_fw_config'',
         LogStep ''clear_lcm_state'', LogStep ''erase_otadata'', LogStep ''erase_ota_apps''] \<and>
      count_list (trace (snd (lifecycle_factory_reset_and_reboot s))) Esp_restart =
        count_list (trace s) Esp_restart) \<and>
   (app_partitions s = [] \<longrightarrow>
      milestones (trace (snd (lifecycle_factory_reset_and_reboot s))) =
        milestones (trace s) @
        (case esp_partition_find_first ESP_PARTITION_TYPE_APP ESP_PARTITION_SUBTYPE_APP_FACTORY s of
           None \<Rightarrow> []
         | Some factory \<Rightarrow>
             [LogStep ''set_boot=factory''] @
             (if fst (select_factory_boot LIFECYCLE_POST_RESET_REASON_FACTORY ''set_post_reset_flag=factory''
                       (lifecycle_reset_restart_counter (emit LogFactoryResetStart s)))
              then [LogStep ''set_post_reset_flag=factory''] else [])) @
        [LogStep ''reset_homekit_store'', LogStep ''stop_homekit'', LogStep ''wait_hap_clients'',
         LogStep ''stop_mdns''] @
        (if wifi_config_shutdown_linked s then [LogStep ''stop_provisioning''] else []) @
        [LogStep ''stop_wifi'', LogStep ''erase_wifi_credentials'', LogStep ''clear_fw_config'',
         LogStep ''clear_lcm_state'', LogStep ''erase_otadata'', LogStep ''erase_ota_apps'',
         LogStep ''restore_wifi_defaults'', LogStep ''erase_nvs_partition'',
         LogStep ''delay_before_reset'', LogStep ''reboot'', Esp_restart] \<and>
      count_list (trace (snd (lifecycle_factory_reset_and_reboot s))) Esp_restart =
        count_list (trace s) Esp_restart + 1 \<and>
      last (trace (snd (lifecycle_factory_reset_and_reboot s))) = Esp_restart) \<and>
   (healthy s \<and> nvs_flag_sound s \<and> app_partitions s \<noteq> [] \<longrightarrow>
      nvs (snd (lifecycle_factory_reset_and_reboot s)) ''wifi_cfg'' =
        Some ((case nvs s ''wifi_cfg'' of None \<Rightarrow> Map.empty | Some entries \<Rightarrow> entries)
                (''wifi_ssid'' := None, ''wifi_password'' := None)) \<and>
      nvs (snd (lifecycle_factory_reset_and_reboot s)) ''fwcfg'' = Some Map.empty \<and>
      nvs (snd (lifecycle_factory_reset_and_reboot s)) ''lcm'' = Some Map.empty)"
proof -
  have stopped: "milestones (trace (snd (lifecycle_factory_reset_and_reboot s))) =
        milestones (trace s) @
        (case esp_partition_find_first ESP_PARTITION_TYPE_APP ESP_PARTITION_SUBTYPE_APP_FACTORY s of
           None \<Rightarrow> []
         | Some factory \<Rightarrow>
             [LogStep ''set_boot=factory''] @
             (if fst (select_factory_boot LIFECYCLE_POST_RESET_REASON_FACTORY ''set_post_reset_flag=factory''
                       (lifecycle_reset_restart_counter (emit LogFactoryResetStart s)))
              then [LogStep ''set_post_reset_flag=factory''] else [])) @
        [LogStep ''reset_homekit_store'', LogStep ''stop_homekit'', LogStep ''wait_hap_clients'',
         LogStep ''stop_mdns''] @
        (if wifi_config_shutdown_linked s then [LogStep ''stop_provisioning''] else []) @
        [LogStep ''stop_wifi'', LogStep ''erase_wifi_credentials'', LogStep ''clear_fw_config'',
         LogStep ''clear_lcm_state'', LogStep ''erase_otadata'', LogStep ''erase_ota_apps''] \<and>
      count_list (trace (snd (lifecycle_factory_reset_and_reboot s))) Esp_restart =
        count_list (trace s) Esp_restart"
    if "app_partitions s \<noteq> []"
    using that
    by (simp add: lifecycle_factory_reset_and_reboot_trace split: option.splits list.splits)
  have finished: "milestones (trace (snd (lifecycle_factory_reset_and_reboot s))) =
        milestones (trace s) @
        (case esp_partition_find_first ESP_PARTITION_TYPE_APP ESP_PARTITION_SUBTYPE_APP_FACTORY s of
           None \<Rightarrow> []
         | Some factory \<Rightarrow>
             [LogStep ''set_boot=factory''] @
             (if fst (select_factory_boot LIFECYCLE_POST_RESET_REASON_FACTORY ''set_post_reset_flag=factory''
                       (lifecycle_reset_restart_counter (emit LogFactoryResetStart s)))
              then [LogStep ''set_post_reset_flag=factory''] else [])) @
        [LogStep ''reset_homekit_store'', LogStep ''stop_homekit'', LogStep ''wait_hap_clients'',
         LogStep ''stop_mdns''] @
        (if wifi_config_shutdown_linked s then [LogStep ''stop_provisioning''] else []) @
        [LogStep ''stop_wifi'', LogStep ''erase_wifi_credentials'', LogStep ''clear_fw_config'',
         LogStep ''clear_lcm_state'', LogStep ''erase_otadata'', LogStep ''erase_ota_apps'',
         LogStep ''restore_wifi_defaults'', LogStep ''erase_nvs_partition'',
         LogStep ''delay_before_reset'', LogStep ''reboot'', Esp_restart] \<and>
      count_list (trace (snd (lifecycle_factory_reset_and_reboot s))) Esp_restart =
        count_list (trace s) Esp_restart + 1 \<and>
      last (trace (snd (lifecycle_factory_reset_and_reboot s))) = Esp_restart"
    if "app_partitions s = []"
    using that
    by (simp add: lifecycle_factory_reset_and_reboot_trace split: option.splits)
  have store: "nvs (snd (lifecycle_factory_reset_and_reboot s)) ''wifi_cfg'' =
        Some ((case nvs s ''wifi_cfg'' of None \<Rightarrow> Map.empty | Some entries \<Rightarrow> entries)
                (''wifi_ssid'' := None, ''wifi_password'' := None)) \<and>
      nvs (snd (lifecycle_factory_reset_and_reboot s)) ''fwcfg'' = Some Map.empty \<and>
      nvs (snd (lifecycle_factory_reset_and_reboot s)) ''lcm'' = Some Map.empty"
    if "healthy s" "nvs_flag_sound s" "app_partitions s \<noteq> []"
    using healthy_factory_reset_store [OF that] by simp
  show ?thesis
    using lifecycle_factory_reset_and_reboot_result [of s]
          lifecycle_factory_reset_and_reboot_trace [of s] stopped finished store
    by blast
qed

lemma failing_select [simp]:
  "faults s = (\<lambda>k. ESP_FAIL) \<Longrightarrow> fst (select_factory_boot reason flag_step s) = False"
  by (simp add: select_factory_boot_def esp_ota_set_boot_partition_def platform_call_def
        case_prod_beta split: option.splits)

lemma example_factory_partition:
  "find (\<lambda>p. part_type p = ESP_PARTITION_TYPE_APP \<and> part_subtype p = ESP_PARTITION_SUBTYPE_APP_FACTORY)
     example_partitions = Some (example_partitions ! 2)"
  by (simp add: example_partitions_def ESP_PARTITION_SUBTYPE_APP_FACTORY_def)

lemma example_app_partitions:
  "filter (\<lambda>p. part_type p = ESP_PARTITION_TYPE_APP) example_partitions =
     [example_partitions ! 2, example_partitions ! 3, example_partitions ! 4]"
  by (simp add: example_partitions_def)

theorem factory_reset_stops_at_memory_fault_witness:
  "fst (lifecycle_factory_reset_and_reboot failing_device) = Some Use_after_free \<and>
   milestones (trace (snd (lifecycle_factory_reset_and_reboot failing_device))) =
     [LogStep ''set_boot=factory'',
      LogStep ''reset_homekit_store'', LogStep ''stop_homekit'', LogStep ''wait_hap_clients'',
      LogStep ''stop_mdns'', LogStep ''stop_provisioning'',
      LogStep ''stop_wifi'', LogStep ''erase_wifi_credentials'', LogStep ''clear_fw_config'',
      LogStep ''clear_lcm_state'', LogStep ''erase_otadata'', LogStep ''erase_ota_apps''] \<and>
   count_list (trace (snd (lifecycle_factory_reset_and_reboot failing_device))) Esp_restart = 0 \<and>
   fst (lifecycle_factory_reset_and_reboot provisioned_device) = Some Use_after_free \<and>
   milestones (trace (snd (lifecycle_factory_reset_and_reboot provisioned_device))) =
     [LogStep ''set_boot=factory'', LogStep ''set_post_reset_flag=factory'',
      LogStep ''reset_homekit_store'', LogStep ''stop_homekit'', LogStep ''wait_hap_clients'',
      LogStep ''stop_mdns'', LogStep ''stop_provisioning'',
      LogStep ''stop_wifi'', LogStep ''erase_wifi_credentials'', LogStep ''clear_fw_config'',
      LogStep ''clear_lcm_state'', LogStep ''erase_otadata'', LogStep ''erase_ota_apps''] \<and>
   count_list (trace (snd (lifecycle_factory_reset_and_reboot provisioned_device))) Esp_restart = 0 \<and>
   nvs (snd (lifecycle_factory_reset_and_reboot provisioned_device)) ''wifi_cfg'' = Some Map.empty \<and>
   nvs (snd (lifecycle_factory_reset_and_reboot provisioned_device)) ''fwcfg'' = Some Map.empty \<and>
   nvs (snd (lifecycle_factory_reset_and_reboot provisioned_device)) ''lcm'' = Some Map.empty"
proof -
  have failing: "faults (lifecycle_reset_restart_counter (emit LogFactoryResetStart failing_device)) =
      (\<lambda>k. ESP_FAIL)"
    by (simp add: failing_device_def)
  have table: "esp_partition_find_first ESP_PARTITION_TYPE_APP ESP_PARTITION_SUBTYPE_APP_FACTORY
      failing_device = Some (example_partitions ! 2)"
      "esp_partition_find_first ESP_PARTITION_TYPE_APP ESP_PARTITION_SUBTYPE_APP_FACTORY
      provisioned_device = Some (example_partitions ! 2)"
    by (simp_all add: esp_partition_find_first_def failing_device_def provisioned_device_def
          fresh_device_def example_factory_partition)
  have apps: "app_partitions failing_device =
        [example_partitions ! 2, example_partitions ! 3, example_partitions ! 4]"
      "app_partitions provisioned_device =
        [example_partitions ! 2, example_partitions ! 3, example_partitions ! 4]"
    by (simp_all add: app_partitions_def failing_device_def provisioned_device_def
          fresh_device_def example_app_partitions)
  have start: "trace failing_device = [] \<and> wifi_config_shutdown_linked failing_device \<and>
      trace provisioned_device = [] \<and> wifi_config_shutdown_linked provisioned_device \<and>
      healthy provisioned_device \<and> nvs_flag_sound provisioned_device"
    by (simp add: failing_device_def provisioned_device_def fresh_device_def healthy_def
          nvs_flag_sound_def)
  have selected: "fst (select_factory_boot LIFECYCLE_POST_RESET_REASON_FACTORY ''set_post_reset_flag=factory''
      (lifecycle_reset_restart_counter (emit LogFactoryResetStart provisioned_device)))"
  proof (rule healthy_select_factory_boot(1))
    show "healthy (lifecycle_reset_restart_counter (emit LogFactoryResetStart provisioned_device))"
      using start by simp
    show "esp_partition_find_first ESP_PARTITION_TYPE_APP ESP_PARTITION_SUBTYPE_APP_FACTORY
        (lifecycle_reset_restart_counter (emit LogFactoryResetStart provisioned_device)) =
          Some (example_partitions ! 2)"
      using table(2) by (simp add: esp_partition_find_first_def)
  qed
  have store: "(case nvs provisioned_device ''wifi_cfg'' of None \<Rightarrow> Map.empty | Some entries \<Rightarrow> entries)
      (''wifi_ssid'' := None, ''wifi_password'' := None) = Map.empty"
    by (simp add: provisioned_device_def fresh_device_def)
  show ?thesis
    using factory_reset_stops_at_memory_fault [of failing_device]
          factory_reset_stops_at_memory_fault [of provisioned_device]
          failing_select [OF failing] table apps start selected store
    by simp
qed


section \<open>The post-reset reason\<close>

lemma update_marks_reason:
  assumes "healthy s"
    and "esp_partition_find_first ESP_PARTITION_TYPE_APP ESP_PARTITION_SUBTYPE_APP_FACTORY s = Some factory"
  shows "rtc_magic (lifecycle_request_update_and_reboot s) = k_post_reset_magic"
    and "rtc_reason (lifecycle_request_update_and_reboot s) = LIFECYCLE_POST_RESET_REASON_UPDATE"
proof -
  let ?s1 = "case nvs_open ''lcm'' NVS_READWRITE (emit LogUpdateStart s) of
                  (Inl err, sa) \<Rightarrow> sa
                | (Inr handle, sa) \<Rightarrow>
                    (case nvs_set_u8 handle ''do_update'' 1 sa of (err, handle1, sb) \<Rightarrow>
                       if err \<noteq> ESP_OK then nvs_close handle1 sb
                       else nvs_close handle1 (snd (nvs_commit handle1 sb)))"
  have kept: "faults ?s1 = faults s \<and> partitions ?s1 = partitions s"
    by (simp add: case_prod_beta split: sum.splits)
  then have "healthy ?s1"
    using assms(1) by (simp add: healthy_def)
  moreover have "esp_partition_find_first ESP_PARTITION_TYPE_APP ESP_PARTITION_SUBTYPE_APP_FACTORY ?s1 =
      Some factory"
    using assms(2) kept by (simp add: esp_partition_find_first_def)
  ultimately have marked:
      "rtc_magic (snd (select_factory_boot LIFECYCLE_POST_RESET_REASON_UPDATE
          ''set_post_reset_flag=update'' ?s1)) = k_post_reset_magic"
      "rtc_reason (snd (select_factory_boot LIFECYCLE_POST_RESET_REASON_UPDATE
          ''set_post_reset_flag=update'' ?s1)) = LIFECYCLE_POST_RESET_REASON_UPDATE"
    by (rule healthy_select_factory_boot(2), rule healthy_select_factory_boot(3))
  show "rtc_magic (lifecycle_request_update_and_reboot s) = k_post_reset_magic"
    using marked(1) by (simp add: lifecycle_request_update_and_reboot_def Let_def)
  show "rtc_reason (lifecycle_request_update_and_reboot s) = LIFECYCLE_POST_RESET_REASON_UPDATE"
    using marked(2) by (simp add: lifecycle_request_update_and_reboot_def Let_def)
qed

text \<open>
  Claim C5. The post-reset reason round-trips through the RTC block. After \<open>UPDATE\<close> is
  marked and the CPU is reset with RTC memory kept, the reason reads as \<open>UPDATE\<close>; after the
  clear step it reads as \<open>NONE\<close>, whatever the state was; with a tag other than the magic
  value, or with a stored code above \<open>UPDATE\<close>, it reads as \<open>NONE\<close>. On the boot that
  follows the mark, when the restart count is below the threshold, the boot protocol logs
  the count and then \<open>post_reset_flag=update\<close>, and the reason reads as \<open>NONE\<close> afterwards.
  The update-and-reboot sequence is what marks \<open>UPDATE\<close>: on a healthy platform with a
  factory partition, the reason reads as \<open>UPDATE\<close> after the sequence and the reset.
\<close>

theorem post_reset_reason_round_trip:
  "lifecycle_peek_post_reset_reason
     (cpu_reset (lifecycle_mark_post_reset LIFECYCLE_POST_RESET_REASON_UPDATE s)) =
     LIFECYCLE_POST_RESET_REASON_UPDATE \<and>
   lifecycle_peek_post_reset_reason (lifecycle_clear_post_reset_state s) = LIFECYCLE_POST_RESET_NONE \<and>
   (rtc_magic s \<noteq> k_post_reset_magic \<longrightarrow>
      lifecycle_peek_post_reset_reason s = LIFECYCLE_POST_RESET_NONE) \<and>
   (rtc_reason s > LIFECYCLE_POST_RESET_REASON_UPDATE \<longrightarrow>
      lifecycle_peek_post_reset_reason s = LIFECYCLE_POST_RESET_NONE) \<and>
   (fst (lifecycle_log_post_reset_state_count
          (cpu_reset (lifecycle_mark_post_reset LIFECYCLE_POST_RESET_REASON_UPDATE s))) < 10 \<longrightarrow>
      trace (warm_boot (lifecycle_mark_post_reset LIFECYCLE_POST_RESET_REASON_UPDATE s)) =
        trace s @ [LogRestartCount (fst (lifecycle_log_post_reset_state_count
                     (cpu_reset (lifecycle_mark_post_reset LIFECYCLE_POST_RESET_REASON_UPDATE s)))),
                   LogPostResetFlag ''update''] \<and>
      lifecycle_peek_post_reset_reason
        (warm_boot (lifecycle_mark_post_reset LIFECYCLE_POST_RESET_REASON_UPDATE s)) =
        LIFECYCLE_POST_RESET_NONE) \<and>
   (healthy s \<and>
    esp_partition_find_first ESP_PARTITION_TYPE_APP ESP_PARTITION_SUBTYPE_APP_FACTORY s = Some factory \<longrightarrow>
      lifecycle_peek_post_reset_reason (cpu_reset (lifecycle_request_update_and_reboot s)) =
        LIFECYCLE_POST_RESET_REASON_UPDATE)"
proof -
  let ?m = "lifecycle_mark_post_reset LIFECYCLE_POST_RESET_REASON_UPDATE s"
  have marked: "lifecycle_peek_post_reset_reason (cpu_reset ?m) = LIFECYCLE_POST_RESET_REASON_UPDATE"
    by (simp add: lifecycle_peek_post_reset_reason_def lifecycle_mark_post_reset_def cpu_reset_def
          LIFECYCLE_POST_RESET_NONE_def LIFECYCLE_POST_RESET_REASON_UPDATE_def Let_def)
  have cleared: "lifecycle_peek_post_reset_reason (lifecycle_clear_post_reset_state x) = LIFECYCLE_POST_RESET_NONE" for x
    by (simp add: lifecycle_peek_post_reset_reason_def lifecycle_clear_post_reset_state_def
          k_post_reset_magic_def)
  have untagged: "rtc_magic s \<noteq> k_post_reset_magic \<Longrightarrow>
      lifecycle_peek_post_reset_reason s = LIFECYCLE_POST_RESET_NONE"
    by (simp add: lifecycle_peek_post_reset_reason_def)
  have out_of_range: "rtc_reason s > LIFECYCLE_POST_RESET_REASON_UPDATE \<Longrightarrow>
      lifecycle_peek_post_reset_reason s = LIFECYCLE_POST_RESET_NONE"
    by (simp add: lifecycle_peek_post_reset_reason_def Let_def)
  have boot: "trace (warm_boot ?m) =
        trace s @ [LogRestartCount (fst (lifecycle_log_post_reset_state_count (cpu_reset ?m))),
                   LogPostResetFlag ''update''] \<and>
      lifecycle_peek_post_reset_reason (warm_boot ?m) = LIFECYCLE_POST_RESET_NONE"
    if below: "fst (lifecycle_log_post_reset_state_count (cpu_reset ?m)) < 10"
  proof -
    let ?c = "lifecycle_log_post_reset_state_count (cpu_reset ?m)"
    have not_loop: "\<not> 10 \<le> fst ?c"
      using below by simp
    have seen: "lifecycle_peek_post_reset_reason (snd ?c) = LIFECYCLE_POST_RESET_REASON_UPDATE"
      by (simp add: lifecycle_peek_post_reset_reason_def lifecycle_mark_post_reset_def Let_def
            LIFECYCLE_POST_RESET_NONE_def LIFECYCLE_POST_RESET_REASON_UPDATE_def)
    have unfolded: "warm_boot ?m =
        lifecycle_clear_post_reset_state (emit (LogPostResetFlag ''update'') (snd ?c))"
      using not_loop seen
      by (simp add: warm_boot_def lifecycle_log_post_reset_state_def case_prod_beta Let_def
            reason_str_def LIFECYCLE_POST_RESET_NONE_def LIFECYCLE_POST_RESET_REASON_UPDATE_def
            LIFECYCLE_POST_RESET_REASON_HOMEKIT_def LIFECYCLE_POST_RESET_REASON_FACTORY_def)
    show ?thesis
      unfolding unfolded using cleared [of "emit (LogPostResetFlag ''update'') (snd ?c)"]
      by (simp add: lifecycle_mark_post_reset_def)
  qed
  have sequence: "lifecycle_peek_post_reset_reason (cpu_reset (lifecycle_request_update_and_reboot s)) =
        LIFECYCLE_POST_RESET_REASON_UPDATE"
    if "healthy s"
       "esp_partition_find_first ESP_PARTITION_TYPE_APP ESP_PARTITION_SUBTYPE_APP_FACTORY s = Some factory"
    using update_marks_reason [OF that]
    by (simp add: lifecycle_peek_post_reset_reason_def Let_def
          LIFECYCLE_POST_RESET_NONE_def LIFECYCLE_POST_RESET_REASON_UPDATE_def)
  show ?thesis
    using marked cleared untagged out_of_range boot sequence by blast
qed

theorem post_reset_reason_round_trip_witness:
  "lifecycle_peek_post_reset_reason
     (cpu_reset (lifecycle_mark_post_reset LIFECYCLE_POST_RESET_REASON_UPDATE fresh_device)) = 3 \<and>
   lifecycle_peek_post_reset_reason (fresh_device\<lparr>rtc_magic := 1, rtc_reason := 3\<rparr>) = 0 \<and>
   lifecycle_peek_post_reset_reason (fresh_device\<lparr>rtc_magic := k_post_reset_magic, rtc_reason := 4\<rparr>) = 0 \<and>
   trace (warm_boot (lifecycle_mark_post_reset LIFECYCLE_POST_RESET_REASON_UPDATE fresh_device)) =
     [LogRestartCount 1, LogPostResetFlag ''update''] \<and>
   lifecycle_peek_post_reset_reason
     (warm_boot (lifecycle_mark_post_reset LIFECYCLE_POST_RESET_REASON_UPDATE fresh_device)) = 0 \<and>
   lifecycle_peek_post_reset_reason (cpu_reset (lifecycle_request_update_and_reboot fresh_device)) = 3"
proof -
  have table: "healthy fresh_device \<and>
      esp_partition_find_first ESP_PARTITION_TYPE_APP ESP_PARTITION_SUBTYPE_APP_FACTORY fresh_device =
        Some (example_partitions ! 2)"
    by (simp add: healthy_def esp_partition_find_first_def fresh_device_def example_partitions_def
          ESP_PARTITION_SUBTYPE_APP_FACTORY_def)
  have count: "fst (lifecycle_log_post_reset_state_count
          (cpu_reset (lifecycle_mark_post_reset LIFECYCLE_POST_RESET_REASON_UPDATE fresh_device))) = 1"
    by (simp add: lifecycle_log_post_reset_state_count_def load_restart_counter_from_nvs_def
          lifecycle_ensure_nvs_initialized_def nvs_flash_init_def platform_call_def nvs_init_finish_def
          nvs_open_def nvs_get_u32_def nvs_close_def lifecycle_increment_restart_counter_def
          cpu_reset_def lifecycle_mark_post_reset_def fresh_device_def Let_def UINT32_MAX_def
          k_restart_counter_namespace_def k_restart_counter_key_def case_prod_beta)
  show ?thesis
    using post_reset_reason_round_trip [of fresh_device "example_partitions ! 2"]
          post_reset_reason_round_trip [of "fresh_device\<lparr>rtc_magic := 1, rtc_reason := 3\<rparr>"]
          post_reset_reason_round_trip [of "fresh_device\<lparr>rtc_magic := k_post_reset_magic, rtc_reason := 4\<rparr>"]
          count table
    by (simp add: LIFECYCLE_POST_RESET_REASON_UPDATE_def LIFECYCLE_POST_RESET_NONE_def
          k_post_reset_magic_def fresh_device_def)
qed

section \<open>The debounce timer\<close>

text \<open>
  Claim C6. When the restart debounce timer fires, its callback runs the reset-counter
  procedure: the RTC counter is 0 afterwards, and 0 is written to the durable store. When
  that write returns \<open>ESP_OK\<close> the durable entry is 0 as well, so both tiers hold 0; on a
  healthy platform the write does return \<open>ESP_OK\<close>.
\<close>

theorem restart_counter_timeout_clears_both_tiers:
  "rtc_restart_count (lifecycle_restart_counter_timeout s) = 0 \<and>
   lifecycle_restart_counter_timeout s =
     snd (save_restart_counter_to_nvs 0 (s\<lparr>timer_armed := False, rtc_restart_count := 0\<rparr>)) \<and>
   (fst (save_restart_counter_to_nvs 0 (s\<lparr>timer_armed := False, rtc_restart_count := 0\<rparr>)) = ESP_OK \<longrightarrow>
      durable_restart_entry (lifecycle_restart_counter_timeout s) = Some (NVS_U32 0) \<and>
      durable_restart_count (lifecycle_restart_counter_timeout s) = 0) \<and>
   (healthy s \<and> nvs_flag_sound s \<longrightarrow>
      durable_restart_entry (lifecycle_restart_counter_timeout s) = Some (NVS_U32 0))"
proof -
  let ?s0 = "s\<lparr>timer_armed := False, rtc_restart_count := 0\<rparr>"
  have unfolded: "lifecycle_restart_counter_timeout s = snd (save_restart_counter_to_nvs 0 ?s0)"
    by (simp add: lifecycle_restart_counter_timeout_def lifecycle_reset_restart_counter_def
          case_prod_beta)
  have rtc: "rtc_restart_count (lifecycle_restart_counter_timeout s) = 0"
    unfolding unfolded by simp
  have stored: "durable_restart_entry (lifecycle_restart_counter_timeout s) = Some (NVS_U32 0)"
    if "fst (save_restart_counter_to_nvs 0 ?s0) = ESP_OK"
    unfolding unfolded using that by (rule save_ok_stores)
  have ok: "fst (save_restart_counter_to_nvs 0 ?s0) = ESP_OK" if "healthy s" "nvs_flag_sound s"
  proof -
    have "healthy ?s0" "nvs_flag_sound ?s0"
      using that by (simp_all add: healthy_def nvs_flag_sound_def)
    then show ?thesis by (rule healthy_save)
  qed
  show ?thesis
    using unfolded rtc stored ok by (simp add: durable_restart_count_def)
qed

theorem restart_counter_timeout_witness:
  "rtc_restart_count (lifecycle_restart_counter_timeout (warm_boot fresh_device)) = 0 \<and>
   durable_restart_entry (warm_boot fresh_device) = Some (NVS_U32 1) \<and>
   durable_restart_entry (lifecycle_restart_counter_timeout (warm_boot fresh_device)) = Some (NVS_U32 0)"
proof -
  have boot: "warm_boot fresh_device =
     fresh_device\<lparr>rtc_restart_count := 1, s_restart_counter_timer := True, s_nvs_initialized := True,
       nvs := [''lcm'' \<mapsto> [''restart_count'' \<mapsto> NVS_U32 1]], nvs_ready := True, timer_armed := True,
       tick := 9, trace := [LogRestartCount 1, LogPostResetFlag ''none'']\<rparr>"
    by (simp add: warm_boot_def lifecycle_log_post_reset_state_def lifecycle_log_post_reset_state_count_def
          load_restart_counter_from_nvs_def save_restart_counter_to_nvs_def
          lifecycle_ensure_nvs_initialized_def nvs_flash_init_def platform_call_def nvs_init_finish_def
          nvs_open_def nvs_get_u32_def nvs_set_u32_def nvs_commit_def nvs_close_def
          lifecycle_increment_restart_counter_def lifecycle_schedule_restart_counter_timeout_def
          esp_timer_create_def esp_timer_stop_def esp_timer_start_once_def emit_def
          lifecycle_peek_post_reset_reason_def lifecycle_clear_post_reset_state_def reason_str_def
          cpu_reset_def fresh_device_def Let_def UINT32_MAX_def k_post_reset_magic_def
          k_restart_counter_namespace_def k_restart_counter_key_def LIFECYCLE_POST_RESET_NONE_def
          k_restart_counter_timeout_us_def word_le_nat_alt)
  have sound: "healthy (warm_boot fresh_device) \<and> nvs_flag_sound (warm_boot fresh_device)"
    unfolding boot by (simp add: healthy_def nvs_flag_sound_def fresh_device_def)
  have entry: "durable_restart_entry (warm_boot fresh_device) = Some (NVS_U32 1)"
    unfolding boot
    by (simp add: durable_restart_entry_def k_restart_counter_namespace_def k_restart_counter_key_def)
  show ?thesis
    using restart_counter_timeout_clears_both_tiers [of "warm_boot fresh_device"] sound entry
    by blast
qed

section \<open>Starting the network interface\<close>

text \<open>
  Claim C7. A call to \<open>wifi_start\<close> while the interface is already started returns
  \<open>ESP_OK\<close> and changes the stored ready callback and nothing else: the trace is the same (no
  credential load, no handler registration, no radio start), no platform call is made, and
  the interface is still started.
\<close>

theorem wifi_start_already_started:
  "s_wifi_started s \<Longrightarrow> wifi_start on_ready s = (ESP_OK, s\<lparr>s_wifi_on_ready_cb := on_ready\<rparr>)"
  by (simp add: wifi_start_def)

theorem wifi_start_already_started_witness:
  "s_wifi_started (fresh_device\<lparr>s_wifi_started := True\<rparr>) \<and>
   wifi_start (Some On_wifi_ready) (fresh_device\<lparr>s_wifi_started := True\<rparr>) =
     (ESP_OK, fresh_device\<lparr>s_wifi_started := True, s_wifi_on_ready_cb := Some On_wifi_ready\<rparr>)"
  using wifi_start_already_started [of "fresh_device\<lparr>s_wifi_started := True\<rparr>" "Some On_wifi_ready"]
  by simp

lemma wifi_start_load_failed:
  assumes "\<not> s_wifi_started s" "fst (nvs_load_wifi s) = Inl e"
  shows "wifi_start on_ready s = (e, snd (nvs_load_wifi s))"
proof -
  obtain r s1 where load: "nvs_load_wifi s = (r, s1)"
    by (cases "nvs_load_wifi s")
  then have "r = Inl e"
    using assms(2) by simp
  then show ?thesis
    using assms(1) load by (simp add: wifi_start_def)
qed

lemma healthy_load_wifi_absent:
  assumes "healthy s" "nvs_flag_sound s" "wifi_cfg_entry ''wifi_ssid'' s = None"
  shows "fst (nvs_load_wifi s) = Inl ESP_ERR_NVS_NOT_FOUND"
    and "nvs (snd (nvs_load_wifi s)) = nvs s"
  using healthy_ensure [OF assms(1) assms(2)] assms(3)
  by (auto simp add: nvs_load_wifi_def case_prod_beta nvs_open_def nvs_get_str_len_def nvs_close_def
        wifi_cfg_entry_def split: option.splits)

lemma read_only_calls_frame [simp]:
  "nvs (snd (nvs_open ns NVS_READONLY s)) = nvs s"
  "nvs_ready (snd (nvs_open ns NVS_READONLY s)) = nvs_ready s"
  "s_nvs_initialized (snd (nvs_open ns NVS_READONLY s)) = s_nvs_initialized s"
  "s_restart_counter_timer (snd (nvs_open ns NVS_READONLY s)) = s_restart_counter_timer s"
  "timer_armed (snd (nvs_open ns NVS_READONLY s)) = timer_armed s"
  "boot_partition (snd (nvs_open ns NVS_READONLY s)) = boot_partition s"
  "iterators (snd (nvs_open ns NVS_READONLY s)) = iterators s"
  "iterators_allocated (snd (nvs_open ns NVS_READONLY s)) = iterators_allocated s"
  "nvs (snd (nvs_get_str_len h key s)) = nvs s"
  "nvs_ready (snd (nvs_get_str_len h key s)) = nvs_ready s"
  "s_nvs_initialized (snd (nvs_get_str_len h key s)) = s_nvs_initialized s"
  "s_restart_counter_timer (snd (nvs_get_str_len h key s)) = s_restart_counter_timer s"
  "timer_armed (snd (nvs_get_str_len h key s)) = timer_armed s"
  "boot_partition (snd (nvs_get_str_len h key s)) = boot_partition s"
  "iterators (snd (nvs_get_str_len h key s)) = iterators s"
  "iterators_allocated (snd (nvs_get_str_len h key s)) = iterators_allocated s"
  "nvs (snd (nvs_get_str h key s)) = nvs s"
  "nvs_ready (snd (nvs_get_str h key s)) = nvs_ready s"
  "s_nvs_initialized (snd (nvs_get_str h key s)) = s_nvs_initialized s"
  "s_restart_counter_timer (snd (nvs_get_str h key s)) = s_restart_counter_timer s"
  "timer_armed (snd (nvs_get_str h key s)) = timer_armed s"
  "boot_partition (snd (nvs_get_str h key s)) = boot_partition s"
  "iterators (snd (nvs_get_str h key s)) = iterators s"
  "iterators_allocated (snd (nvs_get_str h key s)) = iterators_allocated s"
  "nvs (snd (malloc s)) = nvs s"
  "nvs_ready (snd (malloc s)) = nvs_ready s"
  "s_nvs_initialized (snd (malloc s)) = s_nvs_initialized s"
  "s_restart_counter_timer (snd (malloc s)) = s_restart_counter_timer s"
  "timer_armed (snd (malloc s)) = timer_armed s"
  "boot_partition (snd (malloc s)) = boot_partition s"
  "iterators (snd (malloc s)) = iterators s"
  "iterators_allocated (snd (malloc s)) = iterators_allocated s"
  by (simp_all add: nvs_open_def nvs_get_str_len_def nvs_get_str_def malloc_def platform_call_def
        split: option.splits nvs_value.splits)

lemma nvs_close_frame_more [simp]:
  "s_restart_counter_timer (nvs_close h s) = s_restart_counter_timer s"
  "timer_armed (nvs_close h s) = timer_armed s"
  "boot_partition (nvs_close h s) = boot_partition s"
  "iterators (nvs_close h s) = iterators s"
  "iterators_allocated (nvs_close h s) = iterators_allocated s"
  by (simp_all add: nvs_close_def)

lemma nvs_load_wifi_reads_only:
  assumes "s_nvs_initialized s"
  shows "snd (nvs_load_wifi s) = s\<lparr>tick := tick (snd (nvs_load_wifi s))\<rparr>"
proof -
  have f_nvs: "nvs (snd (nvs_load_wifi s)) = nvs s"
    using assms by (simp add: nvs_load_wifi_def lifecycle_ensure_nvs_initialized_def case_prod_beta split: sum.splits)
  have f_nvs_ready: "nvs_ready (snd (nvs_load_wifi s)) = nvs_ready s"
    using assms by (simp add: nvs_load_wifi_def lifecycle_ensure_nvs_initialized_def case_prod_beta split: sum.splits)
  have f_s_nvs_initialized: "s_nvs_initialized (snd (nvs_load_wifi s)) = s_nvs_initialized s"
    using assms by (simp add: nvs_load_wifi_def lifecycle_ensure_nvs_initialized_def case_prod_beta split: sum.splits)
  have f_s_restart_counter_timer: "s_restart_counter_timer (snd (nvs_load_wifi s)) = s_restart_counter_timer s"
    using assms by (simp add: nvs_load_wifi_def lifecycle_ensure_nvs_initialized_def case_prod_beta split: sum.splits)
  have f_timer_armed: "timer_armed (snd (nvs_load_wifi s)) = timer_armed s"
    using assms by (simp add: nvs_load_wifi_def lifecycle_ensure_nvs_initialized_def case_prod_beta split: sum.splits)
  have f_boot_partition: "boot_partition (snd (nvs_load_wifi s)) = boot_partition s"
    using assms by (simp add: nvs_load_wifi_def lifecycle_ensure_nvs_initialized_def case_prod_beta split: sum.splits)
  have f_iterators: "iterators (snd (nvs_load_wifi s)) = iterators s"
    using assms by (simp add: nvs_load_wifi_def lifecycle_ensure_nvs_initialized_def case_prod_beta split: sum.splits)
  have f_iterators_allocated: "iterators_allocated (snd (nvs_load_wifi s)) = iterators_allocated s"
    using assms by (simp add: nvs_load_wifi_def lifecycle_ensure_nvs_initialized_def case_prod_beta split: sum.splits)
  show ?thesis
    by (rule lcm_state.equality) (simp_all add: f_nvs f_nvs_ready f_s_nvs_initialized f_s_restart_counter_timer f_timer_armed f_boot_partition
          f_iterators f_iterators_allocated)
qed

text \<open>
  Claim C8. A call to \<open>wifi_start\<close> on a stopped interface with no SSID in the durable
  store returns \<open>ESP_ERR_NVS_NOT_FOUND\<close>, the not-provisioned error, and leaves the store as
  it is (the platform being healthy, so that the store can be read). Whenever the credential
  load fails, with whatever error, \<open>wifi_start\<close> returns that error and stops there: the
  trace is unchanged (no interface initialisation, no handler registration, no call into the
  network stack), the interface is still stopped, and the stored callback and the interface
  handle are as before. When the NVS driver has been initialised before the call, as
  \<open>app_main\<close> does, the state after the call is the state before it, but for the count of
  platform calls.
\<close>

theorem wifi_start_not_provisioned:
  "\<not> s_wifi_started s \<Longrightarrow>
   (healthy s \<and> nvs_flag_sound s \<and> wifi_cfg_entry ''wifi_ssid'' s = None \<longrightarrow>
      fst (wifi_start on_ready s) = ESP_ERR_NVS_NOT_FOUND \<and>
      nvs (snd (wifi_start on_ready s)) = nvs s) \<and>
   (fst (nvs_load_wifi s) = Inl e \<longrightarrow>
      fst (wifi_start on_ready s) = e \<and>
      trace (snd (wifi_start on_ready s)) = trace s \<and>
      \<not> s_wifi_started (snd (wifi_start on_ready s)) \<and>
      s_wifi_on_ready_cb (snd (wifi_start on_ready s)) = s_wifi_on_ready_cb s \<and>
      s_wifi_netif (snd (wifi_start on_ready s)) = s_wifi_netif s \<and>
      homekit_started (snd (wifi_start on_ready s)) = homekit_started s) \<and>
   (healthy s \<and> nvs_flag_sound s \<and> wifi_cfg_entry ''wifi_ssid'' s = None \<longrightarrow>
      fst (nvs_load_wifi s) = Inl ESP_ERR_NVS_NOT_FOUND) \<and>
   (s_nvs_initialized s \<and> fst (nvs_load_wifi s) = Inl e \<longrightarrow>
      snd (wifi_start on_ready s) = s\<lparr>tick := tick (snd (wifi_start on_ready s))\<rparr>)"
proof -
  assume stopped: "\<not> s_wifi_started s"
  have failed: "fst (wifi_start on_ready s) = e \<and>
      trace (snd (wifi_start on_ready s)) = trace s \<and>
      \<not> s_wifi_started (snd (wifi_start on_ready s)) \<and>
      s_wifi_on_ready_cb (snd (wifi_start on_ready s)) = s_wifi_on_ready_cb s \<and>
      s_wifi_netif (snd (wifi_start on_ready s)) = s_wifi_netif s \<and>
      homekit_started (snd (wifi_start on_ready s)) = homekit_started s"
    if "fst (nvs_load_wifi s) = Inl e" for e
    using wifi_start_load_failed [OF stopped that, of on_ready] stopped by simp
  have absent: "fst (wifi_start on_ready s) = ESP_ERR_NVS_NOT_FOUND \<and>
      nvs (snd (wifi_start on_ready s)) = nvs s \<and>
      fst (nvs_load_wifi s) = Inl ESP_ERR_NVS_NOT_FOUND"
    if "healthy s" "nvs_flag_sound s" "wifi_cfg_entry ''wifi_ssid'' s = None"
    using healthy_load_wifi_absent [OF that]
          wifi_start_load_failed [OF stopped healthy_load_wifi_absent(1) [OF that], of on_ready]
    by simp
  have untouched: "snd (wifi_start on_ready s) = s\<lparr>tick := tick (snd (wifi_start on_ready s))\<rparr>"
    if "s_nvs_initialized s" "fst (nvs_load_wifi s) = Inl e"
    using wifi_start_load_failed [OF stopped that(2), of on_ready] nvs_load_wifi_reads_only [OF that(1)]
    by simp
  show ?thesis
    using failed absent untouched by blast
qed

theorem wifi_start_not_provisioned_witness:
  "fst (wifi_start (Some On_wifi_ready) fresh_device) = ESP_ERR_NVS_NOT_FOUND \<and>
   fst (wifi_start (Some On_wifi_ready) (fresh_device\<lparr>s_nvs_initialized := True, nvs_ready := True\<rparr>)) =
     ESP_ERR_NVS_NOT_FOUND \<and>
   (snd (wifi_start (Some On_wifi_ready)
      (fresh_device\<lparr>s_nvs_initialized := True, nvs_ready := True\<rparr>)))\<lparr>tick := 0\<rparr> =
     fresh_device\<lparr>s_nvs_initialized := True, nvs_ready := True\<rparr> \<and>
   trace (snd (wifi_start (Some On_wifi_ready) fresh_device)) = [] \<and>
   \<not> s_wifi_started (snd (wifi_start (Some On_wifi_ready) fresh_device)) \<and>
   s_wifi_on_ready_cb (snd (wifi_start (Some On_wifi_ready) fresh_device)) = None \<and>
   nvs (snd (wifi_start (Some On_wifi_ready) fresh_device)) = Map.empty"
proof -
  have pre: "\<not> s_wifi_started fresh_device \<and> healthy fresh_device \<and> nvs_flag_sound fresh_device \<and>
      wifi_cfg_entry ''wifi_ssid'' fresh_device = None"
    by (simp add: fresh_device_def healthy_def nvs_flag_sound_def wifi_cfg_entry_def)
  let ?d = "fresh_device\<lparr>s_nvs_initialized := True, nvs_ready := True\<rparr>"
  have ready: "\<not> s_wifi_started ?d \<and> healthy ?d \<and> nvs_flag_sound ?d \<and>
      wifi_cfg_entry ''wifi_ssid'' ?d = None \<and> s_nvs_initialized ?d \<and> tick ?d = 0"
    by (simp add: fresh_device_def healthy_def nvs_flag_sound_def wifi_cfg_entry_def)
  have first: "fst (wifi_start (Some On_wifi_ready) fresh_device) = ESP_ERR_NVS_NOT_FOUND \<and>
      trace (snd (wifi_start (Some On_wifi_ready) fresh_device)) = [] \<and>
      \<not> s_wifi_started (snd (wifi_start (Some On_wifi_ready) fresh_device)) \<and>
      s_wifi_on_ready_cb (snd (wifi_start (Some On_wifi_ready) fresh_device)) = None \<and>
      nvs (snd (wifi_start (Some On_wifi_ready) fresh_device)) = Map.empty"
    using wifi_start_not_provisioned [of fresh_device "Some On_wifi_ready" ESP_ERR_NVS_NOT_FOUND] pre
    by (simp add: fresh_device_def)
  have second: "fst (wifi_start (Some On_wifi_ready) ?d) = ESP_ERR_NVS_NOT_FOUND \<and>
      snd (wifi_start (Some On_wifi_ready) ?d) = ?d\<lparr>tick := tick (snd (wifi_start (Some On_wifi_ready) ?d))\<rparr>"
    using wifi_start_not_provisioned [of ?d "Some On_wifi_ready" ESP_ERR_NVS_NOT_FOUND] ready
    by blast
  then have "(snd (wifi_start (Some On_wifi_ready) ?d))\<lparr>tick := 0\<rparr> =
      ?d\<lparr>tick := tick (snd (wifi_start (Some On_wifi_ready) ?d))\<rparr>\<lparr>tick := 0\<rparr>"
    by simp
  then have third: "(snd (wifi_start (Some On_wifi_ready) ?d))\<lparr>tick := 0\<rparr> = ?d"
    by (simp add: fresh_device_def)
  show ?thesis
    using first second third by blast
qed

section \<open>What a factory reset erases\<close>

lemma erased_partitions_append [simp]:
  "erased_partitions (xs @ ys) = erased_partitions xs @ erased_partitions ys"
  by (simp add: erased_partitions_def)

lemma erased_partitions_Cons [simp]:
  "erased_partitions (e # es) = erased_partition e @ erased_partitions es"
  "erased_partitions [] = []"
  by (simp_all add: erased_partitions_def)

lemma erased_partitions_erases [simp]:
  "erased_partitions (map Esp_partition_erase_range ps) = ps"
  by (induction ps) simp_all








section \<open>The ready callback\<close>

lemma on_wifi_ready_effect:
  "homekit_started (on_wifi_ready s)"
  "s_wifi_on_ready_cb (on_wifi_ready s) = s_wifi_on_ready_cb s"
  "count_list (trace (on_wifi_ready s)) Homekit_server_init =
     count_list (trace s) Homekit_server_init + (if homekit_started s then 0 else 1)"
  by (simp_all add: on_wifi_ready_def)

lemma wifi_event_handler_effect:
  assumes "s_wifi_on_ready_cb s = Some On_wifi_ready"
  shows "s_wifi_on_ready_cb (wifi_event_handler base ev s) = Some On_wifi_ready"
    and "homekit_started (wifi_event_handler base ev s) =
           (homekit_started s \<or> (base = IP_EVENT \<and> ev = IP_EVENT_STA_GOT_IP))"
    and "count_list (trace (wifi_event_handler base ev s)) Homekit_server_init =
           count_list (trace s) Homekit_server_init +
           (if \<not> homekit_started s \<and> base = IP_EVENT \<and> ev = IP_EVENT_STA_GOT_IP then 1 else 0)"
  using assms
  by (auto simp add: wifi_event_handler_def call_ready_cb_def on_wifi_ready_effect
        split: esp_event_id_t.splits)

lemma on_wifi_ready_times_count:
  "count_list (trace (on_wifi_ready_times n s)) Homekit_server_init =
     count_list (trace s) Homekit_server_init + (if homekit_started s \<or> n = 0 then 0 else 1)"
proof (induction n arbitrary: s)
  case 0
  then show ?case by simp
next
  case (Suc n)
  show ?case
    by (simp add: Suc.IH on_wifi_ready_effect)
qed

lemma deliver_events_count:
  "s_wifi_on_ready_cb s = Some On_wifi_ready \<Longrightarrow>
   count_list (trace (deliver_events evs s)) Homekit_server_init =
     count_list (trace s) Homekit_server_init +
     (if \<not> homekit_started s \<and> (IP_EVENT, IP_EVENT_STA_GOT_IP) \<in> set evs then 1 else 0)"
proof (induction evs arbitrary: s)
  case Nil
  then show ?case by simp
next
  case (Cons x evs)
  obtain base ev where x: "x = (base, ev)"
    by (cases x)
  have cb: "s_wifi_on_ready_cb (wifi_event_handler base ev s) = Some On_wifi_ready"
    using Cons.prems by (rule wifi_event_handler_effect(1))
  show ?case
    unfolding x
    using Cons.IH [OF cb] wifi_event_handler_effect(2,3) [OF Cons.prems, of base ev]
    by auto
qed

text \<open>
  Claim C10. The HomeKit server is initialised at most once in a run of the firmware (the
  static flag of \<open>on_wifi_ready\<close> starts as false at every boot). After any invocation the
  flag is set; an invocation with the flag set returns the state as it is; an invocation with
  the flag clear calls \<open>homekit_server_init\<close> once. So \<open>n\<close> invocations in a row call it
  once (when the flag was clear and \<open>n > 0\<close>), and when \<open>on_wifi_ready\<close> is the registered
  callback any sequence of events delivered to \<open>wifi_event_handler\<close> calls it once if the flag
  was clear and an address was acquired, and not at all otherwise.
\<close>

theorem homekit_server_initialised_once:
  "homekit_started (on_wifi_ready s) \<and>
   (homekit_started s \<longrightarrow> on_wifi_ready s = s) \<and>
   (\<not> homekit_started s \<longrightarrow> trace (on_wifi_ready s) = trace s @ [Homekit_server_init]) \<and>
   count_list (trace (on_wifi_ready_times n s)) Homekit_server_init =
     count_list (trace s) Homekit_server_init + (if homekit_started s \<or> n = 0 then 0 else 1) \<and>
   (s_wifi_on_ready_cb s = Some On_wifi_ready \<longrightarrow>
      count_list (trace (deliver_events evs s)) Homekit_server_init =
        count_list (trace s) Homekit_server_init +
        (if \<not> homekit_started s \<and> (IP_EVENT, IP_EVENT_STA_GOT_IP) \<in> set evs then 1 else 0))"
  using on_wifi_ready_times_count [of n s] deliver_events_count [of s evs]
  by (simp add: on_wifi_ready_def)

theorem homekit_server_initialised_once_witness:
  "count_list (trace (on_wifi_ready_times 3 fresh_device)) Homekit_server_init = 1 \<and>
   trace (on_wifi_ready fresh_device) = [Homekit_server_init] \<and>
   on_wifi_ready (on_wifi_ready fresh_device) = on_wifi_ready fresh_device \<and>
   count_list (trace (deliver_events
       [(WIFI_EVENT, WIFI_EVENT_STA_START), (IP_EVENT, IP_EVENT_STA_GOT_IP),
        (WIFI_EVENT, WIFI_EVENT_STA_DISCONNECTED), (IP_EVENT, IP_EVENT_STA_GOT_IP)]
       (fresh_device\<lparr>s_wifi_started := True, s_wifi_on_ready_cb := Some On_wifi_ready\<rparr>)))
     Homekit_server_init = 1"
  using homekit_server_initialised_once [of fresh_device 3 "[]"]
        homekit_server_initialised_once [of "on_wifi_ready fresh_device" 0 "[]"]
        homekit_server_initialised_once
          [of "fresh_device\<lparr>s_wifi_started := True, s_wifi_on_ready_cb := Some On_wifi_ready\<rparr>" 0
              "[(WIFI_EVENT, WIFI_EVENT_STA_START), (IP_EVENT, IP_EVENT_STA_GOT_IP),
                (WIFI_EVENT, WIFI_EVENT_STA_DISCONNECTED), (IP_EVENT, IP_EVENT_STA_GOT_IP)]"]
  by (simp add: fresh_device_def)

end
